theory Spec2Isabelle
  imports Main
begin

section \<open>Errors\<close>

text \<open>
  The exceptions of \<^verbatim>\<open>vpc-resources.ts\<close> as values. \<open>Error\<close> is a
  \<^verbatim>\<open>throw new Error(msg)\<close> of the source, \<open>TypeError\<close> is JavaScript's exception on a
  property read of \<^verbatim>\<open>undefined\<close>, \<open>ResourceNotFound\<close> is what
  \<^verbatim>\<open>CfnInclude.getResource\<close> raises for a logical id that the template does not hold.
\<close>

datatype error = Error string | TypeError string | ResourceNotFound string

section \<open>The parameter-export flush: createSsmParameters\<close>

text \<open>
  An element of \<^verbatim>\<open>this.ssmParameters\<close>, as \<^verbatim>\<open>addSsmParameter\<close> pushes it.
\<close>

record ssm_parameter =
  logicalId :: string
  parameterName :: string
  stringValue :: string

text \<open>
  A \<^verbatim>\<open>cdk.aws_ssm.StringParameter\<close> construct created by the flush. Constructs are
  objects: the flush keeps them in a map and hands them to \<^verbatim>\<open>addDependency\<close> by
  reference. The model names a construct by its creation position in the flush (the first
  construct created is position 1), and \<open>sp_dependsOn\<close> holds the positions of the
  constructs handed to \<^verbatim>\<open>node.addDependency\<close>, in call order. The constructor is an
  allocation here; the construct library's own refusal of a construct id that its scope
  already holds is outside this development.
\<close>

record string_parameter =
  sp_id :: string
  sp_parameterName :: string
  sp_stringValue :: string
  sp_dependsOn :: "nat list"

definition new_StringParameter :: "ssm_parameter \<Rightarrow> string_parameter" where
  "new_StringParameter parameterItem =
     \<lparr>sp_id = logicalId parameterItem,
      sp_parameterName = parameterName parameterItem,
      sp_stringValue = stringValue parameterItem,
      sp_dependsOn = []\<rparr>"

definition addDependency :: "nat \<Rightarrow> string_parameter \<Rightarrow> string_parameter" where
  "addDependency dependsOnParam parameter =
     parameter\<lparr>sp_dependsOn := sp_dependsOn parameter @ [dependsOnParam]\<rparr>"

text \<open>
  The loop of \<^verbatim>\<open>createSsmParameters\<close>. \<open>index\<close> is the source's counter,
  \<open>parameterMap\<close> its \<^verbatim>\<open>Map<number, StringParameter>\<close> (index to construct, a
  construct being its creation position), \<open>created\<close> the constructs created so far in
  creation order. The source logs at level ERROR and throws when the map lookup fails.
\<close>

fun createSsmParameters_loop ::
  "ssm_parameter list \<Rightarrow> nat \<Rightarrow> (nat \<rightharpoonup> nat) \<Rightarrow> string_parameter list
    \<Rightarrow> error + string_parameter list" where
  "createSsmParameters_loop [] index parameterMap created = Inr created"
| "createSsmParameters_loop (parameterItem # rest) index parameterMap created =
     (let parameter = Suc (length created);
          created1 = created @ [new_StringParameter parameterItem];
          parameterMap1 = parameterMap(index \<mapsto> parameter)
      in if index > 5 then
           (case parameterMap1 (index - (index mod 5)) of
              None \<Rightarrow> Inl (Error ''Configuration validation failed at runtime.'')
            | Some dependsOnParam \<Rightarrow>
                createSsmParameters_loop rest (index + 1) parameterMap1
                  (created1[parameter - 1 := addDependency dependsOnParam (created1 ! (parameter - 1))]))
         else createSsmParameters_loop rest (index + 1) parameterMap1 created1)"

definition createSsmParameters :: "ssm_parameter list \<Rightarrow> error + string_parameter list" where
  "createSsmParameters ssmParameters = createSsmParameters_loop ssmParameters 1 Map.empty []"

text \<open>The dependency list the flush gives to the construct created at position \<open>i\<close>.\<close>

definition flush_dependsOn :: "nat \<Rightarrow> nat list" where
  "flush_dependsOn i = (if i > 5 then [i - (i mod 5)] else [])"

definition flushed :: "nat \<Rightarrow> ssm_parameter \<Rightarrow> string_parameter" where
  "flushed i parameterItem = (new_StringParameter parameterItem)\<lparr>sp_dependsOn := flush_dependsOn i\<rparr>"

text \<open>Twelve export entries of one container, for the batching scenario.\<close>

definition twelve_exports :: "ssm_parameter list" where
  "twelve_exports =
     map (\<lambda>k. \<lparr>logicalId = ''SsmParam'' @ replicate k CHR ''x'',
               parameterName = ''/accelerator/network/vpc/Prod/'' @ replicate k CHR ''x'',
               stringValue = ''ref''\<rparr>) [1..<13]"

section \<open>Legacy records\<close>

text \<open>
  A value of a legacy property bag (\<^verbatim>\<open>resourceMetadata['Properties']\<close>), as far as the
  source reads it: a string, a number, a boolean, a reference object \<^verbatim>\<open>{ Ref: id }\<close>, or
  a join object \<^verbatim>\<open>{ 'Fn::Join': [separator, [part, ...]] }\<close>. A key that the bag does not
  hold reads as \<^verbatim>\<open>undefined\<close>, the \<open>None\<close> of a lookup.
\<close>

datatype prop_value =
    PStr string
  | PNum int
  | PBool bool
  | PRef string
  | PJoin string "prop_value list"

text \<open>
  Modelled from the spec: the legacy record type (\<^verbatim>\<open>CfnResourceType\<close>, declared in the
  configuration package) is the spec's ExistingResourceRecord: kind, logical and physical
  identifier, a list of tags and an untyped property bag. The tag list is always present,
  so the read \<^verbatim>\<open>Properties.Tags.find\<close> of the matchers cannot raise. The bag is an
  association list in the key order of the legacy document; it is only ever read by key.
\<close>

record cfn_resource =
  logicalResourceId :: string
  physicalResourceId :: string
  resourceType :: string
  tags :: "(string \<times> string) list"
  properties :: "(string \<times> prop_value) list"

text \<open>
  A container: the nested stack of one network (\<^verbatim>\<open>NestedAseaStackInfo\<close>) with the
  legacy records it holds.
\<close>

record nested_stack_info =
  stackName :: string
  stackLogicalResourceId :: string
  resources :: "cfn_resource list"

text \<open>The members of \<^verbatim>\<open>const enum RESOURCE_TYPE\<close> that the embedded functions use.\<close>

abbreviation (input) RESOURCE_TYPE_VPC :: string where
  "RESOURCE_TYPE_VPC \<equiv> ''AWS::EC2::VPC''"

abbreviation (input) RESOURCE_TYPE_SUBNET :: string where
  "RESOURCE_TYPE_SUBNET \<equiv> ''AWS::EC2::Subnet''"

abbreviation (input) RESOURCE_TYPE_NAT_GATEWAY :: string where
  "RESOURCE_TYPE_NAT_GATEWAY \<equiv> ''AWS::EC2::NatGateway''"

abbreviation (input) RESOURCE_TYPE_SECURITY_GROUP :: string where
  "RESOURCE_TYPE_SECURITY_GROUP \<equiv> ''AWS::EC2::SecurityGroup''"

abbreviation (input) RESOURCE_TYPE_SECURITY_GROUP_EGRESS :: string where
  "RESOURCE_TYPE_SECURITY_GROUP_EGRESS \<equiv> ''AWS::EC2::SecurityGroupEgress''"

abbreviation (input) RESOURCE_TYPE_SECURITY_GROUP_INGRESS :: string where
  "RESOURCE_TYPE_SECURITY_GROUP_INGRESS \<equiv> ''AWS::EC2::SecurityGroupIngress''"

abbreviation (input) RESOURCE_TYPE_NETWORK_FIREWALL :: string where
  "RESOURCE_TYPE_NETWORK_FIREWALL \<equiv> ''AWS::NetworkFirewall::Firewall''"

abbreviation (input) RESOURCE_TYPE_NETWORK_FIREWALL_LOGGING :: string where
  "RESOURCE_TYPE_NETWORK_FIREWALL_LOGGING \<equiv> ''AWS::NetworkFirewall::LoggingConfiguration''"

abbreviation (input) RESOURCE_TYPE_VPC_ENDPOINT :: string where
  "RESOURCE_TYPE_VPC_ENDPOINT \<equiv> ''AWS::EC2::VPCEndpoint''"

definition getProperty :: "cfn_resource \<Rightarrow> string \<Rightarrow> prop_value option" where
  "getProperty cfnResource key = map_of (properties cfnResource) key"

text \<open>
  JavaScript truthiness of a property read, as the guards \<^verbatim>\<open>x && x === y\<close> of the
  source test it: \<^verbatim>\<open>undefined\<close>, the empty string, zero and \<^verbatim>\<open>false\<close> are falsy,
  every object is truthy.
\<close>

fun truthy :: "prop_value option \<Rightarrow> bool" where
  "truthy None = False"
| "truthy (Some (PStr s)) = (s \<noteq> [])"
| "truthy (Some (PNum n)) = (n \<noteq> 0)"
| "truthy (Some (PBool b)) = b"
| "truthy (Some (PRef r)) = True"
| "truthy (Some (PJoin sep parts)) = True"

text \<open>The read \<^verbatim>\<open>value.Ref\<close> of a truthy property value.\<close>

fun Ref :: "prop_value option \<Rightarrow> string option" where
  "Ref (Some (PRef r)) = Some r"
| "Ref _ = None"

section \<open>The Matcher\<close>

text \<open>The predicate both tag matchers hand to \<^verbatim>\<open>Tags.find\<close>.\<close>

definition hasNameTag :: "string \<Rightarrow> cfn_resource \<Rightarrow> bool" where
  "hasNameTag name cfnResource =
     (List.find (\<lambda>tag. fst tag = ''Name'' \<and> snd tag = name) (tags cfnResource) \<noteq> None)"

text \<open>
  \<^verbatim>\<open>getVpcResourceByTag\<close>: the loop over \<^verbatim>\<open>this.nestedStacksInfo\<close>, returning the first
  container that holds a network record with the tag, together with that record.
\<close>

fun getVpcResourceByTag ::
  "nested_stack_info list \<Rightarrow> string \<Rightarrow> (nested_stack_info \<times> cfn_resource) option" where
  "getVpcResourceByTag [] vpcName = None"
| "getVpcResourceByTag (nestedStackInfo # rest) vpcName =
     (let vpcResources =
            filter (\<lambda>cfnResource. resourceType cfnResource = RESOURCE_TYPE_VPC)
              (resources nestedStackInfo);
          vpcResource = List.find (hasNameTag vpcName) vpcResources
      in case vpcResource of
           Some resource \<Rightarrow> Some (nestedStackInfo, resource)
         | None \<Rightarrow> getVpcResourceByTag rest vpcName)"

text \<open>
  Modelled from the spec: \<^verbatim>\<open>findResourceByTag\<close>, \<^verbatim>\<open>filterResourcesByType\<close> and
  \<^verbatim>\<open>findResourceByName\<close> are methods of the base class \<^verbatim>\<open>AseaResource\<close>, whose file
  is absent. The spec's Matcher filters the records of a container to the given kind and
  selects the one whose Name tag equals the target's name, the first one if several carry
  it; sub-resources without a name tag are selected by a declared property value. It
  returns no match rather than throwing.
\<close>

definition filterResourcesByType :: "cfn_resource list \<Rightarrow> string \<Rightarrow> cfn_resource list" where
  "filterResourcesByType cfnResources kind =
     filter (\<lambda>cfnResource. resourceType cfnResource = kind) cfnResources"

definition findResourceByTag :: "cfn_resource list \<Rightarrow> string \<Rightarrow> cfn_resource option" where
  "findResourceByTag cfnResources name = List.find (hasNameTag name) cfnResources"

definition findResourceByName ::
  "cfn_resource list \<Rightarrow> string \<Rightarrow> string \<Rightarrow> cfn_resource option" where
  "findResourceByName cfnResources propertyName propertyValue =
     List.find (\<lambda>cfnResource. getProperty cfnResource propertyName = Some (PStr propertyValue))
       cfnResources"

text \<open>\<^verbatim>\<open>getSubnetResourceByTag\<close>, scoped to the container it is given.\<close>

definition getSubnetResourceByTag :: "string \<Rightarrow> nested_stack_info \<Rightarrow> cfn_resource option" where
  "getSubnetResourceByTag subnetName nestedStackInfo =
     (let subnetResources =
            filter (\<lambda>cfnResource. resourceType cfnResource = RESOURCE_TYPE_SUBNET)
              (resources nestedStackInfo);
          subnetResource = findResourceByTag subnetResources subnetName
      in case subnetResource of Some r \<Rightarrow> Some r | None \<Rightarrow> None)"

text \<open>
  Records for the matching scenarios: two subnets tagged Web in one container, and two
  networks tagged Prod in one container.
\<close>

definition subnet_web_1 :: cfn_resource where
  "subnet_web_1 =
     \<lparr>logicalResourceId = ''SubnetWebA'', physicalResourceId = ''subnet-0a'',
      resourceType = RESOURCE_TYPE_SUBNET, tags = [(''Name'', ''Web'')],
      properties = [(''CidrBlock'', PStr ''10.1.1.0/24'')]\<rparr>"

definition subnet_web_2 :: cfn_resource where
  "subnet_web_2 =
     \<lparr>logicalResourceId = ''SubnetWebB'', physicalResourceId = ''subnet-0b'',
      resourceType = RESOURCE_TYPE_SUBNET, tags = [(''Name'', ''Web'')],
      properties = [(''CidrBlock'', PStr ''10.1.2.0/24'')]\<rparr>"

definition vpc_prod :: cfn_resource where
  "vpc_prod =
     \<lparr>logicalResourceId = ''VpcProd'', physicalResourceId = ''vpc-01'',
      resourceType = RESOURCE_TYPE_VPC, tags = [(''Name'', ''Prod'')],
      properties = [(''CidrBlock'', PStr ''10.1.0.0/16'')]\<rparr>"

definition vpc_prod_second :: cfn_resource where
  "vpc_prod_second =
     \<lparr>logicalResourceId = ''VpcProdB'', physicalResourceId = ''vpc-02'',
      resourceType = RESOURCE_TYPE_VPC, tags = [(''Name'', ''Prod'')],
      properties = [(''CidrBlock'', PStr ''10.2.0.0/16'')]\<rparr>"

definition stack_two_vpcs :: nested_stack_info where
  "stack_two_vpcs =
     \<lparr>stackName = ''Phase1-VpcStackShared'', stackLogicalResourceId = ''VpcStackShared'',
      resources = [vpc_prod, vpc_prod_second]\<rparr>"

definition stack_prod :: nested_stack_info where
  "stack_prod =
     \<lparr>stackName = ''Phase1-VpcStackProd'', stackLogicalResourceId = ''VpcStackProd'',
      resources = [vpc_prod, subnet_web_1, subnet_web_2]\<rparr>"

definition stack_dev :: nested_stack_info where
  "stack_dev =
     \<lparr>stackName = ''Phase1-VpcStackDev'', stackLogicalResourceId = ''VpcStackDev'',
      resources = [subnet_web_2]\<rparr>"

section \<open>Security-group rules: createSecurityGroups\<close>

text \<open>
  \<^verbatim>\<open>SecurityGroupRuleInfo\<close>, the target rule that \<^verbatim>\<open>processSecurityGroupSources\<close> builds.
  The source's fields \<^verbatim>\<open>type\<close>, \<^verbatim>\<open>from\<close> and \<^verbatim>\<open>to\<close> are \<open>ruleType\<close>, \<open>fromPort\<close> and
  \<open>toPort\<close> here; an optional field that is \<^verbatim>\<open>undefined\<close> is \<open>None\<close>.
\<close>

record SecurityGroupRuleInfo =
  protocol :: string
  source :: string
  sourceValue :: string
  ruleType :: "string option"
  toPort :: "int option"
  fromPort :: "int option"
  sourceType :: "string option"
  description :: "string option"

text \<open>The members of \<^verbatim>\<open>cdk.aws_ec2.Protocol\<close> that the rule builders use.\<close>

abbreviation (input) Protocol_TCP :: string where "Protocol_TCP \<equiv> ''tcp''"

abbreviation (input) Protocol_UDP :: string where "Protocol_UDP \<equiv> ''udp''"

abbreviation (input) Protocol_ALL :: string where "Protocol_ALL \<equiv> ''-1''"

text \<open>
  Strict equality \<^verbatim>\<open>===\<close> of a property read with a target value of type
  \<^verbatim>\<open>number | undefined\<close> or \<^verbatim>\<open>string\<close>.
\<close>

definition eq_number :: "prop_value option \<Rightarrow> int option \<Rightarrow> bool" where
  "eq_number v n = (v = map_option PNum n)"

definition eq_string :: "prop_value option \<Rightarrow> string \<Rightarrow> bool" where
  "eq_string v s = (v = Some (PStr s))"

text \<open>
  The body of the loop over \<^verbatim>\<open>ingressRules\<close> (lines 486 to 537): the five flags and the
  test that sets \<^verbatim>\<open>existingIngressRuleEntry\<close>.
\<close>

definition ingressRuleMatches :: "cfn_resource \<Rightarrow> SecurityGroupRuleInfo \<Rightarrow> bool" where
  "ingressRuleMatches existingIngressRule configIngressRule =
     (let Properties = getProperty existingIngressRule;
          ipProtocol = (truthy (Properties ''IpProtocol'')
                         \<and> eq_string (Properties ''IpProtocol'') (protocol configIngressRule));
          fromPort' = (if ruleType configIngressRule = Some ''ALL''
                       then eq_number (Properties ''FromPort'') (fromPort configIngressRule)
                       else truthy (Properties ''FromPort'')
                         \<and> eq_number (Properties ''FromPort'') (fromPort configIngressRule));
          toPort' = (if ruleType configIngressRule = Some ''ALL''
                     then eq_number (Properties ''ToPort'') (toPort configIngressRule)
                     else truthy (Properties ''ToPort'')
                       \<and> eq_number (Properties ''ToPort'') (toPort configIngressRule));
          cidrIp' = (truthy (Properties ''CidrIp'')
                      \<and> eq_string (Properties ''CidrIp'') (sourceValue configIngressRule));
          sourceSecurityGroupId' = (truthy (Properties ''SourceSecurityGroupId'')
                      \<and> Ref (Properties ''SourceSecurityGroupId'') = Some (sourceValue configIngressRule))
      in ipProtocol \<and> fromPort' \<and> toPort' \<and> (cidrIp' \<or> sourceSecurityGroupId'))"

text \<open>The loop itself, which stops at the first legacy rule that matches.\<close>

fun existingIngressRuleEntry :: "cfn_resource list \<Rightarrow> SecurityGroupRuleInfo \<Rightarrow> bool" where
  "existingIngressRuleEntry [] configIngressRule = False"
| "existingIngressRuleEntry (existingIngressRule # rest) configIngressRule =
     (if ingressRuleMatches existingIngressRule configIngressRule then True
      else existingIngressRuleEntry rest configIngressRule)"

text \<open>\<^verbatim>\<open>CfnSecurityGroup.IngressProperty\<close>, the rule objects pushed for a new rule.\<close>

record IngressProperty =
  ipProtocol :: string
  ingressDescription :: "string option"
  ingressFromPort :: "int option"
  ingressToPort :: "int option"
  cidrIp :: "string option"
  cidrIpv6 :: "string option"
  sourceSecurityGroupId :: "string option"
  sourcePrefixListId :: "string option"

definition ingressProperty :: "SecurityGroupRuleInfo \<Rightarrow> IngressProperty" where
  "ingressProperty configIngressRule =
     \<lparr>ipProtocol = protocol configIngressRule,
      ingressDescription = description configIngressRule,
      ingressFromPort = None, ingressToPort = None, cidrIp = None, cidrIpv6 = None,
      sourceSecurityGroupId = None, sourcePrefixListId = None\<rparr>"

text \<open>
  \<^verbatim>\<open>checkCidrFromSource\<close>. The two validity tests call the ip-num library and are taken as
  parameters.
\<close>

definition checkCidrFromSource :: "(string \<Rightarrow> bool) \<Rightarrow> (string \<Rightarrow> bool) \<Rightarrow> string \<Rightarrow> string option" where
  "checkCidrFromSource isValidIpv4Cidr isValidIpv6Cidr src =
     (let sourceType1 = (if isValidIpv4Cidr src then Some ''cidrIpv4'' else None)
      in if isValidIpv6Cidr src then Some ''cidrIpv6'' else sourceType1)"

text \<open>
  The else branch of the classification (lines 549 to 620): the rule objects pushed on
  \<^verbatim>\<open>existingIngressRulesToBeUpdated\<close> for a target rule that no legacy rule matches.
\<close>

definition newIngressRules ::
  "(string \<Rightarrow> bool) \<Rightarrow> (string \<Rightarrow> bool) \<Rightarrow> (string \<rightharpoonup> string)
     \<Rightarrow> SecurityGroupRuleInfo \<Rightarrow> IngressProperty list" where
  "newIngressRules isValidIpv4Cidr isValidIpv6Cidr securityGroupPhysicalIdMap configIngressRule =
     (let base = ingressProperty configIngressRule;
          ports = base\<lparr>ingressFromPort := fromPort configIngressRule,
                       ingressToPort := toPort configIngressRule\<rparr>;
          sourceCidrType = checkCidrFromSource isValidIpv4Cidr isValidIpv6Cidr (source configIngressRule)
      in (if ruleType configIngressRule \<noteq> Some ''ALL'' then [ports] else [])
       @ (if sourceType configIngressRule = Some ''sg''
          then [base\<lparr>sourceSecurityGroupId := securityGroupPhysicalIdMap (source configIngressRule)\<rparr>]
          else [])
       @ (if sourceType configIngressRule = Some ''pl''
          then [base\<lparr>sourcePrefixListId := Some (source configIngressRule)\<rparr>] else [])
       @ (if sourceType configIngressRule = Some ''subnet''
          then [ports\<lparr>cidrIp := Some (sourceValue configIngressRule)\<rparr>] else [])
       @ (if sourceCidrType = Some ''cidrIpv4''
          then [ports\<lparr>cidrIp := Some (source configIngressRule)\<rparr>] else [])
       @ (if sourceCidrType = Some ''cidrIpv6''
          then [ports\<lparr>cidrIpv6 := Some (source configIngressRule)\<rparr>] else []))"

text \<open>Decimal rendering of a number in a template literal; \<^verbatim>\<open>undefined\<close> prints as such.\<close>

function string_of_nat :: "nat \<Rightarrow> string" where
  "string_of_nat n =
     (if n < 10 then [''0123456789'' ! n]
      else string_of_nat (n div 10) @ [''0123456789'' ! (n mod 10)])"
  by pat_completeness auto
termination
  by (relation "measure id") auto

definition string_of_number :: "int option \<Rightarrow> string" where
  "string_of_number n =
     (case n of
        None \<Rightarrow> ''undefined''
      | Some i \<Rightarrow> if i < 0 then CHR ''-'' # string_of_nat (nat (- i)) else string_of_nat (nat i))"

text \<open>The kinds of \<^verbatim>\<open>AseaResourceType\<close> that the embedded functions register.\<close>

datatype AseaResourceType =
    EC2_VPC
  | EC2_SUBNET
  | NAT_GATEWAY
  | EC2_SECURITY_GROUP
  | EC2_SECURITY_GROUP_INGRESS
  | EC2_SECURITY_GROUP_EGRESS
  | NFW
  | VPC_ENDPOINT

definition ruleIdentifier ::
  "string \<Rightarrow> string \<Rightarrow> string \<Rightarrow> SecurityGroupRuleInfo \<Rightarrow> string" where
  "ruleIdentifier vpcName securityGroupName direction configRule =
     vpcName @ ''/'' @ securityGroupName @ ''/'' @ direction @ ''/'' @ source configRule @ ''-''
       @ string_of_number (fromPort configRule) @ ''-'' @ string_of_number (toPort configRule)
       @ ''-'' @ protocol configRule"

text \<open>
  The classification \<^verbatim>\<open>securityGroupIngressRules.forEach\<close> alone (lines 483 to 621): the
  pair of the entries it registers with \<^verbatim>\<open>addAseaResource\<close> and of the final
  \<^verbatim>\<open>existingIngressRulesToBeUpdated\<close>. It stands inside the loop over the outbound rule
  items of the security group, \<open>outboundRules_loop\<close> below, which alone runs it.
\<close>

fun classifyIngressRules ::
  "(string \<Rightarrow> bool) \<Rightarrow> (string \<Rightarrow> bool) \<Rightarrow> (string \<rightharpoonup> string) \<Rightarrow> string \<Rightarrow> string
     \<Rightarrow> cfn_resource list \<Rightarrow> SecurityGroupRuleInfo list
     \<Rightarrow> (AseaResourceType \<times> string) list \<times> IngressProperty list" where
  "classifyIngressRules v4 v6 physicalIds vpcName sgName ingressRules [] = ([], [])"
| "classifyIngressRules v4 v6 physicalIds vpcName sgName ingressRules (configIngressRule # rest) =
     (let (registered, toBeUpdated) =
            classifyIngressRules v4 v6 physicalIds vpcName sgName ingressRules rest
      in if existingIngressRuleEntry ingressRules configIngressRule
         then ((EC2_SECURITY_GROUP_INGRESS,
                  ruleIdentifier vpcName sgName ''ingress'' configIngressRule) # registered,
               toBeUpdated)
         else (registered,
               newIngressRules v4 v6 physicalIds configIngressRule @ toBeUpdated))"

text \<open>
  The predicate handed to \<^verbatim>\<open>egressRules.find\<close> (lines 634 to 650): every conjunct is a
  guarded comparison disjoined with \<^verbatim>\<open>true\<close>.
\<close>

definition egressRuleMatches :: "cfn_resource \<Rightarrow> SecurityGroupRuleInfo \<Rightarrow> bool" where
  "egressRuleMatches existingEgressRule configEgressRule =
     (let Properties = getProperty existingEgressRule
      in ((truthy (Properties ''IpProtocol'')
             \<and> eq_string (Properties ''IpProtocol'') (protocol configEgressRule)) \<or> True)
       \<and> ((truthy (Properties ''FromPort'')
             \<and> eq_number (Properties ''FromPort'') (fromPort configEgressRule)) \<or> True)
       \<and> ((truthy (Properties ''ToPort'')
             \<and> eq_number (Properties ''ToPort'') (toPort configEgressRule)) \<or> True)
       \<and> ((truthy (Properties ''CidrIp'')
             \<and> eq_string (Properties ''CidrIp'') (sourceValue configEgressRule)) \<or> True)
       \<and> ((truthy (Properties ''SourceSecurityGroupId'')
             \<and> Ref (Properties ''SourceSecurityGroupId'') = Some (sourceValue configEgressRule))
            \<or> True))"

definition existingEgressRuleEntry ::
  "cfn_resource list \<Rightarrow> SecurityGroupRuleInfo \<Rightarrow> cfn_resource option" where
  "existingEgressRuleEntry egressRules configEgressRule =
     List.find (\<lambda>existingEgressRule. egressRuleMatches existingEgressRule configEgressRule)
       egressRules"

text \<open>
  The classification \<^verbatim>\<open>securityGroupEgressRules.forEach\<close> (lines 632 to 658): the entries it
  registers with \<^verbatim>\<open>addAseaResource\<close>, in order.
\<close>

fun classifyEgressRules ::
  "string \<Rightarrow> string \<Rightarrow> cfn_resource list \<Rightarrow> SecurityGroupRuleInfo list
     \<Rightarrow> (AseaResourceType \<times> string) list" where
  "classifyEgressRules vpcName sgName egressRules [] = []"
| "classifyEgressRules vpcName sgName egressRules (configEgressRule # rest) =
     (case existingEgressRuleEntry egressRules configEgressRule of
        Some entry \<Rightarrow>
          (EC2_SECURITY_GROUP_EGRESS, ruleIdentifier vpcName sgName ''egress'' configEgressRule)
            # classifyEgressRules vpcName sgName egressRules rest
      | None \<Rightarrow> classifyEgressRules vpcName sgName egressRules rest)"

text \<open>
  The reading of the rule-classification property in the spec's words: a legacy rule
  agrees with a target rule when protocol, from-port and to-port are equal and either the
  CIDR source or the referenced security group is the target's source value.
\<close>

definition spec_rule_agrees :: "cfn_resource \<Rightarrow> SecurityGroupRuleInfo \<Rightarrow> bool" where
  "spec_rule_agrees existingRule configRule =
     (getProperty existingRule ''IpProtocol'' = Some (PStr (protocol configRule))
      \<and> getProperty existingRule ''FromPort'' = map_option PNum (fromPort configRule)
      \<and> getProperty existingRule ''ToPort'' = map_option PNum (toPort configRule)
      \<and> (getProperty existingRule ''CidrIp'' = Some (PStr (sourceValue configRule))
          \<or> getProperty existingRule ''SourceSecurityGroupId'' = Some (PRef (sourceValue configRule))))"

text \<open>Two legacy records hold the same property bag, whatever the order of their keys.\<close>

definition same_properties :: "cfn_resource \<Rightarrow> cfn_resource \<Rightarrow> bool" where
  "same_properties r r' =
     (distinct (map fst (properties r)) \<and> distinct (map fst (properties r'))
      \<and> set (properties r) = set (properties r'))"

text \<open>Rules for the classification scenarios.\<close>

definition rule_https :: SecurityGroupRuleInfo where
  "rule_https =
     \<lparr>protocol = Protocol_TCP, source = ''10.0.0.0/16'', sourceValue = ''10.0.0.0/16'',
      ruleType = None, toPort = Some 443, fromPort = Some 443, sourceType = None,
      description = None\<rparr>"

definition rule_icmp :: SecurityGroupRuleInfo where
  "rule_icmp =
     \<lparr>protocol = Protocol_TCP, source = ''10.0.0.0/16'', sourceValue = ''10.0.0.0/16'',
      ruleType = Some ''ICMP'', toPort = None, fromPort = None, sourceType = None,
      description = None\<rparr>"

definition rule_port0 :: SecurityGroupRuleInfo where
  "rule_port0 =
     \<lparr>protocol = Protocol_TCP, source = ''10.0.0.0/16'', sourceValue = ''10.0.0.0/16'',
      ruleType = None, toPort = Some 0, fromPort = Some 0, sourceType = None,
      description = None\<rparr>"

definition legacy_rule :: "(string \<times> prop_value) list \<Rightarrow> cfn_resource" where
  "legacy_rule bag =
     \<lparr>logicalResourceId = ''MgmtSgIngress0'', physicalResourceId = ''sgr-01'',
      resourceType = ''AWS::EC2::SecurityGroupIngress'', tags = [], properties = bag\<rparr>"

definition legacy_https :: cfn_resource where
  "legacy_https =
     legacy_rule [(''GroupId'', PRef ''MgmtSg''), (''IpProtocol'', PStr ''tcp''),
       (''FromPort'', PNum 443), (''ToPort'', PNum 443), (''CidrIp'', PStr ''10.0.0.0/16'')]"

definition legacy_https_reordered :: cfn_resource where
  "legacy_https_reordered =
     legacy_rule [(''CidrIp'', PStr ''10.0.0.0/16''), (''ToPort'', PNum 443),
       (''FromPort'', PNum 443), (''IpProtocol'', PStr ''tcp''), (''GroupId'', PRef ''MgmtSg'')]"

definition legacy_ssh :: cfn_resource where
  "legacy_ssh =
     legacy_rule [(''GroupId'', PRef ''MgmtSg''), (''IpProtocol'', PStr ''tcp''),
       (''FromPort'', PNum 22), (''ToPort'', PNum 22), (''CidrIp'', PStr ''10.0.0.0/16'')]"

definition legacy_no_ports :: cfn_resource where
  "legacy_no_ports =
     legacy_rule [(''GroupId'', PRef ''MgmtSg''), (''IpProtocol'', PStr ''tcp''),
       (''CidrIp'', PStr ''10.0.0.0/16'')]"

definition legacy_port0 :: cfn_resource where
  "legacy_port0 =
     legacy_rule [(''GroupId'', PRef ''MgmtSg''), (''IpProtocol'', PStr ''tcp''),
       (''FromPort'', PNum 0), (''ToPort'', PNum 0), (''CidrIp'', PStr ''10.0.0.0/16'')]"

section \<open>The state of a run\<close>

text \<open>
  A live resource object of the included template (\<^verbatim>\<open>CfnVPC\<close>, \<^verbatim>\<open>CfnSubnet\<close>,
  \<^verbatim>\<open>CfnNatGateway\<close>, ...), as \<^verbatim>\<open>CfnInclude.getResource\<close> returns it: its reference
  \<^verbatim>\<open>ref\<close>, which stands for the physical identifier of the legacy object and has no
  setter, and its writable attributes by name. An attribute that is \<^verbatim>\<open>undefined\<close> is
  \<open>None\<close>.
\<close>

datatype attr_value =
    AStr string
  | ABool bool
  | ANum int
  | AStrList "string list"
  | ATags "(string \<times> string) list"
  | ALogDestinations "(string \<times> string \<times> string) list"
  | AIngress "IngressProperty list"

record cfn_object =
  ref :: string
  attrs :: "string \<rightharpoonup> attr_value"

datatype LogLevel = INFO | WARN | ERROR

text \<open>
  What the mergers mutate: the pending export entries \<^verbatim>\<open>this.ssmParameters\<close>, the
  diagnostics of \<^verbatim>\<open>scope.addLogs\<close>, the registry of \<^verbatim>\<open>scope.addAseaResource\<close>, the
  resource objects of the container's included template by logical id, and the ids of the
  log groups created in it.
\<close>

record merger_state =
  ssmParameters :: "ssm_parameter list"
  logs :: "(LogLevel \<times> string) list"
  aseaResources :: "(AseaResourceType \<times> string) list"
  template :: "string \<rightharpoonup> cfn_object"
  logGroups :: "string list"

text \<open>
  The collaborators that the mergers only call, taken as parameters: the path builder
  \<^verbatim>\<open>scope.getSsmPath\<close>, the lookup of a previously exported value
  \<^verbatim>\<open>scope.getExternalResourceParameter\<close> (\<open>None\<close> for \<^verbatim>\<open>undefined\<close>),
  \<^verbatim>\<open>pascalCase\<close>, and the name of \<^verbatim>\<open>scope.firewallBucket\<close>.
\<close>

datatype SsmResourceType =
    SSM_VPC
  | SSM_SUBNET
  | SSM_NAT_GW
  | SSM_SECURITY_GROUP
  | SSM_ROUTE_TABLE
  | SSM_NFW_POLICY
  | SSM_NFW
  | SSM_VPC_ENDPOINT

record scope_env =
  getSsmPath :: "SsmResourceType \<Rightarrow> string list \<Rightarrow> string"
  getExternalResourceParameter :: "string \<Rightarrow> string option"
  pascalCase :: "string \<Rightarrow> string"
  firewallBucketName :: string

definition addSsmParameter :: "ssm_parameter \<Rightarrow> merger_state \<Rightarrow> merger_state" where
  "addSsmParameter props st = st\<lparr>ssmParameters := ssmParameters st @ [props]\<rparr>"

definition addLogs :: "LogLevel \<Rightarrow> string \<Rightarrow> merger_state \<Rightarrow> merger_state" where
  "addLogs level message st = st\<lparr>logs := logs st @ [(level, message)]\<rparr>"

definition addAseaResource :: "AseaResourceType \<Rightarrow> string \<Rightarrow> merger_state \<Rightarrow> merger_state" where
  "addAseaResource kind identifier st = st\<lparr>aseaResources := aseaResources st @ [(kind, identifier)]\<rparr>"

text \<open>\<^verbatim>\<open>vpcStack.getResource(logicalId)\<close>, which raises for an unknown logical id.\<close>

definition getResource :: "merger_state \<Rightarrow> string \<Rightarrow> error + cfn_object" where
  "getResource st lid =
     (case template st lid of
        None \<Rightarrow> Inl (ResourceNotFound lid)
      | Some obj \<Rightarrow> Inr obj)"

text \<open>
  The assignment \<^verbatim>\<open>object.attribute = value\<close> on the object with the given logical id.
  The mergers assign only to an object that \<open>getResource\<close> has returned.
\<close>

definition assign :: "string \<Rightarrow> string \<Rightarrow> attr_value option \<Rightarrow> merger_state \<Rightarrow> merger_state" where
  "assign lid attribute v st =
     (case template st lid of
        None \<Rightarrow> st
      | Some obj \<Rightarrow>
          st\<lparr>template := (template st)(lid \<mapsto> obj\<lparr>attrs := (attrs obj)(attribute := v)\<rparr>)\<rparr>)"

text \<open>Truthiness of a value of type \<^verbatim>\<open>string | undefined\<close>.\<close>

definition truthy_string :: "string option \<Rightarrow> bool" where
  "truthy_string s = (case s of None \<Rightarrow> False | Some v \<Rightarrow> v \<noteq> [])"

section \<open>The target specification\<close>

text \<open>
  The fields of the configuration types that the embedded functions read. An optional
  field is an \<open>option\<close>. \<^verbatim>\<open>availabilityZone\<close> is a letter or a number;
  \<open>gatewayEndpointsConfig\<close> is the read \<^verbatim>\<open>vpcItem.gatewayEndpoints?.endpoints\<close>.

  A source of a security-group rule is a string, a subnet source (network and subnet
  names), a security-group source (group names) or a prefix-list source; the constructors
  stand for the type guards \<^verbatim>\<open>nonEmptyString.is\<close>, \<^verbatim>\<open>subnetSourceConfig.is\<close> and
  \<^verbatim>\<open>securityGroupSourceConfig.is\<close>. The fields \<^verbatim>\<open>description\<close>, \<^verbatim>\<open>types\<close> and
  \<^verbatim>\<open>sources\<close> of a rule item are \<open>ruleDescription\<close>, \<open>ruleTypes\<close> and
  \<open>ruleSources\<close> here.
\<close>

datatype SecurityGroupSourceConfig =
    StringSource string
  | SubnetSource string "string list"
  | SecurityGroupSource "string list"
  | PrefixListSource "string list"

record SecurityGroupRuleConfig =
  ruleDescription :: "string option"
  ruleTypes :: "string list option"
  tcpPorts :: "int list option"
  udpPorts :: "int list option"
  ruleSources :: "SecurityGroupSourceConfig list"

record SecurityGroupConfig =
  securityGroupName :: string
  inboundRules :: "SecurityGroupRuleConfig list"
  outboundRules :: "SecurityGroupRuleConfig list"

datatype AvailabilityZone = AzLetter string | AzNumber int

record SubnetConfig =
  subnetName :: string
  ipv4CidrBlock :: "string option"
  availabilityZone :: "AvailabilityZone option"
  mapPublicIpOnLaunch :: "bool option"

record NatGatewayConfig =
  natGatewayName :: string
  natGatewaySubnet :: string

record RouteTableEntryConfig =
  routeEntryName :: string
  routeTarget :: "string option"

record RouteTableConfig =
  routeTableName :: string
  routes :: "RouteTableEntryConfig list option"

record GatewayEndpointServiceConfig =
  service :: string

record VpcConfig =
  vpcName :: string
  region :: string
  cidrs :: "string list option"
  enableDnsHostnames :: "bool option"
  enableDnsSupport :: "bool option"
  instanceTenancy :: "string option"
  subnets :: "SubnetConfig list option"
  natGateways :: "NatGatewayConfig list option"
  routeTables :: "RouteTableConfig list option"
  gatewayEndpointsConfig :: "GatewayEndpointServiceConfig list option"
  securityGroups :: "SecurityGroupConfig list option"

section \<open>The network and subnet mergers\<close>

text \<open>
  Lines 115 and 119 to 122 of the constructor: the network object of the matched record is
  fetched from the template and its four attributes are overwritten from the target.
  \<^verbatim>\<open>cidrs![0]\<close> raises when \<^verbatim>\<open>cidrs\<close> is undefined and is undefined for an empty list.
\<close>

definition modifyVpcAttributes ::
  "VpcConfig \<Rightarrow> cfn_resource \<Rightarrow> merger_state \<Rightarrow> error + merger_state" where
  "modifyVpcAttributes vpcInScope resource st =
     (case getResource st (logicalResourceId resource) of
        Inl e \<Rightarrow> Inl e
      | Inr vpc \<Rightarrow>
          (case cidrs vpcInScope of
             None \<Rightarrow> Inl (TypeError ''Cannot read properties of undefined (reading 0)'')
           | Some cs \<Rightarrow>
               Inr (assign (logicalResourceId resource) ''instanceTenancy''
                      (map_option AStr (instanceTenancy vpcInScope))
                   (assign (logicalResourceId resource) ''enableDnsSupport''
                      (map_option ABool (enableDnsSupport vpcInScope))
                   (assign (logicalResourceId resource) ''enableDnsHostnames''
                      (map_option ABool (enableDnsHostnames vpcInScope))
                   (assign (logicalResourceId resource) ''cidrBlock''
                      (case cs of [] \<Rightarrow> None | c # _ \<Rightarrow> Some (AStr c)) st))))))"

text \<open>The template literal \<^verbatim>\<open>${vpcItem.region}${subnetItem.availabilityZone}\<close>.\<close>

definition availabilityZoneString :: "string \<Rightarrow> AvailabilityZone option \<Rightarrow> string" where
  "availabilityZoneString vpcRegion az =
     vpcRegion @ (case az of
                    None \<Rightarrow> ''undefined''
                  | Some (AzLetter l) \<Rightarrow> l
                  | Some (AzNumber n) \<Rightarrow> string_of_number (Some n))"

text \<open>
  \<^verbatim>\<open>createSubnets\<close>. The dictionary \<^verbatim>\<open>subnets\<close> it returns maps a subnet name to the
  subnet object; every later reader takes only the object's \<^verbatim>\<open>ref\<close>, which no
  assignment changes, so the model keeps that reference under the name.
\<close>

fun createSubnets_loop ::
  "scope_env \<Rightarrow> VpcConfig \<Rightarrow> nested_stack_info \<Rightarrow> SubnetConfig list
     \<Rightarrow> (string \<rightharpoonup> string) \<Rightarrow> merger_state
     \<Rightarrow> error + (string \<rightharpoonup> string) \<times> merger_state" where
  "createSubnets_loop env vpcItem vpcStackInfo [] subnetRefs st = Inr (subnetRefs, st)"
| "createSubnets_loop env vpcItem vpcStackInfo (subnetItem # rest) subnetRefs st =
     (case getSubnetResourceByTag (subnetName subnetItem) vpcStackInfo of
        None \<Rightarrow> createSubnets_loop env vpcItem vpcStackInfo rest subnetRefs st
      | Some subnetResource \<Rightarrow>
          (case getResource st (logicalResourceId subnetResource) of
             Inl e \<Rightarrow> Inl e
           | Inr subnet \<Rightarrow>
               (let lid = logicalResourceId subnetResource;
                    st1 = assign lid ''cidrBlock'' (map_option AStr (ipv4CidrBlock subnetItem)) st;
                    st2 = assign lid ''availabilityZone''
                            (Some (AStr (availabilityZoneString (region vpcItem)
                                           (availabilityZone subnetItem)))) st1;
                    st3 = assign lid ''mapPublicIpOnLaunch''
                            (map_option ABool (mapPublicIpOnLaunch subnetItem)) st2;
                    st4 = addSsmParameter
                            \<lparr>logicalId = pascalCase env (''SsmParam''
                                 @ pascalCase env (vpcName vpcItem)
                                 @ pascalCase env (subnetName subnetItem) @ ''SubnetId''),
                             parameterName = getSsmPath env SSM_SUBNET
                                 [vpcName vpcItem, subnetName subnetItem],
                             stringValue = ref subnet\<rparr> st3;
                    st5 = addAseaResource EC2_SUBNET
                            (vpcName vpcItem @ ''/'' @ subnetName subnetItem) st4
                in createSubnets_loop env vpcItem vpcStackInfo rest
                     (subnetRefs(subnetName subnetItem \<mapsto> ref subnet)) st5)))"

definition createSubnets ::
  "scope_env \<Rightarrow> VpcConfig \<Rightarrow> nested_stack_info \<Rightarrow> merger_state
     \<Rightarrow> error + (string \<rightharpoonup> string) \<times> merger_state" where
  "createSubnets env vpcItem vpcStackInfo st =
     createSubnets_loop env vpcItem vpcStackInfo
       (case subnets vpcItem of None \<Rightarrow> [] | Some items \<Rightarrow> items) Map.empty st"

section \<open>The NAT-gateway merger\<close>

text \<open>The attribute read \<^verbatim>\<open>natGateway.subnetId\<close>, a string when it is set.\<close>

definition attrString :: "cfn_object \<Rightarrow> string \<Rightarrow> string" where
  "attrString obj attribute =
     (case attrs obj attribute of Some (AStr s) \<Rightarrow> s | _ \<Rightarrow> ''undefined'')"

text \<open>
  \<^verbatim>\<open>createNatGateways\<close>. A declared gateway without a legacy record of its name is passed
  over by \<^verbatim>\<open>continue\<close>. For one that has a record, \<^verbatim>\<open>subnets[natGatewayItem.subnet].ref\<close>
  reads the subnet object of this run and raises when the dictionary has no entry under
  that name.
\<close>

fun createNatGateways_loop ::
  "scope_env \<Rightarrow> VpcConfig \<Rightarrow> cfn_resource list \<Rightarrow> (string \<rightharpoonup> string)
     \<Rightarrow> NatGatewayConfig list \<Rightarrow> merger_state \<Rightarrow> error + merger_state" where
  "createNatGateways_loop env vpcItem natGatewayResources subnetRefs [] st = Inr st"
| "createNatGateways_loop env vpcItem natGatewayResources subnetRefs (natGatewayItem # rest) st =
     (case findResourceByTag natGatewayResources (natGatewayName natGatewayItem) of
        None \<Rightarrow> createNatGateways_loop env vpcItem natGatewayResources subnetRefs rest st
      | Some natGatewayResource \<Rightarrow>
          (case getResource st (logicalResourceId natGatewayResource) of
             Inl e \<Rightarrow> Inl e
           | Inr natGateway \<Rightarrow>
               (case subnetRefs (natGatewaySubnet natGatewayItem) of
                  None \<Rightarrow> Inl (TypeError ''Cannot read properties of undefined (reading ref)'')
                | Some subnetRef \<Rightarrow>
                    (let subnetId =
                           (if truthy_string (Some subnetRef) then Some subnetRef
                            else getExternalResourceParameter env
                                   (getSsmPath env SSM_SUBNET
                                      [vpcName vpcItem, attrString natGateway ''subnetId'']));
                         st1 = (if truthy_string subnetId
                                then assign (logicalResourceId natGatewayResource) ''subnetId''
                                       (map_option AStr subnetId) st
                                else st);
                         st2 = addSsmParameter
                                 \<lparr>logicalId = pascalCase env (''SsmParam''
                                      @ pascalCase env (vpcName vpcItem)
                                      @ pascalCase env (natGatewayName natGatewayItem)
                                      @ ''NatGatewayId''),
                                  parameterName = getSsmPath env SSM_NAT_GW
                                      [vpcName vpcItem, natGatewayName natGatewayItem],
                                  stringValue = ref natGateway\<rparr> st1;
                         st3 = addAseaResource NAT_GATEWAY
                                 (vpcName vpcItem @ ''/'' @ natGatewayName natGatewayItem) st2
                     in createNatGateways_loop env vpcItem natGatewayResources subnetRefs
                          rest st3))))"

definition createNatGateways ::
  "scope_env \<Rightarrow> nested_stack_info \<Rightarrow> VpcConfig \<Rightarrow> (string \<rightharpoonup> string)
     \<Rightarrow> merger_state \<Rightarrow> error + merger_state" where
  "createNatGateways env vpcStackInfo vpcItem subnetRefs st =
     (let natGatewayResources =
            filterResourcesByType (resources vpcStackInfo) RESOURCE_TYPE_NAT_GATEWAY
      in if natGateways vpcItem = Some [] \<and> length natGatewayResources > 0
         then Inr (addLogs WARN ''NAT Gateways are removed from configuration.'' st)
         else createNatGateways_loop env vpcItem natGatewayResources subnetRefs
                (case natGateways vpcItem of None \<Rightarrow> [] | Some items \<Rightarrow> items) st)"

text \<open>A collaborator, a target network and a state for the scenarios.\<close>

definition example_env :: scope_env where
  "example_env =
     \<lparr>getSsmPath = (\<lambda>kind names. ''/accelerator/network/'' @ concat (map (\<lambda>n. ''/'' @ n) names)),
      getExternalResourceParameter = (\<lambda>path. None),
      pascalCase = (\<lambda>s. s),
      firewallBucketName = ''firewall-logs''\<rparr>"

definition example_vpc :: VpcConfig where
  "example_vpc =
     \<lparr>vpcName = ''Prod'', region = ''us-east-1'', cidrs = Some [''10.1.0.0/16''],
      enableDnsHostnames = Some True, enableDnsSupport = Some True,
      instanceTenancy = Some ''default'',
      subnets = Some [\<lparr>subnetName = ''Web'', ipv4CidrBlock = Some ''10.1.1.0/24'',
                       availabilityZone = Some (AzLetter ''a''),
                       mapPublicIpOnLaunch = Some False\<rparr>],
      natGateways = Some [\<lparr>natGatewayName = ''Nat-B'', natGatewaySubnet = ''Prod-B''\<rparr>],
      routeTables = None, gatewayEndpointsConfig = None, securityGroups = None\<rparr>"

definition nat_b :: cfn_resource where
  "nat_b =
     \<lparr>logicalResourceId = ''NatB'', physicalResourceId = ''nat-0b'',
      resourceType = RESOURCE_TYPE_NAT_GATEWAY, tags = [(''Name'', ''Nat-B'')],
      properties = []\<rparr>"

definition stack_prod_with_nat :: nested_stack_info where
  "stack_prod_with_nat = stack_prod\<lparr>resources := resources stack_prod @ [nat_b]\<rparr>"

definition example_object :: "string \<Rightarrow> cfn_object" where
  "example_object r =
     \<lparr>ref = r,
      attrs = [''tags'' \<mapsto> ATags [(''Name'', ''Legacy''), (''Owner'', ''asea'')],
               ''cidrBlock'' \<mapsto> AStr ''10.0.0.0/8'']\<rparr>"

definition example_state :: merger_state where
  "example_state =
     \<lparr>ssmParameters = [], logs = [], aseaResources = [],
      template = [''VpcProd'' \<mapsto> example_object ''vpc-01'',
                  ''SubnetWebA'' \<mapsto> example_object ''subnet-0a'',
                  ''SubnetWebB'' \<mapsto> example_object ''subnet-0b'',
                  ''NatB'' \<mapsto> example_object ''nat-0b''],
      logGroups = []\<rparr>"

text \<open>
  The frame of a merge: between two states every template object keeps its reference and
  every attribute outside \<open>A\<close>, objects outside the logical ids \<open>L\<close> are unchanged, and
  no object appears or disappears.
\<close>

definition frame :: "string set \<Rightarrow> string set \<Rightarrow> merger_state \<Rightarrow> merger_state \<Rightarrow> bool" where
  "frame L A st st' =
     (\<forall>lid. case template st lid of
              None \<Rightarrow> template st' lid = None
            | Some obj \<Rightarrow>
                (\<exists>obj'. template st' lid = Some obj' \<and> ref obj' = ref obj
                    \<and> (\<forall>a. a \<notin> A \<longrightarrow> attrs obj' a = attrs obj a)
                    \<and> (lid \<notin> L \<longrightarrow> obj' = obj)))"

text \<open>The attributes that the target specification owns on a subnet and on a network.\<close>

definition subnet_owned :: "string set" where
  "subnet_owned = {''cidrBlock'', ''availabilityZone'', ''mapPublicIpOnLaunch''}"

definition vpc_owned :: "string set" where
  "vpc_owned = {''cidrBlock'', ''enableDnsHostnames'', ''enableDnsSupport'', ''instanceTenancy''}"

section \<open>The security-group merger: createSecurityGroups\<close>

text \<open>The table \<^verbatim>\<open>TCP_PROTOCOLS_PORT\<close>; a key it does not hold reads as \<^verbatim>\<open>undefined\<close>.\<close>

definition TCP_PROTOCOLS_PORT :: "string \<rightharpoonup> int" where
  "TCP_PROTOCOLS_PORT =
     map_of [(''RDP'', 3389), (''SSH'', 22), (''HTTP'', 80), (''HTTPS'', 443), (''MSSQL'', 1433),
             (''MYSQL/AURORA'', 3306), (''REDSHIFT'', 5439), (''POSTGRESQL'', 5432),
             (''ORACLE-RDS'', 1521)]"

text \<open>
  The getters of the network-stacks utilities, which the merger only calls, taken as
  parameters: \<^verbatim>\<open>getVpcConfig\<close> over \<^verbatim>\<open>scope.vpcsInScope\<close>, and the read
  \<^verbatim>\<open>getSubnetConfig(vpc, subnet).ipv4CidrBlock!\<close>, which the assertion types as a string.
  Either may raise.
\<close>

record getter_utils =
  getVpcConfig :: "string \<Rightarrow> error + VpcConfig"
  getSubnetCidr :: "VpcConfig \<Rightarrow> string \<Rightarrow> error + string"

text \<open>The argument \<^verbatim>\<open>ruleProps\<close> of \<^verbatim>\<open>processSecurityGroupSources\<close>.\<close>

record rule_props =
  propsProtocol :: string
  propsType :: "string option"
  propsFrom :: "int option"
  propsTo :: "int option"

text \<open>
  The object literal \<^verbatim>\<open>{ ...ruleProps, source, sourceValue, sourceType, description }\<close>
  that the three branches of \<^verbatim>\<open>processSecurityGroupSources\<close> push.
\<close>

definition ruleInfo ::
  "SecurityGroupRuleConfig \<Rightarrow> rule_props \<Rightarrow> string \<Rightarrow> string \<Rightarrow> string option
     \<Rightarrow> SecurityGroupRuleInfo" where
  "ruleInfo securityGroupRuleItem ruleProps sourceName resolved kind =
     \<lparr>protocol = propsProtocol ruleProps, source = sourceName, sourceValue = resolved,
      ruleType = propsType ruleProps, toPort = propsTo ruleProps,
      fromPort = propsFrom ruleProps, sourceType = kind,
      description = ruleDescription securityGroupRuleItem\<rparr>"

text \<open>
  Two arrays of rules pushed one after the other; of two computations that raise, the
  first one's exception is the one thrown.
\<close>

definition pushAll ::
  "error + SecurityGroupRuleInfo list \<Rightarrow> error + SecurityGroupRuleInfo list
     \<Rightarrow> error + SecurityGroupRuleInfo list" where
  "pushAll first second =
     (case first of
        Inl e \<Rightarrow> Inl e
      | Inr rules \<Rightarrow> (case second of Inl e \<Rightarrow> Inl e | Inr later \<Rightarrow> Inr (rules @ later)))"

text \<open>
  \<^verbatim>\<open>processSecurityGroupSources\<close> (lines 342 to 386): the loop over the subnets of a subnet
  source, the loop over the groups of a security-group source, which passes over a group
  without a truthy entry in \<^verbatim>\<open>securityGroupsMap\<close>, the three branches for one source,
  and the loop over the sources.
\<close>

fun subnetSourceRules ::
  "getter_utils \<Rightarrow> SecurityGroupRuleConfig \<Rightarrow> rule_props \<Rightarrow> VpcConfig \<Rightarrow> string list
     \<Rightarrow> error + SecurityGroupRuleInfo list" where
  "subnetSourceRules utils securityGroupRuleItem ruleProps sourceVpcItem [] = Inr []"
| "subnetSourceRules utils securityGroupRuleItem ruleProps sourceVpcItem (subnet # rest) =
     pushAll
       (case getSubnetCidr utils sourceVpcItem subnet of
          Inl e \<Rightarrow> Inl e
        | Inr cidr \<Rightarrow>
            Inr [ruleInfo securityGroupRuleItem ruleProps (vpcName sourceVpcItem @ ''/'' @ subnet)
                   cidr (Some ''subnet'')])
       (subnetSourceRules utils securityGroupRuleItem ruleProps sourceVpcItem rest)"

fun securityGroupSourceRules ::
  "(string \<rightharpoonup> string) \<Rightarrow> SecurityGroupRuleConfig \<Rightarrow> rule_props \<Rightarrow> string list
     \<Rightarrow> SecurityGroupRuleInfo list" where
  "securityGroupSourceRules securityGroupsMap securityGroupRuleItem ruleProps [] = []"
| "securityGroupSourceRules securityGroupsMap securityGroupRuleItem ruleProps
       (securityGroup # rest) =
     (case securityGroupsMap securityGroup of
        None \<Rightarrow> []
      | Some lid \<Rightarrow>
          if lid = [] then []
          else [ruleInfo securityGroupRuleItem ruleProps securityGroup lid (Some ''sg'')])
     @ securityGroupSourceRules securityGroupsMap securityGroupRuleItem ruleProps rest"

fun sourceItemRules ::
  "getter_utils \<Rightarrow> (string \<rightharpoonup> string) \<Rightarrow> SecurityGroupRuleConfig \<Rightarrow> rule_props
     \<Rightarrow> SecurityGroupSourceConfig \<Rightarrow> error + SecurityGroupRuleInfo list" where
  "sourceItemRules utils securityGroupsMap securityGroupRuleItem ruleProps (StringSource s) =
     Inr (if s \<noteq> [] then [ruleInfo securityGroupRuleItem ruleProps s s None] else [])"
| "sourceItemRules utils securityGroupsMap securityGroupRuleItem ruleProps
       (SubnetSource vpc subnetNames) =
     (case getVpcConfig utils vpc of
        Inl e \<Rightarrow> Inl e
      | Inr sourceVpcItem \<Rightarrow>
          subnetSourceRules utils securityGroupRuleItem ruleProps sourceVpcItem subnetNames)"
| "sourceItemRules utils securityGroupsMap securityGroupRuleItem ruleProps
       (SecurityGroupSource groups) =
     Inr (securityGroupSourceRules securityGroupsMap securityGroupRuleItem ruleProps groups)"
| "sourceItemRules utils securityGroupsMap securityGroupRuleItem ruleProps
       (PrefixListSource prefixLists) = Inr []"

fun processSecurityGroupSources_loop ::
  "getter_utils \<Rightarrow> (string \<rightharpoonup> string) \<Rightarrow> SecurityGroupRuleConfig \<Rightarrow> rule_props
     \<Rightarrow> SecurityGroupSourceConfig list \<Rightarrow> error + SecurityGroupRuleInfo list" where
  "processSecurityGroupSources_loop utils securityGroupsMap securityGroupRuleItem ruleProps [] =
     Inr []"
| "processSecurityGroupSources_loop utils securityGroupsMap securityGroupRuleItem ruleProps
       (sourceItem # rest) =
     pushAll
       (sourceItemRules utils securityGroupsMap securityGroupRuleItem ruleProps sourceItem)
       (processSecurityGroupSources_loop utils securityGroupsMap securityGroupRuleItem ruleProps
          rest)"

definition processSecurityGroupSources ::
  "getter_utils \<Rightarrow> (string \<rightharpoonup> string) \<Rightarrow> SecurityGroupRuleConfig \<Rightarrow> rule_props
     \<Rightarrow> error + SecurityGroupRuleInfo list" where
  "processSecurityGroupSources utils securityGroupsMap securityGroupRuleItem ruleProps =
     processSecurityGroupSources_loop utils securityGroupsMap securityGroupRuleItem ruleProps
       (ruleSources securityGroupRuleItem)"

text \<open>
  \<^verbatim>\<open>processTcpSources\<close> and \<^verbatim>\<open>processUdpSources\<close> (lines 387 to 410), which differ in
  the protocol and in the port list they read, and \<^verbatim>\<open>processTypeSources\<close> (lines 411 to
  431).
\<close>

fun processPortSources ::
  "getter_utils \<Rightarrow> (string \<rightharpoonup> string) \<Rightarrow> SecurityGroupRuleConfig \<Rightarrow> string \<Rightarrow> int list
     \<Rightarrow> error + SecurityGroupRuleInfo list" where
  "processPortSources utils securityGroupsMap securityGroupRuleItem proto [] = Inr []"
| "processPortSources utils securityGroupsMap securityGroupRuleItem proto (port # rest) =
     pushAll
       (processSecurityGroupSources utils securityGroupsMap securityGroupRuleItem
          \<lparr>propsProtocol = proto, propsType = None, propsFrom = Some port, propsTo = Some port\<rparr>)
       (processPortSources utils securityGroupsMap securityGroupRuleItem proto rest)"

definition processTcpSources ::
  "getter_utils \<Rightarrow> (string \<rightharpoonup> string) \<Rightarrow> SecurityGroupRuleConfig
     \<Rightarrow> error + SecurityGroupRuleInfo list" where
  "processTcpSources utils securityGroupsMap securityGroupRuleItem =
     processPortSources utils securityGroupsMap securityGroupRuleItem Protocol_TCP
       (case tcpPorts securityGroupRuleItem of None \<Rightarrow> [] | Some ports \<Rightarrow> ports)"

definition processUdpSources ::
  "getter_utils \<Rightarrow> (string \<rightharpoonup> string) \<Rightarrow> SecurityGroupRuleConfig
     \<Rightarrow> error + SecurityGroupRuleInfo list" where
  "processUdpSources utils securityGroupsMap securityGroupRuleItem =
     processPortSources utils securityGroupsMap securityGroupRuleItem Protocol_UDP
       (case udpPorts securityGroupRuleItem of None \<Rightarrow> [] | Some ports \<Rightarrow> ports)"

fun processTypeSources_loop ::
  "getter_utils \<Rightarrow> (string \<rightharpoonup> string) \<Rightarrow> SecurityGroupRuleConfig \<Rightarrow> string list
     \<Rightarrow> error + SecurityGroupRuleInfo list" where
  "processTypeSources_loop utils securityGroupsMap securityGroupRuleItem [] = Inr []"
| "processTypeSources_loop utils securityGroupsMap securityGroupRuleItem (kind # rest) =
     pushAll
       (processSecurityGroupSources utils securityGroupsMap securityGroupRuleItem
          (if kind = ''ALL''
           then \<lparr>propsProtocol = Protocol_ALL, propsType = Some kind, propsFrom = None,
                 propsTo = None\<rparr>
           else \<lparr>propsProtocol = Protocol_TCP, propsType = Some kind,
                 propsFrom = TCP_PROTOCOLS_PORT kind, propsTo = TCP_PROTOCOLS_PORT kind\<rparr>))
       (processTypeSources_loop utils securityGroupsMap securityGroupRuleItem rest)"

definition processTypeSources ::
  "getter_utils \<Rightarrow> (string \<rightharpoonup> string) \<Rightarrow> SecurityGroupRuleConfig
     \<Rightarrow> error + SecurityGroupRuleInfo list" where
  "processTypeSources utils securityGroupsMap securityGroupRuleItem =
     processTypeSources_loop utils securityGroupsMap securityGroupRuleItem
       (case ruleTypes securityGroupRuleItem of None \<Rightarrow> [] | Some kinds \<Rightarrow> kinds)"

text \<open>
  The rules that one rule item contributes, the argument of the \<^verbatim>\<open>push\<close> of lines 470 and
  477, and the loop over the inbound rule items (lines 469 to 475).
\<close>

definition processRuleItem ::
  "getter_utils \<Rightarrow> (string \<rightharpoonup> string) \<Rightarrow> SecurityGroupRuleConfig
     \<Rightarrow> error + SecurityGroupRuleInfo list" where
  "processRuleItem utils securityGroupsMap ruleItem =
     pushAll (processTcpSources utils securityGroupsMap ruleItem)
       (pushAll (processUdpSources utils securityGroupsMap ruleItem)
          (processTypeSources utils securityGroupsMap ruleItem))"

fun inboundRules_loop ::
  "getter_utils \<Rightarrow> (string \<rightharpoonup> string) \<Rightarrow> SecurityGroupRuleConfig list
     \<Rightarrow> error + SecurityGroupRuleInfo list" where
  "inboundRules_loop utils securityGroupsMap [] = Inr []"
| "inboundRules_loop utils securityGroupsMap (ingressRuleItem # rest) =
     pushAll (processRuleItem utils securityGroupsMap ingressRuleItem)
       (inboundRules_loop utils securityGroupsMap rest)"

text \<open>
  Modelled from the spec: \<^verbatim>\<open>filterResourcesByRef\<close> is a method of the absent base class.
  It keeps the legacy records whose given property is a reference to the given logical
  id, here the rules of the same security group.
\<close>

definition filterResourcesByRef :: "cfn_resource list \<Rightarrow> string \<Rightarrow> string \<Rightarrow> cfn_resource list" where
  "filterResourcesByRef cfnResources propertyName lid =
     filter (\<lambda>cfnResource. getProperty cfnResource propertyName = Some (PRef lid)) cfnResources"

text \<open>The calls of \<^verbatim>\<open>scope.addAseaResource\<close> that a classification makes, in order.\<close>

fun registerAll :: "(AseaResourceType \<times> string) list \<Rightarrow> merger_state \<Rightarrow> merger_state" where
  "registerAll [] st = st"
| "registerAll ((kind, identifier) # rest) st = registerAll rest (addAseaResource kind identifier st)"

text \<open>
  The loop over the outbound rule items of a security group (lines 476 to 659), the only
  place where the ingress rules are classified. Each pass pushes the rules of its item on
  \<^verbatim>\<open>securityGroupEgressRules\<close>, classifies every configured ingress rule, assigns the new
  ones, when there are any, to \<^verbatim>\<open>securityGroupIngress\<close> of the group's object, and
  classifies the egress rules pushed so far. A security group without an outbound rule
  item has no pass.
\<close>

fun outboundRules_loop ::
  "getter_utils \<Rightarrow> (string \<Rightarrow> bool) \<Rightarrow> (string \<Rightarrow> bool) \<Rightarrow> (string \<rightharpoonup> string)
     \<Rightarrow> (string \<rightharpoonup> string) \<Rightarrow> VpcConfig \<Rightarrow> SecurityGroupConfig \<Rightarrow> string
     \<Rightarrow> cfn_resource list \<Rightarrow> cfn_resource list \<Rightarrow> SecurityGroupRuleInfo list
     \<Rightarrow> SecurityGroupRuleInfo list \<Rightarrow> SecurityGroupRuleConfig list \<Rightarrow> merger_state
     \<Rightarrow> error + merger_state" where
  "outboundRules_loop utils v4 v6 securityGroupsMap securityGroupPhysicalIdMap vpcItem
       securityGroupItem lid ingressRules egressRules securityGroupIngressRules
       securityGroupEgressRules [] st = Inr st"
| "outboundRules_loop utils v4 v6 securityGroupsMap securityGroupPhysicalIdMap vpcItem
       securityGroupItem lid ingressRules egressRules securityGroupIngressRules
       securityGroupEgressRules (egressRuleItem # rest) st =
     (case processRuleItem utils securityGroupsMap egressRuleItem of
        Inl e \<Rightarrow> Inl e
      | Inr rules \<Rightarrow>
          (let securityGroupEgressRules' = securityGroupEgressRules @ rules;
               (registered, existingIngressRulesToBeUpdated) =
                  classifyIngressRules v4 v6 securityGroupPhysicalIdMap (vpcName vpcItem)
                    (securityGroupName securityGroupItem) ingressRules securityGroupIngressRules;
               st1 = registerAll registered st
           in case (if length existingIngressRulesToBeUpdated > 0
                    then (case getResource st1 lid of
                            Inl e \<Rightarrow> Inl e
                          | Inr securityGroup \<Rightarrow>
                              Inr (assign lid ''securityGroupIngress''
                                     (Some (AIngress existingIngressRulesToBeUpdated)) st1))
                    else Inr st1) of
                Inl e \<Rightarrow> Inl e
              | Inr st2 \<Rightarrow>
                  outboundRules_loop utils v4 v6 securityGroupsMap securityGroupPhysicalIdMap
                    vpcItem securityGroupItem lid ingressRules egressRules
                    securityGroupIngressRules securityGroupEgressRules' rest
                    (registerAll
                       (classifyEgressRules (vpcName vpcItem)
                          (securityGroupName securityGroupItem) egressRules
                          securityGroupEgressRules') st2)))"

text \<open>
  The body of the second loop over the security groups (lines 454 to 660) for one group,
  and the loop. A group without a truthy entry in \<^verbatim>\<open>securityGroupsMap\<close>, that is without
  a legacy record of its name, is passed over.
\<close>

definition securityGroupRules ::
  "getter_utils \<Rightarrow> (string \<Rightarrow> bool) \<Rightarrow> (string \<Rightarrow> bool) \<Rightarrow> (string \<rightharpoonup> string)
     \<Rightarrow> (string \<rightharpoonup> string) \<Rightarrow> VpcConfig \<Rightarrow> nested_stack_info \<Rightarrow> SecurityGroupConfig
     \<Rightarrow> merger_state \<Rightarrow> error + merger_state" where
  "securityGroupRules utils v4 v6 securityGroupsMap securityGroupPhysicalIdMap vpcItem
       vpcStackInfo securityGroupItem st =
     (case securityGroupsMap (securityGroupName securityGroupItem) of
        None \<Rightarrow> Inr st
      | Some lid \<Rightarrow>
          if lid = [] then Inr st
          else
            (let egressRules = filterResourcesByRef
                   (filterResourcesByType (resources vpcStackInfo)
                      RESOURCE_TYPE_SECURITY_GROUP_EGRESS) ''GroupId'' lid;
                 ingressRules = filterResourcesByRef
                   (filterResourcesByType (resources vpcStackInfo)
                      RESOURCE_TYPE_SECURITY_GROUP_INGRESS) ''GroupId'' lid
             in case inboundRules_loop utils securityGroupsMap (inboundRules securityGroupItem) of
                  Inl e \<Rightarrow> Inl e
                | Inr securityGroupIngressRules \<Rightarrow>
                    outboundRules_loop utils v4 v6 securityGroupsMap securityGroupPhysicalIdMap
                      vpcItem securityGroupItem lid ingressRules egressRules
                      securityGroupIngressRules [] (outboundRules securityGroupItem) st))"

fun securityGroupRules_loop ::
  "getter_utils \<Rightarrow> (string \<Rightarrow> bool) \<Rightarrow> (string \<Rightarrow> bool) \<Rightarrow> (string \<rightharpoonup> string)
     \<Rightarrow> (string \<rightharpoonup> string) \<Rightarrow> VpcConfig \<Rightarrow> nested_stack_info \<Rightarrow> SecurityGroupConfig list
     \<Rightarrow> merger_state \<Rightarrow> error + merger_state" where
  "securityGroupRules_loop utils v4 v6 securityGroupsMap securityGroupPhysicalIdMap vpcItem
       vpcStackInfo [] st = Inr st"
| "securityGroupRules_loop utils v4 v6 securityGroupsMap securityGroupPhysicalIdMap vpcItem
       vpcStackInfo (securityGroupItem # rest) st =
     (case securityGroupRules utils v4 v6 securityGroupsMap securityGroupPhysicalIdMap vpcItem
             vpcStackInfo securityGroupItem st of
        Inl e \<Rightarrow> Inl e
      | Inr st1 \<Rightarrow>
          securityGroupRules_loop utils v4 v6 securityGroupsMap securityGroupPhysicalIdMap
            vpcItem vpcStackInfo rest st1)"

text \<open>
  The first loop over the security groups (lines 432 to 452): a group with a legacy
  record of its name is exported and registered, and its logical and physical identifier
  are entered in the two maps.
\<close>

fun securityGroups_loop ::
  "scope_env \<Rightarrow> VpcConfig \<Rightarrow> nested_stack_info \<Rightarrow> SecurityGroupConfig list
     \<Rightarrow> (string \<rightharpoonup> string) \<times> (string \<rightharpoonup> string) \<Rightarrow> merger_state
     \<Rightarrow> error + ((string \<rightharpoonup> string) \<times> (string \<rightharpoonup> string)) \<times> merger_state" where
  "securityGroups_loop env vpcItem vpcStackInfo [] maps st = Inr (maps, st)"
| "securityGroups_loop env vpcItem vpcStackInfo (securityGroupItem # rest)
       (securityGroupsMap, securityGroupPhysicalIdMap) st =
     (case findResourceByName (resources vpcStackInfo) ''GroupName''
             (securityGroupName securityGroupItem) of
        None \<Rightarrow>
          securityGroups_loop env vpcItem vpcStackInfo rest
            (securityGroupsMap, securityGroupPhysicalIdMap) st
      | Some existingSecurityGroup \<Rightarrow>
          (case getResource st (logicalResourceId existingSecurityGroup) of
             Inl e \<Rightarrow> Inl e
           | Inr securityGroup \<Rightarrow>
               securityGroups_loop env vpcItem vpcStackInfo rest
                 (securityGroupsMap(securityGroupName securityGroupItem
                     \<mapsto> logicalResourceId existingSecurityGroup),
                  securityGroupPhysicalIdMap(securityGroupName securityGroupItem
                     \<mapsto> physicalResourceId existingSecurityGroup))
                 (addAseaResource EC2_SECURITY_GROUP
                    (vpcName vpcItem @ ''/'' @ securityGroupName securityGroupItem)
                    (addSsmParameter
                       \<lparr>logicalId = pascalCase env (''SsmParam''
                            @ pascalCase env (vpcName vpcItem)
                            @ pascalCase env (securityGroupName securityGroupItem)
                            @ ''SecurityGroup''),
                        parameterName = getSsmPath env SSM_SECURITY_GROUP
                            [vpcName vpcItem, securityGroupName securityGroupItem],
                        stringValue = ref securityGroup\<rparr> st))))"

text \<open>\<^verbatim>\<open>createSecurityGroups\<close>: the first loop, then the second with the maps it built.\<close>

definition createSecurityGroups ::
  "scope_env \<Rightarrow> getter_utils \<Rightarrow> (string \<Rightarrow> bool) \<Rightarrow> (string \<Rightarrow> bool) \<Rightarrow> VpcConfig
     \<Rightarrow> nested_stack_info \<Rightarrow> merger_state \<Rightarrow> error + merger_state" where
  "createSecurityGroups env utils v4 v6 vpcItem vpcStackInfo st =
     (let groups = (case securityGroups vpcItem of None \<Rightarrow> [] | Some items \<Rightarrow> items)
      in case securityGroups_loop env vpcItem vpcStackInfo groups (Map.empty, Map.empty) st of
           Inl e \<Rightarrow> Inl e
         | Inr ((securityGroupsMap, securityGroupPhysicalIdMap), st1) \<Rightarrow>
             securityGroupRules_loop utils v4 v6 securityGroupsMap securityGroupPhysicalIdMap
               vpcItem vpcStackInfo groups st1)"

text \<open>
  A target network with one security group, Mgmt, its legacy record, and the getters of a
  run with no other network, for the scenarios. The inbound rule item of the group opens
  the given TCP ports and rule types to 10.0.0.0/16.
\<close>

definition example_utils :: getter_utils where
  "example_utils =
     \<lparr>getVpcConfig = (\<lambda>name. Inl (Error ''Configuration validation failed at runtime.'')),
      getSubnetCidr = (\<lambda>vpc subnet. Inl (Error ''Configuration validation failed at runtime.''))\<rparr>"

definition rule_item :: "int list \<Rightarrow> string list \<Rightarrow> string \<Rightarrow> SecurityGroupRuleConfig" where
  "rule_item ports kinds cidr =
     \<lparr>ruleDescription = None, ruleTypes = Some kinds, tcpPorts = Some ports, udpPorts = None,
      ruleSources = [StringSource cidr]\<rparr>"

definition sg_mgmt :: "int list \<Rightarrow> string list \<Rightarrow> SecurityGroupRuleConfig list \<Rightarrow> SecurityGroupConfig" where
  "sg_mgmt ports kinds outbound =
     \<lparr>securityGroupName = ''Mgmt'', inboundRules = [rule_item ports kinds ''10.0.0.0/16''],
      outboundRules = outbound\<rparr>"

definition sg_mgmt_legacy :: cfn_resource where
  "sg_mgmt_legacy =
     \<lparr>logicalResourceId = ''MgmtSg'', physicalResourceId = ''sg-01'',
      resourceType = RESOURCE_TYPE_SECURITY_GROUP, tags = [],
      properties = [(''GroupName'', PStr ''Mgmt'')]\<rparr>"

definition stack_groups :: "cfn_resource list \<Rightarrow> nested_stack_info" where
  "stack_groups legacyRules =
     \<lparr>stackName = ''Phase1-VpcStackProd'', stackLogicalResourceId = ''VpcStackProd'',
      resources = [vpc_prod, sg_mgmt_legacy] @ legacyRules\<rparr>"

definition groups_vpc :: "SecurityGroupConfig \<Rightarrow> VpcConfig" where
  "groups_vpc securityGroupItem = example_vpc\<lparr>securityGroups := Some [securityGroupItem]\<rparr>"

definition groups_state :: merger_state where
  "groups_state =
     \<lparr>ssmParameters = [], logs = [], aseaResources = [],
      template = [''MgmtSg'' \<mapsto> \<lparr>ref = ''sg-01'', attrs = Map.empty\<rparr>],
      logGroups = []\<rparr>"

section \<open>The endpoint merger: gatewayEndpoints\<close>

text \<open>
  The guarded push of \<^verbatim>\<open>getS3DynamoDbRouteTableIds\<close>:
  \<^verbatim>\<open>if (!tables.find(item => item === routeTableId)) tables.push(routeTableId)\<close>. The
  guard negates the element that \<open>find\<close> returns, so an empty string found counts as not
  found.
\<close>

definition pushIfNotFound :: "string \<Rightarrow> string list \<Rightarrow> string list" where
  "pushIfNotFound routeTableId tables =
     (if truthy_string (List.find (\<lambda>item. item = routeTableId) tables) then tables
      else tables @ [routeTableId])"

fun getS3DynamoDbRouteTableIds_loop ::
  "RouteTableEntryConfig list \<Rightarrow> string \<Rightarrow> string list \<times> string list
     \<Rightarrow> string list \<times> string list" where
  "getS3DynamoDbRouteTableIds_loop [] routeTableId tables = tables"
| "getS3DynamoDbRouteTableIds_loop (routeTableEntryItem # rest) routeTableId
       (s3EndpointRouteTables, dynamodbEndpointRouteTables) =
     (let s3' = (if routeTarget routeTableEntryItem = Some ''s3''
                 then pushIfNotFound routeTableId s3EndpointRouteTables
                 else s3EndpointRouteTables);
          dynamodb' = (if routeTarget routeTableEntryItem = Some ''dynamodb''
                       then pushIfNotFound routeTableId dynamodbEndpointRouteTables
                       else dynamodbEndpointRouteTables)
      in getS3DynamoDbRouteTableIds_loop rest routeTableId (s3', dynamodb'))"

definition getS3DynamoDbRouteTableIds ::
  "RouteTableConfig \<Rightarrow> string \<Rightarrow> string list \<times> string list \<Rightarrow> string list \<times> string list" where
  "getS3DynamoDbRouteTableIds routeTableItem routeTableId tables =
     getS3DynamoDbRouteTableIds_loop
       (case routes routeTableItem of None \<Rightarrow> [] | Some entries \<Rightarrow> entries)
       routeTableId tables"

text \<open>
  The accumulation loop of \<^verbatim>\<open>gatewayEndpoints\<close> (lines 1176 to 1184) over the target
  route tables: a route table whose identifier does not resolve to a non-empty string is
  skipped.
\<close>

fun collectRouteTableIds ::
  "scope_env \<Rightarrow> VpcConfig \<Rightarrow> RouteTableConfig list \<Rightarrow> string list \<times> string list
     \<Rightarrow> string list \<times> string list" where
  "collectRouteTableIds env vpcItem [] tables = tables"
| "collectRouteTableIds env vpcItem (routeTableItem # rest) tables =
     (let routeTableId = getExternalResourceParameter env
            (getSsmPath env SSM_ROUTE_TABLE [vpcName vpcItem, routeTableName routeTableItem])
      in case routeTableId of
           None \<Rightarrow> collectRouteTableIds env vpcItem rest tables
         | Some rid \<Rightarrow>
             if \<not> truthy_string (Some rid) then collectRouteTableIds env vpcItem rest tables
             else collectRouteTableIds env vpcItem rest
                    (getS3DynamoDbRouteTableIds routeTableItem rid tables))"

text \<open>
  The merge into a list that the endpoint already has (lines 1207 to 1211): each
  accumulated identifier is pushed unless the list includes it.
\<close>

fun pushMissing :: "string list \<Rightarrow> string list \<Rightarrow> string list" where
  "pushMissing [] routeTableIds = routeTableIds"
| "pushMissing (routeTableId # rest) routeTableIds =
     pushMissing rest
       (if routeTableId \<in> set routeTableIds then routeTableIds
        else routeTableIds @ [routeTableId])"

text \<open>
  The test of the endpoint search,
  \<^verbatim>\<open>Properties.ServiceName['Fn::Join'][1].at(-1) === `.${endpointItem.service}`\<close>. It
  raises unless the service name is a join object.
\<close>

definition serviceNameEndsWith :: "cfn_resource \<Rightarrow> string \<Rightarrow> error + bool" where
  "serviceNameEndsWith cfnResource svc =
     (case getProperty cfnResource ''ServiceName'' of
        Some (PJoin sep parts) \<Rightarrow>
          Inr (parts \<noteq> [] \<and> last parts = PStr (''.'' @ svc))
      | _ \<Rightarrow> Inl (TypeError ''Cannot read properties of undefined (reading 1)''))"

fun findGatewayEndpoint :: "cfn_resource list \<Rightarrow> string \<Rightarrow> error + cfn_resource option" where
  "findGatewayEndpoint [] svc = Inr None"
| "findGatewayEndpoint (cfnResource # rest) svc =
     (case serviceNameEndsWith cfnResource svc of
        Inl e \<Rightarrow> Inl e
      | Inr matches \<Rightarrow> if matches then Inr (Some cfnResource) else findGatewayEndpoint rest svc)"

text \<open>
  The loop over the endpoint items (lines 1194 to 1220). \<open>routeTableIds\<close> is the list
  the endpoint object holds on entry. Without one the accumulated list is assigned, and
  the unconditional assignment of line 1213 then writes \<open>routeTableIds\<close>, still
  undefined, over it; with one, the pushes extend it in place and line 1213 assigns it
  back.
\<close>

fun gatewayEndpoints_loop ::
  "scope_env \<Rightarrow> VpcConfig \<Rightarrow> cfn_resource list \<Rightarrow> string list \<times> string list
     \<Rightarrow> GatewayEndpointServiceConfig list \<Rightarrow> merger_state \<Rightarrow> error + merger_state" where
  "gatewayEndpoints_loop env vpcItem gatewayEndpointResources tables [] st = Inr st"
| "gatewayEndpoints_loop env vpcItem gatewayEndpointResources tables (endpointItem # rest) st =
     (case findGatewayEndpoint gatewayEndpointResources (service endpointItem) of
        Inl e \<Rightarrow> Inl e
      | Inr None \<Rightarrow> gatewayEndpoints_loop env vpcItem gatewayEndpointResources tables rest st
      | Inr (Some gatewayEndpointResource) \<Rightarrow>
          (case getResource st (logicalResourceId gatewayEndpointResource) of
             Inl e \<Rightarrow> Inl e
           | Inr endpoint \<Rightarrow>
               (let lid = logicalResourceId gatewayEndpointResource;
                    accumulated = (if service endpointItem = ''s3'' then fst tables else snd tables);
                    export = \<lparr>logicalId = pascalCase env (''SsmParam''
                                  @ pascalCase env (vpcName vpcItem)
                                  @ pascalCase env (service endpointItem) @ ''EndpointId''),
                              parameterName = getSsmPath env SSM_VPC_ENDPOINT
                                  [vpcName vpcItem, service endpointItem],
                              stringValue = ref endpoint\<rparr>;
                    register = (\<lambda>s. addAseaResource VPC_ENDPOINT
                                  (vpcName vpcItem @ ''/'' @ service endpointItem)
                                  (addSsmParameter export s))
                in case attrs endpoint ''routeTableIds'' of
                     None \<Rightarrow>
                       gatewayEndpoints_loop env vpcItem gatewayEndpointResources tables rest
                         (register (assign lid ''routeTableIds'' None
                            (assign lid ''routeTableIds'' (Some (AStrList accumulated)) st)))
                   | Some (AStrList routeTableIds) \<Rightarrow>
                       gatewayEndpoints_loop env vpcItem gatewayEndpointResources tables rest
                         (register (assign lid ''routeTableIds''
                            (Some (AStrList (pushMissing accumulated routeTableIds))) st))
                   | Some _ \<Rightarrow> Inl (TypeError ''routeTableIds.push is not a function''))))"

definition gatewayEndpoints ::
  "scope_env \<Rightarrow> VpcConfig \<Rightarrow> nested_stack_info \<Rightarrow> merger_state \<Rightarrow> error + merger_state" where
  "gatewayEndpoints env vpcItem vpcStackInfo st =
     (let tables = collectRouteTableIds env vpcItem
            (case routeTables vpcItem of None \<Rightarrow> [] | Some items \<Rightarrow> items) ([], []);
          gatewayEndpointResources =
            filterResourcesByType (resources vpcStackInfo) RESOURCE_TYPE_VPC_ENDPOINT
      in if length gatewayEndpointResources = 0 then Inr st
         else case gatewayEndpointsConfig vpcItem of
                None \<Rightarrow> Inr (addLogs WARN ''Endpoints are removed from configuration'' st)
              | Some endpoints \<Rightarrow>
                  gatewayEndpoints_loop env vpcItem gatewayEndpointResources tables endpoints st)"

text \<open>
  The reading of the endpoint property in the spec's words: the accumulation of the
  resolved identifiers of the target route tables that route to the service.
\<close>

definition routesTo :: "string \<Rightarrow> RouteTableConfig \<Rightarrow> bool" where
  "routesTo svc routeTableItem =
     (\<exists>entry \<in> set (case routes routeTableItem of None \<Rightarrow> [] | Some entries \<Rightarrow> entries).
         routeTarget entry = Some svc)"

definition resolvedRouteTableId :: "scope_env \<Rightarrow> VpcConfig \<Rightarrow> RouteTableConfig \<Rightarrow> string option" where
  "resolvedRouteTableId env vpcItem routeTableItem =
     (case getExternalResourceParameter env
             (getSsmPath env SSM_ROUTE_TABLE [vpcName vpcItem, routeTableName routeTableItem]) of
        None \<Rightarrow> None
      | Some rid \<Rightarrow> if rid = [] then None else Some rid)"

text \<open>A network with two route tables to s3 and a legacy s3 endpoint, for the scenarios.\<close>

definition endpoint_env :: scope_env where
  "endpoint_env =
     example_env\<lparr>getExternalResourceParameter :=
       (\<lambda>path. if path = ''/accelerator/network//Prod/Rt-A'' then Some ''rtb-1''
               else if path = ''/accelerator/network//Prod/Rt-B'' then Some ''rtb-2''
               else None)\<rparr>"

definition endpoint_vpc :: VpcConfig where
  "endpoint_vpc =
     example_vpc\<lparr>routeTables := Some
        [\<lparr>routeTableName = ''Rt-A'',
          routes = Some [\<lparr>routeEntryName = ''S3'', routeTarget = Some ''s3''\<rparr>]\<rparr>,
         \<lparr>routeTableName = ''Rt-B'',
          routes = Some [\<lparr>routeEntryName = ''S3'', routeTarget = Some ''s3''\<rparr>,
                         \<lparr>routeEntryName = ''S3again'', routeTarget = Some ''s3''\<rparr>]\<rparr>],
       gatewayEndpointsConfig := Some [\<lparr>service = ''s3''\<rparr>]\<rparr>"

definition endpoint_s3 :: cfn_resource where
  "endpoint_s3 =
     \<lparr>logicalResourceId = ''S3Endpoint'', physicalResourceId = ''vpce-01'',
      resourceType = RESOURCE_TYPE_VPC_ENDPOINT, tags = [],
      properties = [(''ServiceName'',
         PJoin [] [PStr ''com.amazonaws.'', PRef ''AWS::Region'', PStr ''.s3''])]\<rparr>"

definition stack_endpoint :: nested_stack_info where
  "stack_endpoint =
     \<lparr>stackName = ''Phase1-VpcStackProd'', stackLogicalResourceId = ''VpcStackProd'',
      resources = [vpc_prod, endpoint_s3]\<rparr>"

definition endpoint_state :: "attr_value option \<Rightarrow> merger_state" where
  "endpoint_state routeTableIds =
     \<lparr>ssmParameters = [], logs = [], aseaResources = [],
      template = [''S3Endpoint'' \<mapsto> \<lparr>ref = ''vpce-01'', attrs = (\<lambda>a. if a = ''routeTableIds'' then routeTableIds else None)\<rparr>],
      logGroups = []\<rparr>"

section \<open>The network-firewall merger: createNetworkFirewall\<close>

record NfwLoggingConfig =
  logDestination :: string
  logType :: string

record NfwFirewallConfig =
  firewallName :: string
  firewallDescription :: "string option"
  firewallPolicy :: string
  firewallSubnets :: "string list"
  firewallVpc :: string
  deleteProtection :: "bool option"
  firewallPolicyChangeProtection :: "bool option"
  subnetChangeProtection :: "bool option"
  loggingConfiguration :: "NfwLoggingConfig list option"

text \<open>
  The optional parameter \<^verbatim>\<open>policy\<close>: name and reference of the policy that
  \<^verbatim>\<open>createNetworkFirewallPolicy\<close> merged in the current run.
\<close>

record firewall_policy =
  policyName :: string
  policyArn :: string

text \<open>
  The loop over \<^verbatim>\<open>firewallItem.subnets\<close> (lines 1064 to 1072). As in the NAT-gateway
  merger, the read \<^verbatim>\<open>subnets[subnet].ref\<close> raises for a name without a subnet object of
  this run.
\<close>

fun firewallSubnetIds ::
  "scope_env \<Rightarrow> VpcConfig \<Rightarrow> (string \<rightharpoonup> string) \<Rightarrow> string list \<Rightarrow> error + string list" where
  "firewallSubnetIds env vpcItem subnetRefs [] = Inr []"
| "firewallSubnetIds env vpcItem subnetRefs (subnet # rest) =
     (case subnetRefs subnet of
        None \<Rightarrow> Inl (TypeError ''Cannot read properties of undefined (reading ref)'')
      | Some subnetRef \<Rightarrow>
          (let subnetId = (if truthy_string (Some subnetRef) then Some subnetRef
                           else getExternalResourceParameter env
                                  (getSsmPath env SSM_SUBNET [vpcName vpcItem, subnet]))
           in case firewallSubnetIds env vpcItem subnetRefs rest of
                Inl e \<Rightarrow> Inl e
              | Inr subnetIds \<Rightarrow>
                  Inr ((case subnetId of
                          None \<Rightarrow> []
                        | Some s \<Rightarrow> if s \<noteq> [] then [s] else []) @ subnetIds)))"

text \<open>
  Lines 1073 to 1078: the policy reference is taken from the policy of the current run
  when the names agree, and otherwise, or when that reference is empty, looked up among
  the previously exported parameters.
\<close>

definition resolvePolicyArn ::
  "scope_env \<Rightarrow> firewall_policy option \<Rightarrow> NfwFirewallConfig \<Rightarrow> string option" where
  "resolvePolicyArn env policy firewallItem =
     (let policyArn1 = (case policy of
                          None \<Rightarrow> None
                        | Some p \<Rightarrow> if firewallPolicy firewallItem = policyName p
                                    then Some (policyArn p) else None)
      in if truthy_string policyArn1 then policyArn1
         else getExternalResourceParameter env
                (getSsmPath env SSM_NFW_POLICY [firewallPolicy firewallItem]))"

definition policyNotFound :: "string \<Rightarrow> error" where
  "policyNotFound policy =
     Error (''Firewall is managed externally and no SSM Parameter found for policy ''
            @ [CHR 0x22] @ policy @ [CHR 0x22])"

text \<open>
  Modelled from the spec: \<^verbatim>\<open>NetworkFirewall.includedCfnResource\<close> belongs to the
  constructs package, whose file is absent. As a merger of the spec it fetches the matched
  firewall object from the template and overwrites the attributes the target owns with the
  properties it is given, the resolved policy reference first.
\<close>

definition includedCfnResource ::
  "string \<Rightarrow> string \<Rightarrow> NfwFirewallConfig \<Rightarrow> string list \<Rightarrow> string \<Rightarrow> merger_state
     \<Rightarrow> error + merger_state" where
  "includedCfnResource lid firewallPolicyArn firewallItem subnetIds vpcId st =
     (case getResource st lid of
        Inl e \<Rightarrow> Inl e
      | Inr firewall \<Rightarrow>
          Inr (assign lid ''subnetChangeProtection''
                 (map_option ABool (subnetChangeProtection firewallItem))
              (assign lid ''firewallPolicyChangeProtection''
                 (map_option ABool (firewallPolicyChangeProtection firewallItem))
              (assign lid ''deleteProtection'' (map_option ABool (deleteProtection firewallItem))
              (assign lid ''vpcId'' (Some (AStr vpcId))
              (assign lid ''subnetMappings'' (Some (AStrList subnetIds))
              (assign lid ''description'' (map_option AStr (firewallDescription firewallItem))
              (assign lid ''firewallName'' (Some (AStr (firewallName firewallItem)))
              (assign lid ''firewallPolicyArn'' (Some (AStr firewallPolicyArn)) st)))))))))"

text \<open>
  The destinations of \<^verbatim>\<open>addFirewallLoggingConfiguration\<close>: the ids of the log groups it
  creates and the destination entries (type, destination, log type), in order.
\<close>

fun logDestinationConfigs ::
  "scope_env \<Rightarrow> NfwFirewallConfig \<Rightarrow> NfwLoggingConfig list
     \<Rightarrow> string list \<times> (string \<times> string \<times> string) list" where
  "logDestinationConfigs env firewallItem [] = ([], [])"
| "logDestinationConfigs env firewallItem (logItem # rest) =
     (let (groups, destinationConfigs) = logDestinationConfigs env firewallItem rest;
          logGroup = pascalCase env (firewallName firewallItem @ logType logItem @ ''LogGroup'')
      in ((if logDestination logItem = ''cloud-watch-logs'' then [logGroup] else []) @ groups,
          (if logDestination logItem = ''cloud-watch-logs''
           then [(''CloudWatchLogs'', logGroup, logType logItem)] else [])
          @ (if logDestination logItem = ''s3''
             then [(''S3'', firewallBucketName env, logType logItem)] else [])
          @ destinationConfigs))"

text \<open>
  \<^verbatim>\<open>addFirewallLoggingConfiguration\<close>. The guard
  \<^verbatim>\<open>if (!loggingConfigurationResource) return\<close> tests an array, which is truthy even when
  empty, so it never returns; the read of element 0 of an empty array raises.
\<close>

definition addFirewallLoggingConfiguration ::
  "scope_env \<Rightarrow> nested_stack_info \<Rightarrow> NfwFirewallConfig \<Rightarrow> merger_state \<Rightarrow> error + merger_state" where
  "addFirewallLoggingConfiguration env vpcStackInfo firewallItem st =
     (case filterResourcesByType (resources vpcStackInfo) RESOURCE_TYPE_NETWORK_FIREWALL_LOGGING of
        [] \<Rightarrow> Inl (TypeError ''Cannot read properties of undefined (reading logicalResourceId)'')
      | loggingConfigurationResource # _ \<Rightarrow>
          (case getResource st (logicalResourceId loggingConfigurationResource) of
             Inl e \<Rightarrow> Inl e
           | Inr loggingConfigurationObject \<Rightarrow>
               (let (groups, destinationConfigs) =
                      logDestinationConfigs env firewallItem
                        (case loggingConfiguration firewallItem of
                           None \<Rightarrow> [] | Some items \<Rightarrow> items)
                in Inr (assign (logicalResourceId loggingConfigurationResource)
                          ''loggingConfiguration'' (Some (ALogDestinations destinationConfigs))
                          (st\<lparr>logGroups := logGroups st @ groups\<rparr>)))))"

text \<open>
  The body of the loop over the configured firewalls (lines 1060 to 1101), for one
  firewall, and the loop. \<open>firewallArn\<close> stands for the attribute token
  \<^verbatim>\<open>firewall.attrFirewallArn\<close> of the firewall object.
\<close>

definition firewallArn :: "cfn_object \<Rightarrow> string" where
  "firewallArn firewall = ref firewall @ ''.FirewallArn''"

definition createNetworkFirewall_item ::
  "scope_env \<Rightarrow> VpcConfig \<Rightarrow> nested_stack_info \<Rightarrow> cfn_resource list \<Rightarrow> string
     \<Rightarrow> (string \<rightharpoonup> string) \<Rightarrow> firewall_policy option \<Rightarrow> NfwFirewallConfig
     \<Rightarrow> merger_state \<Rightarrow> error + merger_state" where
  "createNetworkFirewall_item env vpcItem vpcStackInfo firewallResources vpcId subnetRefs policy
       firewallItem st =
     (case findResourceByName firewallResources ''FirewallName'' (firewallName firewallItem) of
        None \<Rightarrow> Inr st
      | Some firewallResource \<Rightarrow>
          (case firewallSubnetIds env vpcItem subnetRefs (firewallSubnets firewallItem) of
             Inl e \<Rightarrow> Inl e
           | Inr subnetIds \<Rightarrow>
               (let policyArn2 = resolvePolicyArn env policy firewallItem
                in if \<not> truthy_string policyArn2
                   then Inl (policyNotFound (firewallPolicy firewallItem))
                   else
                     (case includedCfnResource (logicalResourceId firewallResource)
                             (case policyArn2 of Some arn \<Rightarrow> arn | None \<Rightarrow> [])
                             firewallItem subnetIds vpcId st of
                        Inl e \<Rightarrow> Inl e
                      | Inr st1 \<Rightarrow>
                          (case addFirewallLoggingConfiguration env vpcStackInfo firewallItem st1 of
                             Inl e \<Rightarrow> Inl e
                           | Inr st2 \<Rightarrow>
                               (case getResource st2 (logicalResourceId firewallResource) of
                                  Inl e \<Rightarrow> Inl e
                                | Inr firewall \<Rightarrow>
                                    Inr (addAseaResource NFW (firewallName firewallItem)
                                          (addSsmParameter
                                             \<lparr>logicalId = pascalCase env (''SsmParam''
                                                  @ pascalCase env (firewallVpc firewallItem)
                                                  @ pascalCase env (firewallName firewallItem)
                                                  @ ''FirewallArn''),
                                              parameterName = getSsmPath env SSM_NFW
                                                  [firewallVpc firewallItem,
                                                   firewallName firewallItem],
                                              stringValue = firewallArn firewall\<rparr>
                                             st2))))))))"

fun createNetworkFirewall_loop ::
  "scope_env \<Rightarrow> VpcConfig \<Rightarrow> nested_stack_info \<Rightarrow> cfn_resource list \<Rightarrow> string
     \<Rightarrow> (string \<rightharpoonup> string) \<Rightarrow> firewall_policy option \<Rightarrow> NfwFirewallConfig list
     \<Rightarrow> merger_state \<Rightarrow> error + merger_state" where
  "createNetworkFirewall_loop env vpcItem vpcStackInfo firewallResources vpcId subnetRefs policy
       [] st = Inr st"
| "createNetworkFirewall_loop env vpcItem vpcStackInfo firewallResources vpcId subnetRefs policy
       (firewallItem # rest) st =
     (case createNetworkFirewall_item env vpcItem vpcStackInfo firewallResources vpcId
             subnetRefs policy firewallItem st of
        Inl e \<Rightarrow> Inl e
      | Inr st1 \<Rightarrow>
          createNetworkFirewall_loop env vpcItem vpcStackInfo firewallResources vpcId subnetRefs
            policy rest st1)"

text \<open>
  \<^verbatim>\<open>createNetworkFirewall\<close>. \<open>firewalls\<close> is the read
  \<^verbatim>\<open>networkConfig.centralNetworkServices?.networkFirewall?.firewalls\<close>.
\<close>

definition createNetworkFirewall ::
  "scope_env \<Rightarrow> NfwFirewallConfig list option \<Rightarrow> VpcConfig \<Rightarrow> nested_stack_info \<Rightarrow> string
     \<Rightarrow> (string \<rightharpoonup> string) \<Rightarrow> firewall_policy option \<Rightarrow> merger_state
     \<Rightarrow> error + merger_state" where
  "createNetworkFirewall env firewalls vpcItem vpcStackInfo vpcId subnetRefs policy st =
     (let firewallsConfig =
            map_option (filter (\<lambda>firewallConfig. firewallVpc firewallConfig = vpcName vpcItem))
              firewalls;
          firewallResources =
            filterResourcesByType (resources vpcStackInfo) RESOURCE_TYPE_NETWORK_FIREWALL
      in if length firewallResources = 0 then Inr st
         else case firewallsConfig of
                None \<Rightarrow> Inr (addLogs WARN
                  ''No Firewall found in configuration and firewall present in resource mapping'' st)
              | Some items \<Rightarrow>
                  if length items = 0
                  then Inr (addLogs WARN
                    ''No Firewall found in configuration and firewall present in resource mapping'' st)
                  else createNetworkFirewall_loop env vpcItem vpcStackInfo firewallResources vpcId
                         subnetRefs policy items st)"

text \<open>
  The reading of the fatal dependency in the spec's words: the policy reference of a
  firewall resolves from the policy of the current run, or from a previously exported
  parameter.
\<close>

definition resolvesInRun :: "firewall_policy option \<Rightarrow> NfwFirewallConfig \<Rightarrow> bool" where
  "resolvesInRun policy firewallItem =
     (case policy of
        None \<Rightarrow> False
      | Some p \<Rightarrow> firewallPolicy firewallItem = policyName p \<and> policyArn p \<noteq> [])"

definition resolvesFromExports :: "scope_env \<Rightarrow> NfwFirewallConfig \<Rightarrow> bool" where
  "resolvesFromExports env firewallItem =
     (case getExternalResourceParameter env
             (getSsmPath env SSM_NFW_POLICY [firewallPolicy firewallItem]) of
        None \<Rightarrow> False
      | Some arn \<Rightarrow> arn \<noteq> [])"

text \<open>
  The resolved policy identifier in the spec's words: that of the policy of the current
  run when the reference resolves there, and the previously exported one otherwise.
\<close>

definition resolvedPolicy ::
  "scope_env \<Rightarrow> firewall_policy option \<Rightarrow> NfwFirewallConfig \<Rightarrow> string option" where
  "resolvedPolicy env policy firewallItem =
     (if resolvesInRun policy firewallItem then map_option policyArn policy
      else getExternalResourceParameter env
             (getSsmPath env SSM_NFW_POLICY [firewallPolicy firewallItem]))"

text \<open>A legacy firewall with its logging configuration, for the scenarios.\<close>

definition firewall_legacy :: cfn_resource where
  "firewall_legacy =
     \<lparr>logicalResourceId = ''NfwA'', physicalResourceId = ''fw-01'',
      resourceType = RESOURCE_TYPE_NETWORK_FIREWALL, tags = [],
      properties = [(''FirewallName'', PStr ''Perimeter'')]\<rparr>"

definition firewall_logging_legacy :: cfn_resource where
  "firewall_logging_legacy =
     \<lparr>logicalResourceId = ''NfwALogging'', physicalResourceId = ''fwlog-01'',
      resourceType = RESOURCE_TYPE_NETWORK_FIREWALL_LOGGING, tags = [], properties = []\<rparr>"

definition stack_firewall :: nested_stack_info where
  "stack_firewall =
     \<lparr>stackName = ''Phase1-VpcStackProd'', stackLogicalResourceId = ''VpcStackProd'',
      resources = [vpc_prod, firewall_legacy, firewall_logging_legacy]\<rparr>"

definition firewall_config :: NfwFirewallConfig where
  "firewall_config =
     \<lparr>firewallName = ''Perimeter'', firewallDescription = None, firewallPolicy = ''Strict'',
      firewallSubnets = [''Web''], firewallVpc = ''Prod'', deleteProtection = Some True,
      firewallPolicyChangeProtection = None, subnetChangeProtection = None,
      loggingConfiguration = Some [\<lparr>logDestination = ''s3'', logType = ''ALERT''\<rparr>]\<rparr>"

definition firewall_unmatched :: NfwFirewallConfig where
  "firewall_unmatched = firewall_config\<lparr>firewallName := ''Inspection''\<rparr>"

definition firewall_state :: merger_state where
  "firewall_state =
     \<lparr>ssmParameters = [], logs = [], aseaResources = [],
      template = [''NfwA'' \<mapsto> example_object ''fw-01'',
                  ''NfwALogging'' \<mapsto> example_object ''fwlog-01''],
      logGroups = []\<rparr>"

definition exported_policy_env :: scope_env where
  "exported_policy_env =
     example_env\<lparr>getExternalResourceParameter :=
       (\<lambda>path. if path = ''/accelerator/network//Strict'' then Some ''arn:policy/Strict''
               else None)\<rparr>"


section \<open>Properties of the flush\<close>

lemma createSsmParameters_loop_closed_form:
  assumes "length created = index - 1" and "1 \<le> index"
    and "\<And>j. 1 \<le> j \<Longrightarrow> j < index \<Longrightarrow> parameterMap j = Some j"
  shows "createSsmParameters_loop ps index parameterMap created =
           Inr (created @ map (\<lambda>(k, p). flushed (index + k) p) (zip [0..<length ps] ps))"
  using assms
proof (induction ps arbitrary: index parameterMap created)
  case Nil
  then show ?case by simp
next
  case (Cons p ps)
  let ?pm1 = "parameterMap(index \<mapsto> Suc (length created))"
  have pos: "Suc (length created) = index" using Cons.prems(1,2) by simp
  have pm1: "\<And>j. 1 \<le> j \<Longrightarrow> j < index + 1 \<Longrightarrow> ?pm1 j = Some j"
    using Cons.prems(3) pos by (auto simp add: less_Suc_eq)
  have shift: "map (\<lambda>(k, q). flushed (index + k) q) (zip [0..<length (p # ps)] (p # ps))
      = flushed index p # map (\<lambda>(k, q). flushed (index + 1 + k) q) (zip [0..<length ps] ps)"
  proof -
    have "[0..<length (p # ps)] = 0 # map Suc [0..<length ps]"
      by (simp add: upt_conv_Cons map_Suc_upt del: upt_Suc)
    then show ?thesis by (simp add: zip_map1 case_prod_unfold comp_def del: upt_Suc)
  qed
  show ?case
  proof (cases "index > 5")
    case False
    have "createSsmParameters_loop (p # ps) index parameterMap created
        = createSsmParameters_loop ps (index + 1) ?pm1 (created @ [new_StringParameter p])"
      using False by (simp add: Let_def)
    also have "\<dots> = Inr ((created @ [new_StringParameter p])
        @ map (\<lambda>(k, q). flushed (index + 1 + k) q) (zip [0..<length ps] ps))"
      using Cons.prems(1,2) pm1 by (intro Cons.IH) auto
    also have "new_StringParameter p = flushed index p"
      using False by (simp add: flushed_def flush_dependsOn_def new_StringParameter_def)
    finally show ?thesis using shift by simp
  next
    case True
    have tgt: "1 \<le> index - index mod 5" "index - index mod 5 < index + 1"
      using True by presburger+
    have look: "?pm1 (index - index mod 5) = Some (index - index mod 5)"
      using pm1[OF tgt] .
    have upd: "(created @ [new_StringParameter p])[Suc (length created) - 1 :=
          addDependency (index - index mod 5) ((created @ [new_StringParameter p]) ! (Suc (length created) - 1))]
        = created @ [flushed index p]"
      using True
      by (simp add: flushed_def flush_dependsOn_def addDependency_def new_StringParameter_def)
    have "createSsmParameters_loop (p # ps) index parameterMap created
        = createSsmParameters_loop ps (index + 1) ?pm1 (created @ [flushed index p])"
      using True look upd by (simp add: Let_def)
    also have "\<dots> = Inr ((created @ [flushed index p])
        @ map (\<lambda>(k, q). flushed (index + 1 + k) q) (zip [0..<length ps] ps))"
      using Cons.prems(1,2) pm1 by (intro Cons.IH) auto
    finally show ?thesis using shift by simp
  qed
qed

lemma createSsmParameters_closed_form:
  "createSsmParameters ps = Inr (map (\<lambda>(k, p). flushed (Suc k) p) (zip [0..<length ps] ps))"
proof -
  have "createSsmParameters_loop ps 1 Map.empty []
      = Inr ([] @ map (\<lambda>(k, p). flushed (1 + k) p) (zip [0..<length ps] ps))"
    by (rule createSsmParameters_loop_closed_form) simp_all
  then show ?thesis by (simp add: createSsmParameters_def)
qed

text \<open>
  C1, as stated, fails: with twelve export entries the writes 6 to 9 depend on write 5
  (one to four positions earlier, not five), write 10 is handed itself, and writes 11 and
  12 depend on write 10. The dependency is on position \<open>index - index mod 5\<close>, not on
  position \<open>index - 5\<close>.
\<close>

theorem createSsmParameters_twelve_counterexample:
  "map_sum id (map sp_dependsOn) (createSsmParameters twelve_exports)
     = Inr [[], [], [], [], [], [5], [5], [5], [5], [10], [10], [10]]"
  by (simp add: createSsmParameters_closed_form twelve_exports_def flushed_def
      flush_dependsOn_def upt_rec[of _ "numeral _"] upt_rec[of 0])

text \<open>
  C1, amended: the flush returns one construct per export entry, in order; entries at
  positions 1 to 5 declare no ordering dependency, and every entry at a position
  \<open>i > 5\<close> that is not a multiple of 5 declares exactly one ordering dependency, on the
  entry at position \<open>i - i mod 5\<close>, the last multiple of 5 before it (between one and
  four positions earlier).
\<close>

theorem createSsmParameters_dependency_positions:
  "\<exists>out. createSsmParameters ps = Inr out \<and> length out = length ps \<and>
     (\<forall>i. 1 \<le> i \<and> i \<le> length ps \<longrightarrow>
        (i \<le> 5 \<longrightarrow> sp_dependsOn (out ! (i - 1)) = []) \<and>
        (5 < i \<and> i mod 5 \<noteq> 0 \<longrightarrow>
           sp_dependsOn (out ! (i - 1)) = [i - i mod 5] \<and> (i - i mod 5) mod 5 = 0
           \<and> i - i mod 5 < i \<and> i - 5 < i - i mod 5))"
proof -
  let ?out = "map (\<lambda>(k, p). flushed (Suc k) p) (zip [0..<length ps] ps)"
  have nth: "sp_dependsOn (?out ! (i - 1)) = flush_dependsOn i" if "1 \<le> i" "i \<le> length ps" for i
  proof -
    have "i - 1 < length ps" using that by simp
    then have "?out ! (i - 1) = flushed (Suc (i - 1)) (ps ! (i - 1))" by simp
    then show ?thesis using that by (simp add: flushed_def)
  qed
  have arith: "(i - i mod 5) mod 5 = 0 \<and> i - i mod 5 < i \<and> i - 5 < i - i mod 5"
    if "5 < i" "i mod 5 \<noteq> 0" for i :: nat
    using that by presburger
  have "createSsmParameters ps = Inr ?out" by (rule createSsmParameters_closed_form)
  moreover have "length ?out = length ps" by simp
  moreover have "\<forall>i. 1 \<le> i \<and> i \<le> length ps \<longrightarrow>
        (i \<le> 5 \<longrightarrow> sp_dependsOn (?out ! (i - 1)) = []) \<and>
        (5 < i \<and> i mod 5 \<noteq> 0 \<longrightarrow>
           sp_dependsOn (?out ! (i - 1)) = [i - i mod 5] \<and> (i - i mod 5) mod 5 = 0
           \<and> i - i mod 5 < i \<and> i - 5 < i - i mod 5)"
    using nth arith by (auto simp: flush_dependsOn_def)
  ultimately show ?thesis by blast
qed

theorem createSsmParameters_dependency_positions_witness:
  "\<exists>out. createSsmParameters twelve_exports = Inr out \<and> length out = 12
      \<and> sp_dependsOn (out ! 2) = [] \<and> sp_dependsOn (out ! 6) = [5]
      \<and> sp_dependsOn (out ! 11) = [10]"
proof -
  have len: "length twelve_exports = 12" by (simp add: twelve_exports_def)
  obtain out where out: "createSsmParameters twelve_exports = Inr out" "length out = 12"
    and deps: "\<And>i. 1 \<le> i \<and> i \<le> 12 \<Longrightarrow>
        (i \<le> 5 \<longrightarrow> sp_dependsOn (out ! (i - 1)) = []) \<and>
        (5 < i \<and> i mod 5 \<noteq> 0 \<longrightarrow>
           sp_dependsOn (out ! (i - 1)) = [i - i mod 5] \<and> (i - i mod 5) mod 5 = 0
           \<and> i - i mod 5 < i \<and> i - 5 < i - i mod 5)"
    using createSsmParameters_dependency_positions [of twelve_exports] unfolding len by blast
  from deps [of 3] have "sp_dependsOn (out ! 2) = []" by simp
  moreover from deps [of 7] have "sp_dependsOn (out ! 6) = [5]" by simp
  moreover from deps [of 12] have "sp_dependsOn (out ! 11) = [10]" by simp
  ultimately show ?thesis using out by blast
qed

text \<open>
  C9: the flush returns for every list of export entries. The map lookup at
  \<open>index - index mod 5\<close> finds a construct at every position beyond the fifth, because
  the current construct is stored under \<open>index\<close> before the lookup and every earlier
  position was stored in its own iteration; the branch that throws
  \<^verbatim>\<open>Configuration validation failed at runtime.\<close> is never taken.
\<close>

theorem createSsmParameters_never_throws:
  "(\<exists>out. createSsmParameters ps = Inr out \<and> length out = length ps)
     \<and> createSsmParameters ps \<noteq> Inl (Error ''Configuration validation failed at runtime.'')"
  by (simp add: createSsmParameters_closed_form)

section \<open>Properties of the Matcher\<close>

lemma find_first_split:
  assumes "xs = pre @ x # post" and "P x" and "\<forall>y \<in> set pre. \<not> P y"
  shows "List.find P xs = Some x"
  using assms by (induction pre arbitrary: xs) auto

lemma find_Some_D:
  "List.find P xs = Some x \<Longrightarrow> x \<in> set xs \<and> P x"
  by (induction xs) (auto split: if_splits)

lemma find_filter_conj:
  "List.find P (filter Q xs) = List.find (\<lambda>x. Q x \<and> P x) xs"
  by (induction xs) auto

lemma getSubnetResourceByTag_find:
  "getSubnetResourceByTag sname nestedStackInfo =
     List.find (\<lambda>r. resourceType r = RESOURCE_TYPE_SUBNET \<and> hasNameTag sname r)
       (resources nestedStackInfo)"
  by (simp add: getSubnetResourceByTag_def findResourceByTag_def find_filter_conj
      split: option.splits)

lemma hasNameTag_iff: "hasNameTag name r \<longleftrightarrow> (''Name'', name) \<in> set (tags r)"
  by (auto simp: hasNameTag_def find_None_iff)

lemma getVpcResourceByTag_Some:
  assumes "getVpcResourceByTag stacks vname = Some (stackInfo, r)"
  shows "stackInfo \<in> set stacks \<and> r \<in> set (resources stackInfo)
           \<and> resourceType r = RESOURCE_TYPE_VPC \<and> hasNameTag vname r"
  using assms
proof (induction stacks)
  case Nil
  then show ?case by simp
next
  case (Cons s stacks)
  show ?case
  proof (cases "List.find (hasNameTag vname)
                  (filter (\<lambda>c. resourceType c = RESOURCE_TYPE_VPC) (resources s))")
    case None
    then show ?thesis using Cons by (simp add: Let_def)
  next
    case (Some a)
    then have "a = r" "s = stackInfo" using Cons.prems by (simp_all add: Let_def)
    moreover have "a \<in> set (resources s) \<and> resourceType a = RESOURCE_TYPE_VPC \<and> hasNameTag vname a"
      using find_Some_D[OF Some] by simp
    ultimately show ?thesis by simp
  qed
qed

lemma getVpcResourceByTag_first:
  assumes "stacks = before @ stackInfo # after"
    and "resources stackInfo = pre @ r # post"
    and "resourceType r = RESOURCE_TYPE_VPC" and "hasNameTag vname r"
    and "\<forall>y \<in> set pre. \<not> (resourceType y = RESOURCE_TYPE_VPC \<and> hasNameTag vname y)"
    and "\<forall>s \<in> set before. \<forall>y \<in> set (resources s).
           \<not> (resourceType y = RESOURCE_TYPE_VPC \<and> hasNameTag vname y)"
  shows "getVpcResourceByTag stacks vname = Some (stackInfo, r)"
  using assms(1,6)
proof (induction before arbitrary: stacks)
  case Nil
  have "List.find (\<lambda>x. resourceType x = RESOURCE_TYPE_VPC \<and> hasNameTag vname x)
          (resources stackInfo) = Some r"
    using assms(2-5) by (intro find_first_split[where pre = pre and post = post]) auto
  then show ?case using Nil by (simp add: find_filter_conj Let_def)
next
  case (Cons s before)
  have "List.find (\<lambda>x. resourceType x = RESOURCE_TYPE_VPC \<and> hasNameTag vname x)
          (resources s) = None"
    using Cons.prems(2) by (auto simp: find_None_iff)
  then show ?case using Cons by (simp add: find_filter_conj Let_def)
qed

text \<open>
  C6, as stated, fails where two records of a container carry the same Name tag. Two
  network records of one container are tagged Prod, and the Matcher returns the first for
  the target entry Prod, never the second; likewise both subnets of a container are tagged
  Web, and the Matcher returns the first.
\<close>

theorem matcher_duplicate_tag_counterexample:
  "getVpcResourceByTag [stack_two_vpcs] ''Prod'' = Some (stack_two_vpcs, vpc_prod)
     \<and> vpc_prod_second \<in> set (resources stack_two_vpcs)
     \<and> resourceType vpc_prod_second = RESOURCE_TYPE_VPC
     \<and> (''Name'', ''Prod'') \<in> set (tags vpc_prod_second)
     \<and> vpc_prod_second \<noteq> vpc_prod
     \<and> getSubnetResourceByTag ''Web'' stack_prod = Some subnet_web_1
     \<and> subnet_web_2 \<in> set (resources stack_prod)
     \<and> resourceType subnet_web_2 = RESOURCE_TYPE_SUBNET
     \<and> (''Name'', ''Web'') \<in> set (tags subnet_web_2)
     \<and> subnet_web_2 \<noteq> subnet_web_1"
  by (simp add: getSubnetResourceByTag_def findResourceByTag_def hasNameTag_def
      stack_prod_def stack_two_vpcs_def vpc_prod_def vpc_prod_second_def subnet_web_1_def
      subnet_web_2_def)

text \<open>
  C6, amended: for every legacy record of kind K carrying tag Name=X in container C that
  is the first such record of C, and every target entry of kind K named X scoped to C, the
  Matcher returns that record (a later record with the same tag is never returned). A
  subnet entry matches only a record of kind subnet, tagged with its name, within the
  container it is scoped to, whatever the other containers hold; a network entry is
  matched across the containers in order, and the record returned is a network record of
  the container returned with it.
\<close>

theorem matcher_returns_first_tagged_record:
  "(resources C = pre @ r # post \<and> resourceType r = RESOURCE_TYPE_SUBNET
       \<and> (''Name'', X) \<in> set (tags r)
       \<and> (\<forall>y \<in> set pre. \<not> (resourceType y = RESOURCE_TYPE_SUBNET \<and> (''Name'', X) \<in> set (tags y)))
      \<longrightarrow> getSubnetResourceByTag X C = Some r)
   \<and> (getSubnetResourceByTag X C = Some r'
      \<longrightarrow> r' \<in> set (resources C) \<and> resourceType r' = RESOURCE_TYPE_SUBNET
          \<and> (''Name'', X) \<in> set (tags r'))
   \<and> (stacks = before @ C # after \<and> resources C = pre @ r # post
       \<and> resourceType r = RESOURCE_TYPE_VPC \<and> (''Name'', X) \<in> set (tags r)
       \<and> (\<forall>y \<in> set pre. \<not> (resourceType y = RESOURCE_TYPE_VPC \<and> (''Name'', X) \<in> set (tags y)))
       \<and> (\<forall>s \<in> set before. \<forall>y \<in> set (resources s).
             \<not> (resourceType y = RESOURCE_TYPE_VPC \<and> (''Name'', X) \<in> set (tags y)))
      \<longrightarrow> getVpcResourceByTag stacks X = Some (C, r))
   \<and> (getVpcResourceByTag stacks X = Some (C', r')
      \<longrightarrow> C' \<in> set stacks \<and> r' \<in> set (resources C') \<and> resourceType r' = RESOURCE_TYPE_VPC
          \<and> (''Name'', X) \<in> set (tags r'))"
proof (intro conjI impI)
  assume a: "resources C = pre @ r # post \<and> resourceType r = RESOURCE_TYPE_SUBNET
       \<and> (''Name'', X) \<in> set (tags r)
       \<and> (\<forall>y \<in> set pre. \<not> (resourceType y = RESOURCE_TYPE_SUBNET \<and> (''Name'', X) \<in> set (tags y)))"
  then show "getSubnetResourceByTag X C = Some r"
    unfolding getSubnetResourceByTag_find
    by (intro find_first_split[where pre = pre and post = post]) (auto simp: hasNameTag_iff)
next
  assume "getSubnetResourceByTag X C = Some r'"
  then have "List.find (\<lambda>r. resourceType r = RESOURCE_TYPE_SUBNET \<and> hasNameTag X r)
               (resources C) = Some r'"
    by (simp add: getSubnetResourceByTag_find)
  then have "r' \<in> set (resources C) \<and> resourceType r' = RESOURCE_TYPE_SUBNET \<and> hasNameTag X r'"
    by (rule find_Some_D)
  then show "r' \<in> set (resources C)" "resourceType r' = RESOURCE_TYPE_SUBNET"
    "(''Name'', X) \<in> set (tags r')"
    by (simp_all add: hasNameTag_iff)
next
  assume a: "stacks = before @ C # after \<and> resources C = pre @ r # post
       \<and> resourceType r = RESOURCE_TYPE_VPC \<and> (''Name'', X) \<in> set (tags r)
       \<and> (\<forall>y \<in> set pre. \<not> (resourceType y = RESOURCE_TYPE_VPC \<and> (''Name'', X) \<in> set (tags y)))
       \<and> (\<forall>s \<in> set before. \<forall>y \<in> set (resources s).
             \<not> (resourceType y = RESOURCE_TYPE_VPC \<and> (''Name'', X) \<in> set (tags y)))"
  then show "getVpcResourceByTag stacks X = Some (C, r)"
    by (intro getVpcResourceByTag_first[where before = before and after = after
          and pre = pre and post = post]) (auto simp: hasNameTag_iff)
next
  assume "getVpcResourceByTag stacks X = Some (C', r')"
  from getVpcResourceByTag_Some[OF this]
  show "C' \<in> set stacks" "r' \<in> set (resources C')" "resourceType r' = RESOURCE_TYPE_VPC"
    "(''Name'', X) \<in> set (tags r')"
    by (simp_all add: hasNameTag_iff)
qed

theorem matcher_returns_first_tagged_record_witness:
  "getSubnetResourceByTag ''Web'' stack_prod = Some subnet_web_1
     \<and> getSubnetResourceByTag ''Web'' stack_dev = Some subnet_web_2
     \<and> subnet_web_1 \<in> set (resources stack_prod)
     \<and> getVpcResourceByTag [stack_dev, stack_prod] ''Prod'' = Some (stack_prod, vpc_prod)
     \<and> vpc_prod \<in> set (resources stack_prod)"
proof -
  note main = matcher_returns_first_tagged_record
  have p1: "resources stack_prod = [vpc_prod] @ subnet_web_1 # [subnet_web_2]
      \<and> resourceType subnet_web_1 = RESOURCE_TYPE_SUBNET
      \<and> (''Name'', ''Web'') \<in> set (tags subnet_web_1)
      \<and> (\<forall>y \<in> set [vpc_prod].
            \<not> (resourceType y = RESOURCE_TYPE_SUBNET \<and> (''Name'', ''Web'') \<in> set (tags y)))"
    by (simp add: stack_prod_def vpc_prod_def subnet_web_1_def)
  have 1: "getSubnetResourceByTag ''Web'' stack_prod = Some subnet_web_1"
    by (rule mp [OF conjunct1 [OF main] p1])
  have p2: "resources stack_dev = [] @ subnet_web_2 # []
      \<and> resourceType subnet_web_2 = RESOURCE_TYPE_SUBNET
      \<and> (''Name'', ''Web'') \<in> set (tags subnet_web_2)
      \<and> (\<forall>y \<in> set [].
            \<not> (resourceType y = RESOURCE_TYPE_SUBNET \<and> (''Name'', ''Web'') \<in> set (tags y)))"
    by (simp add: stack_dev_def subnet_web_2_def)
  have 2: "getSubnetResourceByTag ''Web'' stack_dev = Some subnet_web_2"
    by (rule mp [OF conjunct1 [OF main] p2])
  have 3: "subnet_web_1 \<in> set (resources stack_prod)"
    using mp [OF conjunct1 [OF conjunct2 [OF main]] 1] by (rule conjunct1)
  have p4: "[stack_dev, stack_prod] = [stack_dev] @ stack_prod # []
      \<and> resources stack_prod = [] @ vpc_prod # [subnet_web_1, subnet_web_2]
      \<and> resourceType vpc_prod = RESOURCE_TYPE_VPC
      \<and> (''Name'', ''Prod'') \<in> set (tags vpc_prod)
      \<and> (\<forall>y \<in> set [].
            \<not> (resourceType y = RESOURCE_TYPE_VPC \<and> (''Name'', ''Prod'') \<in> set (tags y)))
      \<and> (\<forall>s \<in> set [stack_dev]. \<forall>y \<in> set (resources s).
            \<not> (resourceType y = RESOURCE_TYPE_VPC \<and> (''Name'', ''Prod'') \<in> set (tags y)))"
    by (simp add: stack_prod_def stack_dev_def vpc_prod_def subnet_web_2_def)
  have 4: "getVpcResourceByTag [stack_dev, stack_prod] ''Prod'' = Some (stack_prod, vpc_prod)"
    by (rule mp [OF conjunct1 [OF conjunct2 [OF conjunct2 [OF main]]] p4])
  have 5: "vpc_prod \<in> set (resources stack_prod)"
    using mp [OF conjunct2 [OF conjunct2 [OF conjunct2 [OF main]]] 4] by simp
  show ?thesis using 1 2 3 4 5 by simp
qed

section \<open>Properties of the rule classification\<close>

lemma existingIngressRuleEntry_iff:
  "existingIngressRuleEntry ingressRules c \<longleftrightarrow> (\<exists>r \<in> set ingressRules. ingressRuleMatches r c)"
  by (induction ingressRules) auto

lemma ingressRuleMatches_agrees:
  assumes "ingressRuleMatches r c"
  shows "spec_rule_agrees r c"
proof -
  have src: "Ref v = Some s \<Longrightarrow> v = Some (PRef s)" for v s
    by (cases v rule: Ref.cases) auto
  show ?thesis
    using assms
    by (auto simp: ingressRuleMatches_def spec_rule_agrees_def Let_def eq_number_def
        eq_string_def dest: src split: if_splits)
qed

lemma agrees_ingressRuleMatches:
  assumes "spec_rule_agrees r c" and "protocol c \<noteq> []" and "sourceValue c \<noteq> []"
    and "ruleType c \<noteq> Some ''ALL'' \<longrightarrow>
           (\<exists>p q. fromPort c = Some p \<and> toPort c = Some q \<and> p \<noteq> 0 \<and> q \<noteq> 0)"
  shows "ingressRuleMatches r c"
  using assms
  by (auto simp: ingressRuleMatches_def spec_rule_agrees_def Let_def eq_number_def eq_string_def)

lemma same_properties_getProperty:
  assumes "same_properties r r'"
  shows "getProperty r = getProperty r'"
proof -
  have "map_of (properties r) = map_of (properties r')"
    using assms map_of_inject_set[of "properties r" "properties r'"]
    by (simp add: same_properties_def)
  then show ?thesis by (intro ext) (simp add: getProperty_def)
qed

lemma ingressRuleMatches_cong:
  "getProperty r = getProperty r' \<Longrightarrow> ingressRuleMatches r c = ingressRuleMatches r' c"
  by (simp add: ingressRuleMatches_def)

lemma existingIngressRuleEntry_same_properties:
  "list_all2 same_properties rs rs' \<Longrightarrow>
     existingIngressRuleEntry rs c = existingIngressRuleEntry rs' c"
proof (induction rs rs' rule: list_all2_induct)
  case Nil
  then show ?case by simp
next
  case (Cons r rs r' rs')
  then show ?case
    using ingressRuleMatches_cong[OF same_properties_getProperty, of r r' c] by simp
qed

lemma port_differs_no_match:
  assumes "getProperty r ''FromPort'' \<noteq> map_option PNum (fromPort c)
           \<or> getProperty r ''ToPort'' \<noteq> map_option PNum (toPort c)"
  shows "\<not> ingressRuleMatches r c"
  using assms by (auto simp: ingressRuleMatches_def Let_def eq_number_def)

text \<open>
  C2: whenever at least one legacy egress rule of the security group exists, the predicate
  handed to \<open>find\<close> is true of the first legacy rule whatever its protocol, ports, CIDR
  or source group are, \<open>find\<close> returns that rule, and every target egress rule is
  registered as existing.
\<close>

theorem egress_rule_always_classified_existing:
  assumes "egressRules = first # others"
  shows "egressRuleMatches first configEgressRule
     \<and> existingEgressRuleEntry egressRules configEgressRule = Some first
     \<and> classifyEgressRules vpc sg egressRules configEgressRules
         = map (\<lambda>c. (EC2_SECURITY_GROUP_EGRESS, ruleIdentifier vpc sg ''egress'' c))
             configEgressRules"
proof -
  have m: "egressRuleMatches r c" for r c
    by (simp add: egressRuleMatches_def)
  have f: "existingEgressRuleEntry egressRules c = Some first" for c
    using assms m by (simp add: existingEgressRuleEntry_def)
  have "classifyEgressRules vpc sg egressRules cs
         = map (\<lambda>c. (EC2_SECURITY_GROUP_EGRESS, ruleIdentifier vpc sg ''egress'' c)) cs"
    for cs
    by (induction cs) (simp_all add: f)
  then show ?thesis using m f by simp
qed

theorem egress_rule_always_classified_existing_witness:
  "egressRuleMatches legacy_ssh rule_https
     \<and> existingEgressRuleEntry [legacy_ssh, legacy_port0] rule_https = Some legacy_ssh
     \<and> classifyEgressRules ''Prod'' ''Mgmt'' [legacy_ssh, legacy_port0] [rule_https]
         = [(EC2_SECURITY_GROUP_EGRESS, ruleIdentifier ''Prod'' ''Mgmt'' ''egress'' rule_https)]"
  using egress_rule_always_classified_existing
    [of "[legacy_ssh, legacy_port0]" legacy_ssh "[legacy_port0]" rule_https
        "''Prod''" "''Mgmt''" "[rule_https]"]
  by simp

section \<open>Properties of the network, subnet and NAT-gateway mergers\<close>

lemma frame_refl: "frame L A st st"
  by (auto simp: frame_def split: option.splits)

lemma frame_trans:
  assumes "frame L A st st1" and "frame L A st1 st2"
  shows "frame L A st st2"
  unfolding frame_def
proof
  fix lid
  show "case template st lid of
          None \<Rightarrow> template st2 lid = None
        | Some obj \<Rightarrow>
            (\<exists>obj'. template st2 lid = Some obj' \<and> ref obj' = ref obj
                \<and> (\<forall>a. a \<notin> A \<longrightarrow> attrs obj' a = attrs obj a)
                \<and> (lid \<notin> L \<longrightarrow> obj' = obj))"
  proof (cases "template st lid")
    case None
    then have "template st1 lid = None"
      using assms(1) by (auto simp: frame_def split: option.splits dest: spec[of _ lid])
    then have "template st2 lid = None"
      using assms(2) by (auto simp: frame_def split: option.splits dest: spec[of _ lid])
    then show ?thesis using None by simp
  next
    case (Some obj)
    then obtain obj1 where 1: "template st1 lid = Some obj1" "ref obj1 = ref obj"
      "\<forall>a. a \<notin> A \<longrightarrow> attrs obj1 a = attrs obj a" "lid \<notin> L \<longrightarrow> obj1 = obj"
      using assms(1) unfolding frame_def by (fastforce dest: spec[of _ lid])
    then obtain obj2 where 2: "template st2 lid = Some obj2" "ref obj2 = ref obj1"
      "\<forall>a. a \<notin> A \<longrightarrow> attrs obj2 a = attrs obj1 a" "lid \<notin> L \<longrightarrow> obj2 = obj1"
      using assms(2) unfolding frame_def by (fastforce dest: spec[of _ lid])
    show ?thesis using Some 1 2 by simp
  qed
qed

lemma frame_assign:
  assumes "lid \<in> L" and "a \<in> A"
  shows "frame L A st (assign lid a v st)"
  using assms by (auto simp: frame_def assign_def split: option.splits)

lemma frame_same_template:
  assumes "frame L A st st1" and "template st2 = template st1"
  shows "frame L A st st2"
  using assms(1) unfolding frame_def assms(2) .

lemma template_addSsmParameter [simp]: "template (addSsmParameter p st) = template st"
  by (simp add: addSsmParameter_def)

lemma template_addAseaResource [simp]: "template (addAseaResource k n st) = template st"
  by (simp add: addAseaResource_def)

lemma template_addLogs [simp]: "template (addLogs l m st) = template st"
  by (simp add: addLogs_def)

lemma template_assign:
  "template (assign lid a v st) l
     = (if l = lid then map_option (\<lambda>obj. obj\<lparr>attrs := (attrs obj)(a := v)\<rparr>) (template st l)
        else template st l)"
  by (auto simp: assign_def split: option.splits)

lemma find_snoc:
  "List.find P (xs @ [x])
     = (case List.find P xs of None \<Rightarrow> (if P x then Some x else None) | Some y \<Rightarrow> Some y)"
  by (induction xs) auto

lemma frame_mono:
  assumes "frame L A st st'" and "L \<subseteq> L'"
  shows "frame L' A st st'"
proof -
  have "\<And>lid. lid \<notin> L' \<Longrightarrow> lid \<notin> L" using assms(2) by auto
  then show ?thesis
    using assms(1) unfolding frame_def
    by (auto split: option.splits) (metis option.inject option.distinct(1))+
qed

lemma createSubnets_loop_frame:
  assumes "createSubnets_loop env vpcItem vpcStackInfo items subnetRefs st = Inr (subnetRefs', st')"
  shows "frame {lid. \<exists>item r. item \<in> set items
                  \<and> getSubnetResourceByTag (subnetName item) vpcStackInfo = Some r
                  \<and> logicalResourceId r = lid} subnet_owned st st'"
  using assms
proof (induction items arbitrary: subnetRefs st)
  case Nil
  then show ?case by (simp add: frame_refl)
next
  case (Cons item items)
  let ?L = "\<lambda>xs. {lid. \<exists>item r. item \<in> set xs
                  \<and> getSubnetResourceByTag (subnetName item) vpcStackInfo = Some r
                  \<and> logicalResourceId r = lid}"
  have sub: "?L items \<subseteq> ?L (item # items)" by auto
  show ?case
  proof (cases "getSubnetResourceByTag (subnetName item) vpcStackInfo")
    case None
    then have "createSubnets_loop env vpcItem vpcStackInfo items subnetRefs st = Inr (subnetRefs', st')"
      using Cons.prems by simp
    from Cons.IH[OF this] show ?thesis by (rule frame_mono) (rule sub)
  next
    case (Some r)
    then obtain subnet where g: "getResource st (logicalResourceId r) = Inr subnet"
      using Cons.prems by (cases "getResource st (logicalResourceId r)") auto
    let ?lid = "logicalResourceId r"
    let ?st1 = "assign ?lid ''cidrBlock'' (map_option AStr (ipv4CidrBlock item)) st"
    let ?st2 = "assign ?lid ''availabilityZone''
                  (Some (AStr (availabilityZoneString (region vpcItem) (availabilityZone item)))) ?st1"
    let ?st3 = "assign ?lid ''mapPublicIpOnLaunch'' (map_option ABool (mapPublicIpOnLaunch item)) ?st2"
    obtain st5 refs5 where rest: "createSubnets_loop env vpcItem vpcStackInfo items refs5 st5
          = Inr (subnetRefs', st')" and t5: "template st5 = template ?st3"
      using Cons.prems Some g by (simp add: Let_def)
    have lid: "?lid \<in> ?L (item # items)" using Some by auto
    have f3: "frame (?L (item # items)) subnet_owned st ?st3"
      by (intro frame_trans[OF frame_trans[OF frame_assign frame_assign] frame_assign] lid)
         (simp_all add: subnet_owned_def)
    have f5: "frame (?L (item # items)) subnet_owned st st5"
      using f3 t5 by (rule frame_same_template)
    have "frame (?L (item # items)) subnet_owned st5 st'"
      using Cons.IH[OF rest] sub by (rule frame_mono)
    with f5 show ?thesis by (rule frame_trans)
  qed
qed

lemma createSubnets_loop_other_fields:
  assumes "createSubnets_loop env vpcItem vpcStackInfo items subnetRefs st = Inr (subnetRefs', st')"
  shows "logs st' = logs st \<and> logGroups st' = logGroups st"
  using assms
proof (induction items arbitrary: subnetRefs st)
  case Nil
  then show ?case by simp
next
  case (Cons item items)
  show ?case
  proof (cases "getSubnetResourceByTag (subnetName item) vpcStackInfo")
    case None
    then show ?thesis using Cons by simp
  next
    case (Some r)
    then obtain subnet where g: "getResource st (logicalResourceId r) = Inr subnet"
      using Cons.prems by (cases "getResource st (logicalResourceId r)") auto
    obtain st5 refs5 where rest: "createSubnets_loop env vpcItem vpcStackInfo items refs5 st5
          = Inr (subnetRefs', st')" and l5: "logs st5 = logs st" "logGroups st5 = logGroups st"
      using Cons.prems Some g
      by (simp add: Let_def)
         (auto simp: assign_def addSsmParameter_def addAseaResource_def split: option.splits)
    show ?thesis using Cons.IH[OF rest] l5 by simp
  qed
qed

lemma modifyVpcAttributes_frame:
  assumes "modifyVpcAttributes vpcInScope resource st = Inr st'"
  shows "frame {logicalResourceId resource} vpc_owned st st'"
proof -
  obtain cs where st': "st' = assign (logicalResourceId resource) ''instanceTenancy''
                      (map_option AStr (instanceTenancy vpcInScope))
                   (assign (logicalResourceId resource) ''enableDnsSupport''
                      (map_option ABool (enableDnsSupport vpcInScope))
                   (assign (logicalResourceId resource) ''enableDnsHostnames''
                      (map_option ABool (enableDnsHostnames vpcInScope))
                   (assign (logicalResourceId resource) ''cidrBlock''
                      (case cs of [] \<Rightarrow> None | c # _ \<Rightarrow> Some (AStr c)) st)))"
    using assms by (auto simp: modifyVpcAttributes_def split: sum.splits option.splits)
  show ?thesis
    unfolding st'
    by (intro frame_trans[OF frame_trans[OF frame_trans[OF frame_assign frame_assign] frame_assign]
          frame_assign])
       (simp_all add: vpc_owned_def)
qed

lemma modifyVpcAttributes_other_fields:
  assumes "modifyVpcAttributes vpcInScope resource st = Inr st'"
  shows "ssmParameters st' = ssmParameters st \<and> logs st' = logs st
     \<and> aseaResources st' = aseaResources st \<and> logGroups st' = logGroups st"
  using assms
  by (auto simp: modifyVpcAttributes_def assign_def split: sum.splits option.splits)

lemma frameD:
  assumes "frame L A st st'" and "template st lid = Some obj"
  shows "\<exists>obj'. template st' lid = Some obj' \<and> ref obj' = ref obj
            \<and> (\<forall>a. a \<notin> A \<longrightarrow> attrs obj' a = attrs obj a) \<and> (lid \<notin> L \<longrightarrow> obj' = obj)"
  using assms unfolding frame_def by (auto dest!: spec[of _ lid])

lemma frame_dom:
  assumes "frame L A st st'"
  shows "dom (template st') = dom (template st)"
proof -
  have "template st' lid = None \<longleftrightarrow> template st lid = None" for lid
    using assms unfolding frame_def by (cases "template st lid") (auto dest!: spec[of _ lid])
  then show ?thesis by (auto simp: dom_def)
qed

text \<open>
  C7: a merge of a matched network record writes only the four attributes the target owns
  on a network (CIDR block, the two DNS flags, tenancy), and the subnet merger writes only
  the three it owns on a subnet (CIDR block, availability zone, map-public-IP flag). Every
  other attribute of every template object, tags included, and every object's reference to
  its legacy physical identifier are the same before and after; objects of records that
  were not matched are untouched, no object appears or disappears, and the network merge
  changes neither the exports, the registry nor the diagnostics.
\<close>

theorem merge_writes_only_owned_attributes:
  "(modifyVpcAttributes vpcInScope resource st = Inr st' \<longrightarrow>
      (\<forall>lid obj. template st lid = Some obj \<longrightarrow>
         (\<exists>obj'. template st' lid = Some obj' \<and> ref obj' = ref obj
            \<and> (\<forall>a. a \<notin> {''cidrBlock'', ''enableDnsHostnames'', ''enableDnsSupport'',
                          ''instanceTenancy''} \<longrightarrow> attrs obj' a = attrs obj a)
            \<and> (lid \<noteq> logicalResourceId resource \<longrightarrow> obj' = obj)))
      \<and> dom (template st') = dom (template st)
      \<and> ssmParameters st' = ssmParameters st \<and> logs st' = logs st
      \<and> aseaResources st' = aseaResources st)
   \<and> (createSubnets env vpcItem vpcStackInfo st = Inr (subnetRefs, st'') \<longrightarrow>
      (\<forall>lid obj. template st lid = Some obj \<longrightarrow>
         (\<exists>obj'. template st'' lid = Some obj' \<and> ref obj' = ref obj
            \<and> (\<forall>a. a \<notin> {''cidrBlock'', ''availabilityZone'', ''mapPublicIpOnLaunch''}
                    \<longrightarrow> attrs obj' a = attrs obj a)
            \<and> ((\<forall>item r. item \<in> set (case subnets vpcItem of None \<Rightarrow> [] | Some items \<Rightarrow> items)
                     \<and> getSubnetResourceByTag (subnetName item) vpcStackInfo = Some r
                     \<longrightarrow> logicalResourceId r \<noteq> lid)
                \<longrightarrow> obj' = obj)))
      \<and> dom (template st'') = dom (template st) \<and> logs st'' = logs st)"
proof (intro conjI impI allI)
  assume m: "modifyVpcAttributes vpcInScope resource st = Inr st'"
  note f = modifyVpcAttributes_frame[OF m]
  show "dom (template st') = dom (template st)" using f by (rule frame_dom)
  show "ssmParameters st' = ssmParameters st" "logs st' = logs st"
    "aseaResources st' = aseaResources st"
    using modifyVpcAttributes_other_fields[OF m] by simp_all
  fix lid obj
  assume "template st lid = Some obj"
  from frameD[OF f this]
  show "\<exists>obj'. template st' lid = Some obj' \<and> ref obj' = ref obj
            \<and> (\<forall>a. a \<notin> {''cidrBlock'', ''enableDnsHostnames'', ''enableDnsSupport'',
                          ''instanceTenancy''} \<longrightarrow> attrs obj' a = attrs obj a)
            \<and> (lid \<noteq> logicalResourceId resource \<longrightarrow> obj' = obj)"
    unfolding vpc_owned_def by simp
next
  assume c: "createSubnets env vpcItem vpcStackInfo st = Inr (subnetRefs, st'')"
  let ?items = "case subnets vpcItem of None \<Rightarrow> [] | Some items \<Rightarrow> items"
  have l: "createSubnets_loop env vpcItem vpcStackInfo ?items Map.empty st = Inr (subnetRefs, st'')"
    using c by (simp add: createSubnets_def)
  note f = createSubnets_loop_frame[OF l]
  show "dom (template st'') = dom (template st)" using f by (rule frame_dom)
  show "logs st'' = logs st" using createSubnets_loop_other_fields[OF l] by simp
  fix lid obj
  assume "template st lid = Some obj"
  from frameD[OF f this]
  obtain obj' where o: "template st'' lid = Some obj'" "ref obj' = ref obj"
    "\<forall>a. a \<notin> subnet_owned \<longrightarrow> attrs obj' a = attrs obj a"
    "lid \<notin> {lid. \<exists>item r. item \<in> set ?items
                  \<and> getSubnetResourceByTag (subnetName item) vpcStackInfo = Some r
                  \<and> logicalResourceId r = lid} \<longrightarrow> obj' = obj"
    by blast
  have "(\<forall>item r. item \<in> set ?items
             \<and> getSubnetResourceByTag (subnetName item) vpcStackInfo = Some r
             \<longrightarrow> logicalResourceId r \<noteq> lid) \<longrightarrow> obj' = obj"
    using o(4) by blast
  then show "\<exists>obj'. template st'' lid = Some obj' \<and> ref obj' = ref obj
            \<and> (\<forall>a. a \<notin> {''cidrBlock'', ''availabilityZone'', ''mapPublicIpOnLaunch''}
                    \<longrightarrow> attrs obj' a = attrs obj a)
            \<and> ((\<forall>item r. item \<in> set ?items
                     \<and> getSubnetResourceByTag (subnetName item) vpcStackInfo = Some r
                     \<longrightarrow> logicalResourceId r \<noteq> lid)
                \<longrightarrow> obj' = obj)"
    using o(1-3) unfolding subnet_owned_def by blast
qed

theorem merge_writes_only_owned_attributes_witness:
  "(\<exists>st' obj'. modifyVpcAttributes example_vpc vpc_prod example_state = Inr st'
        \<and> template st' ''VpcProd'' = Some obj' \<and> ref obj' = ''vpc-01''
        \<and> attrs obj' ''tags'' = Some (ATags [(''Name'', ''Legacy''), (''Owner'', ''asea'')])
        \<and> template st' ''NatB'' = Some (example_object ''nat-0b''))
   \<and> (\<exists>subnetRefs st'' obj'. createSubnets example_env example_vpc stack_prod example_state
           = Inr (subnetRefs, st'')
        \<and> template st'' ''SubnetWebA'' = Some obj' \<and> ref obj' = ''subnet-0a''
        \<and> attrs obj' ''tags'' = Some (ATags [(''Name'', ''Legacy''), (''Owner'', ''asea'')])
        \<and> template st'' ''SubnetWebB'' = Some (example_object ''subnet-0b''))"
proof -
  note main = merge_writes_only_owned_attributes
  have t: "template example_state ''VpcProd'' = Some (example_object ''vpc-01'')"
      "template example_state ''NatB'' = Some (example_object ''nat-0b'')"
      "template example_state ''SubnetWebA'' = Some (example_object ''subnet-0a'')"
      "template example_state ''SubnetWebB'' = Some (example_object ''subnet-0b'')"
    by (simp_all add: example_state_def)
  have tags: "attrs (example_object r) ''tags'' = Some (ATags [(''Name'', ''Legacy''), (''Owner'', ''asea'')])"
      "ref (example_object r) = r" for r
    by (simp_all add: example_object_def)
  obtain st' where m: "modifyVpcAttributes example_vpc vpc_prod example_state = Inr st'"
    by (simp add: modifyVpcAttributes_def getResource_def example_vpc_def vpc_prod_def t)
  have nv: "''tags'' \<notin> vpc_owned" and ns: "''tags'' \<notin> subnet_owned"
    by (simp_all add: vpc_owned_def subnet_owned_def)
  have lv: "''NatB'' \<noteq> logicalResourceId vpc_prod" by (simp add: vpc_prod_def)
  note fm = conjunct1 [OF mp [OF conjunct1 [OF main] m], rule_format, folded vpc_owned_def]
  obtain o1 where o1: "template st' ''VpcProd'' = Some o1" "ref o1 = ref (example_object ''vpc-01'')"
      "\<forall>a. a \<notin> vpc_owned \<longrightarrow> attrs o1 a = attrs (example_object ''vpc-01'') a"
    using fm [OF t(1)] by blast
  have o1t: "attrs o1 ''tags'' = attrs (example_object ''vpc-01'') ''tags''"
    using o1(3) nv by blast
  obtain o2 where o2: "template st' ''NatB'' = Some o2"
      "''NatB'' \<noteq> logicalResourceId vpc_prod \<longrightarrow> o2 = example_object ''nat-0b''"
    using fm [OF t(2)] by blast
  have o2e: "template st' ''NatB'' = Some (example_object ''nat-0b'')"
    using o2 lv by blast
  have web: "getSubnetResourceByTag ''Web'' stack_prod = Some subnet_web_1"
    by (simp add: getSubnetResourceByTag_def findResourceByTag_def hasNameTag_def
      stack_prod_def vpc_prod_def subnet_web_1_def subnet_web_2_def)
  have items: "(case subnets example_vpc of None \<Rightarrow> [] | Some items \<Rightarrow> items)
      = [\<lparr>subnetName = ''Web'', ipv4CidrBlock = Some ''10.1.1.0/24'',
          availabilityZone = Some (AzLetter ''a''), mapPublicIpOnLaunch = Some False\<rparr>]"
    by (simp add: example_vpc_def)
  have lw: "logicalResourceId subnet_web_1 = ''SubnetWebA''" by (simp add: subnet_web_1_def)
  obtain subnetRefs st'' where c: "createSubnets example_env example_vpc stack_prod example_state
           = Inr (subnetRefs, st'')"
    by (simp add: createSubnets_def items web getResource_def lw t Let_def)
  note fc = conjunct1 [OF mp [OF conjunct2 [OF main] c], rule_format, folded subnet_owned_def]
  obtain o3 where o3: "template st'' ''SubnetWebA'' = Some o3"
      "ref o3 = ref (example_object ''subnet-0a'')"
      "\<forall>a. a \<notin> subnet_owned \<longrightarrow> attrs o3 a = attrs (example_object ''subnet-0a'') a"
    using fc [OF t(3)] by blast
  have o3t: "attrs o3 ''tags'' = attrs (example_object ''subnet-0a'') ''tags''"
    using o3(3) ns by blast
  have un: "\<forall>item r. item \<in> set (case subnets example_vpc of None \<Rightarrow> [] | Some items \<Rightarrow> items)
                     \<and> getSubnetResourceByTag (subnetName item) stack_prod = Some r
                     \<longrightarrow> logicalResourceId r \<noteq> ''SubnetWebB''"
    unfolding items by (simp add: web lw)
  obtain o4 where o4: "template st'' ''SubnetWebB'' = Some o4"
      "(\<forall>item r. item \<in> set (case subnets example_vpc of None \<Rightarrow> [] | Some items \<Rightarrow> items)
                     \<and> getSubnetResourceByTag (subnetName item) stack_prod = Some r
                     \<longrightarrow> logicalResourceId r \<noteq> ''SubnetWebB'') \<longrightarrow> o4 = example_object ''subnet-0b''"
    using fc [OF t(4)] by blast
  have o4e: "template st'' ''SubnetWebB'' = Some (example_object ''subnet-0b'')"
    using o4 un by blast
  have "\<exists>st' obj'. modifyVpcAttributes example_vpc vpc_prod example_state = Inr st'
        \<and> template st' ''VpcProd'' = Some obj' \<and> ref obj' = ''vpc-01''
        \<and> attrs obj' ''tags'' = Some (ATags [(''Name'', ''Legacy''), (''Owner'', ''asea'')])
        \<and> template st' ''NatB'' = Some (example_object ''nat-0b'')"
    using m o1(1,2) o1t o2e unfolding tags by blast
  moreover have "\<exists>subnetRefs st'' obj'. createSubnets example_env example_vpc stack_prod example_state
           = Inr (subnetRefs, st'')
        \<and> template st'' ''SubnetWebA'' = Some obj' \<and> ref obj' = ''subnet-0a''
        \<and> attrs obj' ''tags'' = Some (ATags [(''Name'', ''Legacy''), (''Owner'', ''asea'')])
        \<and> template st'' ''SubnetWebB'' = Some (example_object ''subnet-0b'')"
    using c o3(1,2) o3t o4e unfolding tags by blast
  ultimately show ?thesis by (rule conjI)
qed


lemma createNatGateways_loop_unmatched:
  assumes "\<forall>item \<in> set items. findResourceByTag natGatewayResources (natGatewayName item) = None"
  shows "createNatGateways_loop env vpcItem natGatewayResources subnetRefs items st = Inr st"
  using assms by (induction items) simp_all

text \<open>
  The declared gateway Nat-B in subnet Prod-B, with a legacy record of its own but no
  subnet Prod-B among the subnets of this run: the read of the subnet object raises.
\<close>

lemma createNatGateways_missing_subnet_raises:
  "createNatGateways example_env stack_prod_with_nat example_vpc Map.empty example_state
     = Inl (TypeError ''Cannot read properties of undefined (reading ref)'')"
proof -
  have r: "filterResourcesByType (resources stack_prod_with_nat) RESOURCE_TYPE_NAT_GATEWAY = [nat_b]"
    by (simp add: filterResourcesByType_def stack_prod_with_nat_def stack_prod_def vpc_prod_def
        subnet_web_1_def subnet_web_2_def nat_b_def)
  have f: "findResourceByTag [nat_b] ''Nat-B'' = Some nat_b"
    by (simp add: findResourceByTag_def hasNameTag_def nat_b_def)
  have g: "getResource example_state (logicalResourceId nat_b) = Inr (example_object ''nat-0b'')"
    by (simp add: getResource_def example_state_def nat_b_def)
  have n: "natGateways example_vpc = Some [\<lparr>natGatewayName = ''Nat-B'', natGatewaySubnet = ''Prod-B''\<rparr>]"
    by (simp add: example_vpc_def)
  show ?thesis by (simp add: createNatGateways_def r n f g)
qed

text \<open>
  C4, as stated, fails: the target declares the NAT gateway Nat-B in subnet Prod-B, which
  exists neither in the legacy records nor among the subnets of this run. The merger
  returns the state it was given: the diagnostics and the registry are still empty, so no
  Excluded outcome and no warning was recorded.
\<close>

theorem createNatGateways_silent_counterexample:
  "createNatGateways example_env stack_prod example_vpc Map.empty example_state
     = Inr example_state
   \<and> logs example_state = [] \<and> aseaResources example_state = []"
proof -
  have r: "filterResourcesByType (resources stack_prod) RESOURCE_TYPE_NAT_GATEWAY = []"
    by (simp add: filterResourcesByType_def stack_prod_def vpc_prod_def
        subnet_web_1_def subnet_web_2_def)
  have n: "natGateways example_vpc = Some [\<lparr>natGatewayName = ''Nat-B'', natGatewaySubnet = ''Prod-B''\<rparr>]"
    by (simp add: example_vpc_def)
  have "createNatGateways example_env stack_prod example_vpc Map.empty example_state
     = Inr example_state"
    by (simp add: createNatGateways_def r n findResourceByTag_def)
  then show ?thesis by (simp add: example_state_def)
qed

text \<open>
  C4, amended: for every declared NAT gateway that has no legacy NAT-gateway record
  carrying its name, whether or not its subnet exists, the merger passes over it without
  any effect: no record is mutated, no export, registry entry or diagnostic is added (no
  Excluded outcome, no warning), nothing is thrown, and the run continues with the next
  gateway. A run in which no declared gateway has a legacy record returns the state
  unchanged.
\<close>

theorem createNatGateways_unmatched_passed_over:
  "(findResourceByTag natGatewayResources (natGatewayName natGatewayItem) = None \<longrightarrow>
      createNatGateways_loop env vpcItem natGatewayResources subnetRefs (natGatewayItem # rest) st
        = createNatGateways_loop env vpcItem natGatewayResources subnetRefs rest st)
   \<and> (natGateways vpcItem = Some items \<and> items \<noteq> []
       \<and> (\<forall>item \<in> set items.
             findResourceByTag
               (filterResourcesByType (resources vpcStackInfo) RESOURCE_TYPE_NAT_GATEWAY)
               (natGatewayName item) = None)
      \<longrightarrow> createNatGateways env vpcStackInfo vpcItem subnetRefs st = Inr st)"
proof (intro conjI impI)
  assume "findResourceByTag natGatewayResources (natGatewayName natGatewayItem) = None"
  then show "createNatGateways_loop env vpcItem natGatewayResources subnetRefs (natGatewayItem # rest) st
        = createNatGateways_loop env vpcItem natGatewayResources subnetRefs rest st"
    by simp
next
  assume a: "natGateways vpcItem = Some items \<and> items \<noteq> []
       \<and> (\<forall>item \<in> set items.
             findResourceByTag
               (filterResourcesByType (resources vpcStackInfo) RESOURCE_TYPE_NAT_GATEWAY)
               (natGatewayName item) = None)"
  then have "createNatGateways env vpcStackInfo vpcItem subnetRefs st
      = createNatGateways_loop env vpcItem
          (filterResourcesByType (resources vpcStackInfo) RESOURCE_TYPE_NAT_GATEWAY)
          subnetRefs items st"
    by (simp add: createNatGateways_def Let_def)
  also have "\<dots> = Inr st"
    using a by (intro createNatGateways_loop_unmatched) blast
  finally show "createNatGateways env vpcStackInfo vpcItem subnetRefs st = Inr st" .
qed

theorem createNatGateways_unmatched_passed_over_witness:
  "createNatGateways example_env stack_prod example_vpc [''Web'' \<mapsto> ''subnet-0a''] example_state
     = Inr example_state"
proof -
  have r: "filterResourcesByType (resources stack_prod) RESOURCE_TYPE_NAT_GATEWAY = []"
    by (simp add: filterResourcesByType_def stack_prod_def vpc_prod_def
        subnet_web_1_def subnet_web_2_def)
  have p: "natGateways example_vpc
        = Some [\<lparr>natGatewayName = ''Nat-B'', natGatewaySubnet = ''Prod-B''\<rparr>]
      \<and> [\<lparr>natGatewayName = ''Nat-B'', natGatewaySubnet = ''Prod-B''\<rparr>] \<noteq> []
      \<and> (\<forall>item \<in> set [\<lparr>natGatewayName = ''Nat-B'', natGatewaySubnet = ''Prod-B''\<rparr>].
             findResourceByTag
               (filterResourcesByType (resources stack_prod) RESOURCE_TYPE_NAT_GATEWAY)
               (natGatewayName item) = None)"
    by (simp add: r example_vpc_def findResourceByTag_def)
  show ?thesis
    by (rule mp [OF conjunct2 [OF createNatGateways_unmatched_passed_over] p])
qed

section \<open>Properties of the security-group merger\<close>

lemma registerAll_eq:
  "registerAll entries st = st\<lparr>aseaResources := aseaResources st @ entries\<rparr>"
  by (induction entries st rule: registerAll.induct) (simp_all add: addAseaResource_def)

lemma classifyIngressRules_eq:
  "classifyIngressRules v4 v6 physicalIds vpc sg ingressRules configRules
     = (map (\<lambda>c. (EC2_SECURITY_GROUP_INGRESS, ruleIdentifier vpc sg ''ingress'' c))
          (filter (existingIngressRuleEntry ingressRules) configRules),
        concat (map (newIngressRules v4 v6 physicalIds)
          (filter (\<lambda>c. \<not> existingIngressRuleEntry ingressRules c) configRules)))"
  by (induction configRules) (simp_all add: Let_def)

lemma classifyEgressRules_kind:
  "filter (\<lambda>entry. fst entry = EC2_SECURITY_GROUP_INGRESS)
     (classifyEgressRules vpc sg egressRules configRules) = []"
  by (induction configRules) (simp_all split: option.splits)

lemma outboundRules_loop_result:
  assumes "\<forall>item \<in> set items. \<exists>rules. processRuleItem utils securityGroupsMap item = Inr rules"
    and "template st lid \<noteq> None"
    and "registered = map (\<lambda>c. (EC2_SECURITY_GROUP_INGRESS,
            ruleIdentifier (vpcName vpcItem) (securityGroupName securityGroupItem) ''ingress'' c))
          (filter (existingIngressRuleEntry ingressRules) configRules)"
    and "new = concat (map (newIngressRules v4 v6 physicalIds)
          (filter (\<lambda>c. \<not> existingIngressRuleEntry ingressRules c) configRules))"
  shows "\<exists>st' entries.
           outboundRules_loop utils v4 v6 securityGroupsMap physicalIds vpcItem securityGroupItem
             lid ingressRules egressRules configRules pushed items st = Inr st'
         \<and> aseaResources st' = aseaResources st @ entries
         \<and> filter (\<lambda>entry. fst entry = EC2_SECURITY_GROUP_INGRESS) entries
             = concat (replicate (length items) registered)
         \<and> (\<forall>l. template st' l
                = (if items \<noteq> [] \<and> new \<noteq> [] \<and> l = lid
                   then map_option (\<lambda>obj. obj\<lparr>attrs := (attrs obj)
                          (''securityGroupIngress'' \<mapsto> AIngress new)\<rparr>) (template st l)
                   else template st l))
         \<and> ssmParameters st' = ssmParameters st"
  using assms(1,2)
proof (induction items arbitrary: pushed st)
  case Nil
  then show ?case by simp
next
  case (Cons item items)
  obtain rules where rules: "processRuleItem utils securityGroupsMap item = Inr rules"
    using Cons.prems(1) by auto
  obtain obj where obj: "template st lid = Some obj" using Cons.prems(2) by auto
  let ?st1 = "registerAll registered st"
  let ?st2 = "if new = [] then ?st1
              else assign lid ''securityGroupIngress'' (Some (AIngress new)) ?st1"
  let ?egress = "classifyEgressRules (vpcName vpcItem) (securityGroupName securityGroupItem)
                   egressRules (pushed @ rules)"
  let ?st3 = "registerAll ?egress ?st2"
  have step: "outboundRules_loop utils v4 v6 securityGroupsMap physicalIds vpcItem
      securityGroupItem lid ingressRules egressRules configRules pushed (item # items) st
    = outboundRules_loop utils v4 v6 securityGroupsMap physicalIds vpcItem
      securityGroupItem lid ingressRules egressRules configRules (pushed @ rules) items ?st3"
    using rules obj
    by (simp add: classifyIngressRules_eq assms(3,4)[symmetric] Let_def getResource_def
        registerAll_eq)
  have t3: "template ?st3 l
      = (if new \<noteq> [] \<and> l = lid
         then map_option (\<lambda>obj. obj\<lparr>attrs := (attrs obj)
                (''securityGroupIngress'' \<mapsto> AIngress new)\<rparr>) (template st l)
         else template st l)" for l
    by (simp add: registerAll_eq template_assign)
  have a3: "aseaResources ?st3 = aseaResources st @ registered @ ?egress"
    by (simp add: registerAll_eq assign_def obj)
  have s3: "ssmParameters ?st3 = ssmParameters st"
    by (simp add: registerAll_eq assign_def obj)
  have p3: "template ?st3 lid \<noteq> None" using obj by (simp add: t3)
  have e3: "\<forall>item \<in> set items. \<exists>rules. processRuleItem utils securityGroupsMap item = Inr rules"
    using Cons.prems(1) by simp
  obtain st' entries where r:
      "outboundRules_loop utils v4 v6 securityGroupsMap physicalIds vpcItem securityGroupItem
         lid ingressRules egressRules configRules (pushed @ rules) items ?st3 = Inr st'"
      "aseaResources st' = aseaResources ?st3 @ entries"
      "filter (\<lambda>entry. fst entry = EC2_SECURITY_GROUP_INGRESS) entries
         = concat (replicate (length items) registered)"
      "\<forall>l. template st' l
                = (if items \<noteq> [] \<and> new \<noteq> [] \<and> l = lid
                   then map_option (\<lambda>obj. obj\<lparr>attrs := (attrs obj)
                          (''securityGroupIngress'' \<mapsto> AIngress new)\<rparr>) (template ?st3 l)
                   else template ?st3 l)"
      "ssmParameters st' = ssmParameters ?st3"
    using Cons.IH[OF e3 p3] by blast
  have k: "filter (\<lambda>entry. fst entry = EC2_SECURITY_GROUP_INGRESS) registered = registered"
    unfolding assms(3) by (simp add: filter_map o_def)
  have 1: "aseaResources st' = aseaResources st @ (registered @ ?egress @ entries)"
    using r(2) a3 by simp
  have 2: "filter (\<lambda>entry. fst entry = EC2_SECURITY_GROUP_INGRESS) (registered @ ?egress @ entries)
      = concat (replicate (length (item # items)) registered)"
    using r(3) k by (simp add: classifyEgressRules_kind)
  have 3: "template st' l
      = (if item # items \<noteq> [] \<and> new \<noteq> [] \<and> l = lid
         then map_option (\<lambda>obj. obj\<lparr>attrs := (attrs obj)
                (''securityGroupIngress'' \<mapsto> AIngress new)\<rparr>) (template st l)
         else template st l)" for l
    using r(4) t3 by (auto simp: option.map_comp o_def)
  have 4: "ssmParameters st' = ssmParameters st" using r(5) s3 by simp
  show ?case unfolding step using r(1) 1 2 3 4 by blast
qed

lemma securityGroupRules_result:
  assumes w: "\<forall>lid. securityGroupsMap (securityGroupName g) = Some lid \<and> lid \<noteq> []
          \<longrightarrow> (\<exists>rules. inboundRules_loop utils securityGroupsMap (inboundRules g) = Inr rules)
            \<and> (\<forall>item \<in> set (outboundRules g).
                  \<exists>rules. processRuleItem utils securityGroupsMap item = Inr rules)
            \<and> template st lid \<noteq> None"
    and marked: "marked = (\<lambda>g lid.
          map (\<lambda>c. (EC2_SECURITY_GROUP_INGRESS,
                  ruleIdentifier (vpcName vpcItem) (securityGroupName g) ''ingress'' c))
            (filter (existingIngressRuleEntry (filterResourcesByRef
                 (filterResourcesByType (resources vpcStackInfo)
                    RESOURCE_TYPE_SECURITY_GROUP_INGRESS) ''GroupId'' lid))
               (case inboundRules_loop utils securityGroupsMap (inboundRules g) of
                  Inr rules \<Rightarrow> rules | Inl e \<Rightarrow> [])))"
    and new: "new = (\<lambda>g lid.
          concat (map (newIngressRules v4 v6 physicalIds)
            (filter (\<lambda>c. \<not> existingIngressRuleEntry (filterResourcesByRef
                 (filterResourcesByType (resources vpcStackInfo)
                    RESOURCE_TYPE_SECURITY_GROUP_INGRESS) ''GroupId'' lid) c)
               (case inboundRules_loop utils securityGroupsMap (inboundRules g) of
                  Inr rules \<Rightarrow> rules | Inl e \<Rightarrow> []))))"
    and writes: "writes = (\<lambda>l g. securityGroupsMap (securityGroupName g) = Some l \<and> l \<noteq> []
          \<and> outboundRules g \<noteq> [] \<and> new g l \<noteq> [])"
  shows "\<exists>st' entries.
           securityGroupRules utils v4 v6 securityGroupsMap physicalIds vpcItem vpcStackInfo g st
             = Inr st'
         \<and> aseaResources st' = aseaResources st @ entries
         \<and> filter (\<lambda>entry. fst entry = EC2_SECURITY_GROUP_INGRESS) entries
             = (case securityGroupsMap (securityGroupName g) of
                  None \<Rightarrow> []
                | Some lid \<Rightarrow>
                    if lid = [] then []
                    else concat (replicate (length (outboundRules g)) (marked g lid)))
         \<and> (\<forall>l. template st' l
               = (if writes l g
                  then map_option (\<lambda>obj. obj\<lparr>attrs := (attrs obj)
                         (''securityGroupIngress'' \<mapsto> AIngress (new g l))\<rparr>) (template st l)
                  else template st l))"
proof (cases "securityGroupsMap (securityGroupName g)")
  case None
  have "securityGroupRules utils v4 v6 securityGroupsMap physicalIds vpcItem vpcStackInfo g st
      = Inr st"
    using None by (simp add: securityGroupRules_def)
  moreover have "aseaResources st = aseaResources st @ []" by simp
  moreover have "\<not> writes l g" for l using None by (simp add: writes)
  ultimately show ?thesis using None by fastforce
next
  case (Some lid)
  show ?thesis
  proof (cases "lid = []")
    case True
    have "securityGroupRules utils v4 v6 securityGroupsMap physicalIds vpcItem vpcStackInfo g st
        = Inr st"
      using Some True by (simp add: securityGroupRules_def)
    moreover have "aseaResources st = aseaResources st @ []" by simp
    moreover have "\<not> writes l g" for l using Some True by (auto simp: writes)
    ultimately show ?thesis using Some True by fastforce
  next
    case False
    obtain rules where rules: "inboundRules_loop utils securityGroupsMap (inboundRules g) = Inr rules"
      using w Some False by blast
    have e: "\<forall>item \<in> set (outboundRules g).
                  \<exists>rules. processRuleItem utils securityGroupsMap item = Inr rules"
      using w Some False by blast
    have t: "template st lid \<noteq> None" using w Some False by blast
    let ?ingress = "filterResourcesByRef (filterResourcesByType (resources vpcStackInfo)
                      RESOURCE_TYPE_SECURITY_GROUP_INGRESS) ''GroupId'' lid"
    let ?egress = "filterResourcesByRef (filterResourcesByType (resources vpcStackInfo)
                      RESOURCE_TYPE_SECURITY_GROUP_EGRESS) ''GroupId'' lid"
    have run: "securityGroupRules utils v4 v6 securityGroupsMap physicalIds vpcItem vpcStackInfo
                 g st
      = outboundRules_loop utils v4 v6 securityGroupsMap physicalIds vpcItem g lid ?ingress
          ?egress rules [] (outboundRules g) st"
      using Some False rules by (simp add: securityGroupRules_def)
    have mk: "marked g lid = map (\<lambda>c. (EC2_SECURITY_GROUP_INGRESS,
            ruleIdentifier (vpcName vpcItem) (securityGroupName g) ''ingress'' c))
          (filter (existingIngressRuleEntry ?ingress) rules)"
      by (simp add: marked rules)
    have nw: "new g lid = concat (map (newIngressRules v4 v6 physicalIds)
          (filter (\<lambda>c. \<not> existingIngressRuleEntry ?ingress c) rules))"
      by (simp add: new rules)
    obtain st' entries where r:
        "outboundRules_loop utils v4 v6 securityGroupsMap physicalIds vpcItem g lid ?ingress
          ?egress rules [] (outboundRules g) st = Inr st'"
        "aseaResources st' = aseaResources st @ entries"
        "filter (\<lambda>entry. fst entry = EC2_SECURITY_GROUP_INGRESS) entries
           = concat (replicate (length (outboundRules g)) (marked g lid))"
        "\<forall>l. template st' l
                = (if outboundRules g \<noteq> [] \<and> new g lid \<noteq> [] \<and> l = lid
                   then map_option (\<lambda>obj. obj\<lparr>attrs := (attrs obj)
                          (''securityGroupIngress'' \<mapsto> AIngress (new g lid))\<rparr>) (template st l)
                   else template st l)"
      using outboundRules_loop_result[OF e t mk nw, where egressRules = ?egress and pushed = "[]"] by blast
    have wr: "writes l g \<longleftrightarrow> outboundRules g \<noteq> [] \<and> new g lid \<noteq> [] \<and> l = lid" for l
      using Some False by (auto simp: writes)
    have 4: "\<forall>l. template st' l
               = (if writes l g
                  then map_option (\<lambda>obj. obj\<lparr>attrs := (attrs obj)
                         (''securityGroupIngress'' \<mapsto> AIngress (new g l))\<rparr>) (template st l)
                  else template st l)"
      using r(4) by (simp add: wr)
    have 3: "filter (\<lambda>entry. fst entry = EC2_SECURITY_GROUP_INGRESS) entries
             = (case securityGroupsMap (securityGroupName g) of
                  None \<Rightarrow> []
                | Some lid \<Rightarrow>
                    if lid = [] then []
                    else concat (replicate (length (outboundRules g)) (marked g lid)))"
      using r(3) Some False by simp
    show ?thesis unfolding run using r(1,2) 3 4 by blast
  qed
qed

lemma update_twice:
  "map_option (\<lambda>obj. obj\<lparr>attrs := (attrs obj)(a \<mapsto> v)\<rparr>)
     (map_option (\<lambda>obj. obj\<lparr>attrs := (attrs obj)(a \<mapsto> w)\<rparr>) x)
   = map_option (\<lambda>obj. obj\<lparr>attrs := (attrs obj)(a \<mapsto> v)\<rparr>) x"
  by (cases x) simp_all

lemma securityGroupRules_loop_result:
  assumes w: "\<forall>g \<in> set groups. \<forall>lid.
          securityGroupsMap (securityGroupName g) = Some lid \<and> lid \<noteq> []
          \<longrightarrow> (\<exists>rules. inboundRules_loop utils securityGroupsMap (inboundRules g) = Inr rules)
            \<and> (\<forall>item \<in> set (outboundRules g).
                  \<exists>rules. processRuleItem utils securityGroupsMap item = Inr rules)
            \<and> template st lid \<noteq> None"
    and marked: "marked = (\<lambda>g lid.
          map (\<lambda>c. (EC2_SECURITY_GROUP_INGRESS,
                  ruleIdentifier (vpcName vpcItem) (securityGroupName g) ''ingress'' c))
            (filter (existingIngressRuleEntry (filterResourcesByRef
                 (filterResourcesByType (resources vpcStackInfo)
                    RESOURCE_TYPE_SECURITY_GROUP_INGRESS) ''GroupId'' lid))
               (case inboundRules_loop utils securityGroupsMap (inboundRules g) of
                  Inr rules \<Rightarrow> rules | Inl e \<Rightarrow> [])))"
    and new: "new = (\<lambda>g lid.
          concat (map (newIngressRules v4 v6 physicalIds)
            (filter (\<lambda>c. \<not> existingIngressRuleEntry (filterResourcesByRef
                 (filterResourcesByType (resources vpcStackInfo)
                    RESOURCE_TYPE_SECURITY_GROUP_INGRESS) ''GroupId'' lid) c)
               (case inboundRules_loop utils securityGroupsMap (inboundRules g) of
                  Inr rules \<Rightarrow> rules | Inl e \<Rightarrow> []))))"
    and writes: "writes = (\<lambda>l g. securityGroupsMap (securityGroupName g) = Some l \<and> l \<noteq> []
          \<and> outboundRules g \<noteq> [] \<and> new g l \<noteq> [])"
  shows "\<exists>st' entries.
           securityGroupRules_loop utils v4 v6 securityGroupsMap physicalIds vpcItem vpcStackInfo
             groups st = Inr st'
         \<and> aseaResources st' = aseaResources st @ entries
         \<and> filter (\<lambda>entry. fst entry = EC2_SECURITY_GROUP_INGRESS) entries
             = concat (map (\<lambda>g. case securityGroupsMap (securityGroupName g) of
                  None \<Rightarrow> []
                | Some lid \<Rightarrow>
                    if lid = [] then []
                    else concat (replicate (length (outboundRules g)) (marked g lid))) groups)
         \<and> (\<forall>l. template st' l
               = (case List.find (writes l) (rev groups) of
                    None \<Rightarrow> template st l
                  | Some g \<Rightarrow> map_option (\<lambda>obj. obj\<lparr>attrs := (attrs obj)
                        (''securityGroupIngress'' \<mapsto> AIngress (new g l))\<rparr>) (template st l)))"
  using w
proof (induction groups arbitrary: st)
  case Nil
  then show ?case by simp
next
  case (Cons g groups)
  let ?contribution = "\<lambda>g. case securityGroupsMap (securityGroupName g) of
                  None \<Rightarrow> []
                | Some lid \<Rightarrow>
                    if lid = [] then []
                    else concat (replicate (length (outboundRules g)) (marked g lid))"
  let ?upd = "\<lambda>g l. map_option (\<lambda>obj. obj\<lparr>attrs := (attrs obj)
                        (''securityGroupIngress'' \<mapsto> AIngress (new g l))\<rparr>)"
  have wg: "\<forall>lid. securityGroupsMap (securityGroupName g) = Some lid \<and> lid \<noteq> []
          \<longrightarrow> (\<exists>rules. inboundRules_loop utils securityGroupsMap (inboundRules g) = Inr rules)
            \<and> (\<forall>item \<in> set (outboundRules g).
                  \<exists>rules. processRuleItem utils securityGroupsMap item = Inr rules)
            \<and> template st lid \<noteq> None"
    by (rule bspec[OF Cons.prems]) simp
  obtain st1 entries1 where st1:
      "securityGroupRules utils v4 v6 securityGroupsMap physicalIds vpcItem vpcStackInfo g st
         = Inr st1"
      "aseaResources st1 = aseaResources st @ entries1"
      "filter (\<lambda>entry. fst entry = EC2_SECURITY_GROUP_INGRESS) entries1 = ?contribution g"
      "\<forall>l. template st1 l = (if writes l g then ?upd g l (template st l) else template st l)"
    using securityGroupRules_result[OF wg marked new writes] by blast
  have dom: "template st1 l \<noteq> None \<longleftrightarrow> template st l \<noteq> None" for l
    using st1(4) by simp
  have wrest: "\<forall>g \<in> set groups. \<forall>lid.
          securityGroupsMap (securityGroupName g) = Some lid \<and> lid \<noteq> []
          \<longrightarrow> (\<exists>rules. inboundRules_loop utils securityGroupsMap (inboundRules g) = Inr rules)
            \<and> (\<forall>item \<in> set (outboundRules g).
                  \<exists>rules. processRuleItem utils securityGroupsMap item = Inr rules)
            \<and> template st1 lid \<noteq> None"
  proof (intro ballI allI impI)
    fix g' lid
    assume i: "g' \<in> set groups"
      and h: "securityGroupsMap (securityGroupName g') = Some lid \<and> lid \<noteq> []"
    have "g' \<in> set (g # groups)" using i by simp
    from bspec[OF Cons.prems this] h
    have "(\<exists>rules. inboundRules_loop utils securityGroupsMap (inboundRules g') = Inr rules)
            \<and> (\<forall>item \<in> set (outboundRules g').
                  \<exists>rules. processRuleItem utils securityGroupsMap item = Inr rules)
            \<and> template st lid \<noteq> None"
      by blast
    then show "(\<exists>rules. inboundRules_loop utils securityGroupsMap (inboundRules g') = Inr rules)
            \<and> (\<forall>item \<in> set (outboundRules g').
                  \<exists>rules. processRuleItem utils securityGroupsMap item = Inr rules)
            \<and> template st1 lid \<noteq> None"
      using dom by blast
  qed
  obtain st' entries where st':
      "securityGroupRules_loop utils v4 v6 securityGroupsMap physicalIds vpcItem vpcStackInfo
             groups st1 = Inr st'"
      "aseaResources st' = aseaResources st1 @ entries"
      "filter (\<lambda>entry. fst entry = EC2_SECURITY_GROUP_INGRESS) entries
         = concat (map ?contribution groups)"
      "\<forall>l. template st' l
               = (case List.find (writes l) (rev groups) of
                    None \<Rightarrow> template st1 l
                  | Some g \<Rightarrow> ?upd g l (template st1 l))"
    using Cons.IH[OF wrest] by blast
  have 1: "securityGroupRules_loop utils v4 v6 securityGroupsMap physicalIds vpcItem vpcStackInfo
             (g # groups) st = Inr st'"
    using st1(1) st'(1) by simp
  have 2: "aseaResources st' = aseaResources st @ (entries1 @ entries)"
    using st1(2) st'(2) by simp
  have 3: "filter (\<lambda>entry. fst entry = EC2_SECURITY_GROUP_INGRESS) (entries1 @ entries)
         = concat (map ?contribution (g # groups))"
    using st1(3) st'(3) by simp
  have 4: "template st' l
               = (case List.find (writes l) (rev (g # groups)) of
                    None \<Rightarrow> template st l
                  | Some g \<Rightarrow> ?upd g l (template st l))" for l
  proof (cases "List.find (writes l) (rev groups)")
    case None
    then show ?thesis using st'(4) st1(4) by (simp add: find_snoc)
  next
    case (Some g')
    have "template st' l = ?upd g' l (template st1 l)" using st'(4) Some by simp
    also have "\<dots> = ?upd g' l (template st l)"
      using st1(4) by (simp add: update_twice)
    finally show ?thesis using Some by (simp add: find_snoc)
  qed
  show ?case using 1 2 3 4 by blast
qed

lemma securityGroups_loop_result:
  assumes "\<forall>g \<in> set groups. \<forall>r.
          findResourceByName (resources vpcStackInfo) ''GroupName'' (securityGroupName g) = Some r
          \<longrightarrow> template st (logicalResourceId r) \<noteq> None"
  shows "\<exists>st1 entries.
           securityGroups_loop env vpcItem vpcStackInfo groups (m0, p0) st
             = Inr (((\<lambda>n. case (if n \<in> securityGroupName ` set groups
                                then findResourceByName (resources vpcStackInfo) ''GroupName'' n
                                else None) of
                           None \<Rightarrow> m0 n | Some r \<Rightarrow> Some (logicalResourceId r)),
                     (\<lambda>n. case (if n \<in> securityGroupName ` set groups
                                then findResourceByName (resources vpcStackInfo) ''GroupName'' n
                                else None) of
                           None \<Rightarrow> p0 n | Some r \<Rightarrow> Some (physicalResourceId r))), st1)
         \<and> template st1 = template st
         \<and> aseaResources st1 = aseaResources st @ entries
         \<and> filter (\<lambda>entry. fst entry = EC2_SECURITY_GROUP_INGRESS) entries = []"
  using assms
proof (induction groups arbitrary: m0 p0 st)
  case Nil
  then show ?case by simp
next
  case (Cons g groups)
  let ?f = "\<lambda>n. findResourceByName (resources vpcStackInfo) ''GroupName'' n"
  show ?case
  proof (cases "?f (securityGroupName g)")
    case None
    have "\<forall>g \<in> set groups. \<forall>r. ?f (securityGroupName g) = Some r
          \<longrightarrow> template st (logicalResourceId r) \<noteq> None"
      using Cons.prems by simp
    from Cons.IH[OF this, of m0 p0] obtain st1 entries where r:
      "securityGroups_loop env vpcItem vpcStackInfo groups (m0, p0) st
             = Inr (((\<lambda>n. case (if n \<in> securityGroupName ` set groups then ?f n else None) of
                           None \<Rightarrow> m0 n | Some r \<Rightarrow> Some (logicalResourceId r)),
                     (\<lambda>n. case (if n \<in> securityGroupName ` set groups then ?f n else None) of
                           None \<Rightarrow> p0 n | Some r \<Rightarrow> Some (physicalResourceId r))), st1)"
      "template st1 = template st" "aseaResources st1 = aseaResources st @ entries"
      "filter (\<lambda>entry. fst entry = EC2_SECURITY_GROUP_INGRESS) entries = []"
      by blast
    have m: "(\<lambda>n. case (if n \<in> securityGroupName ` set groups then ?f n else None) of
                           None \<Rightarrow> m0 n | Some r \<Rightarrow> Some (logicalResourceId r))
        = (\<lambda>n. case (if n \<in> securityGroupName ` set (g # groups) then ?f n else None) of
                           None \<Rightarrow> m0 n | Some r \<Rightarrow> Some (logicalResourceId r))"
      using None by (auto simp: fun_eq_iff)
    have p: "(\<lambda>n. case (if n \<in> securityGroupName ` set groups then ?f n else None) of
                           None \<Rightarrow> p0 n | Some r \<Rightarrow> Some (physicalResourceId r))
        = (\<lambda>n. case (if n \<in> securityGroupName ` set (g # groups) then ?f n else None) of
                           None \<Rightarrow> p0 n | Some r \<Rightarrow> Some (physicalResourceId r))"
      using None by (auto simp: fun_eq_iff)
    have step: "securityGroups_loop env vpcItem vpcStackInfo (g # groups) (m0, p0) st
        = securityGroups_loop env vpcItem vpcStackInfo groups (m0, p0) st"
      using None by simp
    show ?thesis unfolding step using r unfolding m p by blast
  next
    case (Some existing)
    obtain obj where obj: "template st (logicalResourceId existing) = Some obj"
      using Cons.prems Some by auto
    let ?m1 = "m0(securityGroupName g \<mapsto> logicalResourceId existing)"
    let ?p1 = "p0(securityGroupName g \<mapsto> physicalResourceId existing)"
    let ?st0 = "addAseaResource EC2_SECURITY_GROUP
                    (vpcName vpcItem @ ''/'' @ securityGroupName g)
                    (addSsmParameter
                       \<lparr>logicalId = pascalCase env (''SsmParam''
                            @ pascalCase env (vpcName vpcItem)
                            @ pascalCase env (securityGroupName g)
                            @ ''SecurityGroup''),
                        parameterName = getSsmPath env SSM_SECURITY_GROUP
                            [vpcName vpcItem, securityGroupName g],
                        stringValue = ref obj\<rparr> st)"
    have step: "securityGroups_loop env vpcItem vpcStackInfo (g # groups) (m0, p0) st
        = securityGroups_loop env vpcItem vpcStackInfo groups (?m1, ?p1) ?st0"
      using Some obj by (simp add: getResource_def)
    have t0: "template ?st0 = template st" by simp
    have a0: "aseaResources ?st0 = aseaResources st
        @ [(EC2_SECURITY_GROUP, vpcName vpcItem @ ''/'' @ securityGroupName g)]"
      by (simp add: addAseaResource_def addSsmParameter_def)
    have "\<forall>g \<in> set groups. \<forall>r. ?f (securityGroupName g) = Some r
          \<longrightarrow> template ?st0 (logicalResourceId r) \<noteq> None"
      unfolding t0 using Cons.prems by simp
    from Cons.IH[OF this, of ?m1 ?p1] obtain st1 entries where r:
      "securityGroups_loop env vpcItem vpcStackInfo groups (?m1, ?p1) ?st0
             = Inr (((\<lambda>n. case (if n \<in> securityGroupName ` set groups then ?f n else None) of
                           None \<Rightarrow> ?m1 n | Some r \<Rightarrow> Some (logicalResourceId r)),
                     (\<lambda>n. case (if n \<in> securityGroupName ` set groups then ?f n else None) of
                           None \<Rightarrow> ?p1 n | Some r \<Rightarrow> Some (physicalResourceId r))), st1)"
      "template st1 = template ?st0" "aseaResources st1 = aseaResources ?st0 @ entries"
      "filter (\<lambda>entry. fst entry = EC2_SECURITY_GROUP_INGRESS) entries = []"
      by blast
    have m: "(\<lambda>n. case (if n \<in> securityGroupName ` set groups then ?f n else None) of
                           None \<Rightarrow> ?m1 n | Some r \<Rightarrow> Some (logicalResourceId r))
        = (\<lambda>n. case (if n \<in> securityGroupName ` set (g # groups) then ?f n else None) of
                           None \<Rightarrow> m0 n | Some r \<Rightarrow> Some (logicalResourceId r))"
      using Some by (auto simp: fun_eq_iff split: option.splits)
    have p: "(\<lambda>n. case (if n \<in> securityGroupName ` set groups then ?f n else None) of
                           None \<Rightarrow> ?p1 n | Some r \<Rightarrow> Some (physicalResourceId r))
        = (\<lambda>n. case (if n \<in> securityGroupName ` set (g # groups) then ?f n else None) of
                           None \<Rightarrow> p0 n | Some r \<Rightarrow> Some (physicalResourceId r))"
      using Some by (auto simp: fun_eq_iff split: option.splits)
    have 2: "template st1 = template st" using r(2) t0 by simp
    have 3: "aseaResources st1 = aseaResources st
        @ ((EC2_SECURITY_GROUP, vpcName vpcItem @ ''/'' @ securityGroupName g) # entries)"
      using r(3) a0 by simp
    have 4: "filter (\<lambda>entry. fst entry = EC2_SECURITY_GROUP_INGRESS)
        ((EC2_SECURITY_GROUP, vpcName vpcItem @ ''/'' @ securityGroupName g) # entries) = []"
      using r(4) by simp
    show ?thesis unfolding step using r(1) 2 3 4 unfolding m p by blast
  qed
qed

lemma set_concat_replicate:
  "set (concat (replicate n xs)) = (if n = 0 then {} else set xs)"
  by (induction n) auto

lemma find_skip:
  "\<forall>x \<in> set xs. \<not> P x \<Longrightarrow> List.find P (xs @ ys) = List.find P ys"
  by (induction xs) auto

lemma find_last:
  assumes "\<forall>x \<in> set after. \<not> P x" and "P y"
  shows "List.find P (rev (before @ y # after)) = Some y"
proof -
  have "List.find P (rev after @ y # rev before) = List.find P (y # rev before)"
    using assms(1) by (intro find_skip) simp
  then show ?thesis using assms(2) by simp
qed

lemma concat_map_member:
  "x \<in> set (f g) \<Longrightarrow> g \<in> set gs \<Longrightarrow> x \<in> set (concat (map f gs))"
  by auto

lemma concat_map_source:
  "x \<in> set (concat (map f gs)) \<Longrightarrow> \<exists>g \<in> set gs. x \<in> set (f g)"
  by auto

lemma createSecurityGroups_result:
  assumes groups: "groups = (case securityGroups vpcItem of None \<Rightarrow> [] | Some items \<Rightarrow> items)"
    and securityGroupsMap: "securityGroupsMap = (\<lambda>n.
          if n \<in> securityGroupName ` set groups
          then map_option logicalResourceId
                 (findResourceByName (resources vpcStackInfo) ''GroupName'' n)
          else None)"
    and physicalIds: "physicalIds = (\<lambda>n.
          if n \<in> securityGroupName ` set groups
          then map_option physicalResourceId
                 (findResourceByName (resources vpcStackInfo) ''GroupName'' n)
          else None)"
    and w1: "\<forall>g \<in> set groups. \<forall>r.
          findResourceByName (resources vpcStackInfo) ''GroupName'' (securityGroupName g) = Some r
          \<longrightarrow> template st (logicalResourceId r) \<noteq> None"
    and w2: "\<forall>g \<in> set groups. \<forall>lid.
          securityGroupsMap (securityGroupName g) = Some lid \<and> lid \<noteq> []
          \<longrightarrow> (\<exists>rules. inboundRules_loop utils securityGroupsMap (inboundRules g) = Inr rules)
            \<and> (\<forall>item \<in> set (outboundRules g).
                  \<exists>rules. processRuleItem utils securityGroupsMap item = Inr rules)"
    and marked: "marked = (\<lambda>g lid.
          map (\<lambda>c. (EC2_SECURITY_GROUP_INGRESS,
                  ruleIdentifier (vpcName vpcItem) (securityGroupName g) ''ingress'' c))
            (filter (existingIngressRuleEntry (filterResourcesByRef
                 (filterResourcesByType (resources vpcStackInfo)
                    RESOURCE_TYPE_SECURITY_GROUP_INGRESS) ''GroupId'' lid))
               (case inboundRules_loop utils securityGroupsMap (inboundRules g) of
                  Inr rules \<Rightarrow> rules | Inl e \<Rightarrow> [])))"
    and new: "new = (\<lambda>g lid.
          concat (map (newIngressRules v4 v6 physicalIds)
            (filter (\<lambda>c. \<not> existingIngressRuleEntry (filterResourcesByRef
                 (filterResourcesByType (resources vpcStackInfo)
                    RESOURCE_TYPE_SECURITY_GROUP_INGRESS) ''GroupId'' lid) c)
               (case inboundRules_loop utils securityGroupsMap (inboundRules g) of
                  Inr rules \<Rightarrow> rules | Inl e \<Rightarrow> []))))"
    and writes: "writes = (\<lambda>l g. securityGroupsMap (securityGroupName g) = Some l \<and> l \<noteq> []
          \<and> outboundRules g \<noteq> [] \<and> new g l \<noteq> [])"
  shows "\<exists>st' entries.
           createSecurityGroups env utils v4 v6 vpcItem vpcStackInfo st = Inr st'
         \<and> aseaResources st' = aseaResources st @ entries
         \<and> filter (\<lambda>entry. fst entry = EC2_SECURITY_GROUP_INGRESS) entries
             = concat (map (\<lambda>g. case securityGroupsMap (securityGroupName g) of
                  None \<Rightarrow> []
                | Some lid \<Rightarrow>
                    if lid = [] then []
                    else concat (replicate (length (outboundRules g)) (marked g lid))) groups)
         \<and> (\<forall>l. template st' l
               = (case List.find (writes l) (rev groups) of
                    None \<Rightarrow> template st l
                  | Some g \<Rightarrow> map_option (\<lambda>obj. obj\<lparr>attrs := (attrs obj)
                        (''securityGroupIngress'' \<mapsto> AIngress (new g l))\<rparr>) (template st l)))"
proof -
  let ?f = "\<lambda>n. findResourceByName (resources vpcStackInfo) ''GroupName'' n"
  obtain st1 entries1 where first:
      "securityGroups_loop env vpcItem vpcStackInfo groups (Map.empty, Map.empty) st
         = Inr (((\<lambda>n. case (if n \<in> securityGroupName ` set groups then ?f n else None) of
                       None \<Rightarrow> Map.empty n | Some r \<Rightarrow> Some (logicalResourceId r)),
                 (\<lambda>n. case (if n \<in> securityGroupName ` set groups then ?f n else None) of
                       None \<Rightarrow> Map.empty n | Some r \<Rightarrow> Some (physicalResourceId r))), st1)"
      "template st1 = template st" "aseaResources st1 = aseaResources st @ entries1"
      "filter (\<lambda>entry. fst entry = EC2_SECURITY_GROUP_INGRESS) entries1 = []"
    using securityGroups_loop_result[OF w1, of env vpcItem Map.empty Map.empty] by blast
  have m: "(\<lambda>n. case (if n \<in> securityGroupName ` set groups then ?f n else None) of
                       None \<Rightarrow> Map.empty n | Some r \<Rightarrow> Some (logicalResourceId r))
      = securityGroupsMap"
    unfolding securityGroupsMap by (auto simp: fun_eq_iff split: option.splits)
  have p: "(\<lambda>n. case (if n \<in> securityGroupName ` set groups then ?f n else None) of
                       None \<Rightarrow> Map.empty n | Some r \<Rightarrow> Some (physicalResourceId r))
      = physicalIds"
    unfolding physicalIds by (auto simp: fun_eq_iff split: option.splits)
  have w: "\<forall>g \<in> set groups. \<forall>lid.
          securityGroupsMap (securityGroupName g) = Some lid \<and> lid \<noteq> []
          \<longrightarrow> (\<exists>rules. inboundRules_loop utils securityGroupsMap (inboundRules g) = Inr rules)
            \<and> (\<forall>item \<in> set (outboundRules g).
                  \<exists>rules. processRuleItem utils securityGroupsMap item = Inr rules)
            \<and> template st1 lid \<noteq> None"
  proof (intro ballI allI impI)
    fix g lid
    assume i: "g \<in> set groups"
      and h: "securityGroupsMap (securityGroupName g) = Some lid \<and> lid \<noteq> []"
    obtain r where "?f (securityGroupName g) = Some r" "lid = logicalResourceId r"
      using h i unfolding securityGroupsMap by (auto split: if_splits)
    then have "template st1 lid \<noteq> None" using w1 i first(2) by auto
    then show "(\<exists>rules. inboundRules_loop utils securityGroupsMap (inboundRules g) = Inr rules)
            \<and> (\<forall>item \<in> set (outboundRules g).
                  \<exists>rules. processRuleItem utils securityGroupsMap item = Inr rules)
            \<and> template st1 lid \<noteq> None"
      using bspec[OF w2 i] h by blast
  qed
  obtain st' entries2 where second:
      "securityGroupRules_loop utils v4 v6 securityGroupsMap physicalIds vpcItem vpcStackInfo
             groups st1 = Inr st'"
      "aseaResources st' = aseaResources st1 @ entries2"
      "filter (\<lambda>entry. fst entry = EC2_SECURITY_GROUP_INGRESS) entries2
             = concat (map (\<lambda>g. case securityGroupsMap (securityGroupName g) of
                  None \<Rightarrow> []
                | Some lid \<Rightarrow>
                    if lid = [] then []
                    else concat (replicate (length (outboundRules g)) (marked g lid))) groups)"
      "\<forall>l. template st' l
               = (case List.find (writes l) (rev groups) of
                    None \<Rightarrow> template st1 l
                  | Some g \<Rightarrow> map_option (\<lambda>obj. obj\<lparr>attrs := (attrs obj)
                        (''securityGroupIngress'' \<mapsto> AIngress (new g l))\<rparr>) (template st1 l))"
    using securityGroupRules_loop_result[OF w marked new writes] by blast
  have run: "createSecurityGroups env utils v4 v6 vpcItem vpcStackInfo st = Inr st'"
    using first(1) second(1) unfolding m p
    by (simp add: createSecurityGroups_def groups[symmetric])
  have 2: "aseaResources st' = aseaResources st @ (entries1 @ entries2)"
    using first(3) second(2) by simp
  have 3: "filter (\<lambda>entry. fst entry = EC2_SECURITY_GROUP_INGRESS) (entries1 @ entries2)
             = concat (map (\<lambda>g. case securityGroupsMap (securityGroupName g) of
                  None \<Rightarrow> []
                | Some lid \<Rightarrow>
                    if lid = [] then []
                    else concat (replicate (length (outboundRules g)) (marked g lid))) groups)"
    using first(4) second(3) by simp
  have 4: "\<forall>l. template st' l
               = (case List.find (writes l) (rev groups) of
                    None \<Rightarrow> template st l
                  | Some g \<Rightarrow> map_option (\<lambda>obj. obj\<lparr>attrs := (attrs obj)
                        (''securityGroupIngress'' \<mapsto> AIngress (new g l))\<rparr>) (template st l))"
    using second(4) unfolding first(2) .
  show ?thesis using run 2 3 4 by blast
qed

lemma scenario_inbound:
  "inboundRules_loop example_utils m (inboundRules (sg_mgmt [443] [] outbound)) = Inr [rule_https]"
  "inboundRules_loop example_utils m (inboundRules (sg_mgmt [] [''ICMP''] outbound))
     = Inr [rule_icmp]"
  "inboundRules_loop example_utils m (inboundRules (sg_mgmt [0] [] outbound)) = Inr [rule_port0]"
  by (simp_all add: sg_mgmt_def rule_item_def processRuleItem_def processTcpSources_def
      processUdpSources_def processTypeSources_def processSecurityGroupSources_def pushAll_def
      ruleInfo_def TCP_PROTOCOLS_PORT_def rule_https_def rule_icmp_def rule_port0_def)

lemma scenario_outbound:
  "\<exists>rules. processRuleItem example_utils m (rule_item [] [''ALL''] ''0.0.0.0/0'') = Inr rules"
  by (simp add: rule_item_def processRuleItem_def processTcpSources_def
      processUdpSources_def processTypeSources_def processSecurityGroupSources_def pushAll_def)

lemma scenario_match:
  "findResourceByName (resources (stack_groups legacyRules)) ''GroupName'' ''Mgmt''
     = Some sg_mgmt_legacy"
  by (simp add: findResourceByName_def getProperty_def stack_groups_def vpc_prod_def
      sg_mgmt_legacy_def)

lemma scenario_legacy:
  "filterResourcesByRef (filterResourcesByType (resources (stack_groups [legacy_ssh, legacy_https]))
       RESOURCE_TYPE_SECURITY_GROUP_INGRESS) ''GroupId'' ''MgmtSg'' = [legacy_ssh, legacy_https]"
  "filterResourcesByRef (filterResourcesByType (resources (stack_groups [legacy_ssh]))
       RESOURCE_TYPE_SECURITY_GROUP_INGRESS) ''GroupId'' ''MgmtSg'' = [legacy_ssh]"
  by (simp_all add: filterResourcesByRef_def filterResourcesByType_def getProperty_def
      stack_groups_def vpc_prod_def sg_mgmt_legacy_def legacy_ssh_def legacy_https_def
      legacy_rule_def)

text \<open>
  C3, as stated, fails in the direction "agrees, hence existing". A target rule that is not
  of type ALL and has no port (here the type ICMP, for which the port table has no entry)
  agrees with a legacy rule of the group that has no port either, and the classifier does
  not mark it as existing: outside the ALL branch a legacy port must be present to count.
  The run registers no ingress entry for the rule and assigns the rule objects made for it
  to the ingress list of the group as new ones. The same guard reads the legacy port 0 as
  absent, so a target rule on port 0 is not marked as existing beside the identical legacy
  rule.
\<close>

theorem ingress_classification_counterexample:
  "spec_rule_agrees legacy_no_ports rule_icmp
     \<and> \<not> existingIngressRuleEntry [legacy_no_ports] rule_icmp
     \<and> spec_rule_agrees legacy_port0 rule_port0
     \<and> \<not> existingIngressRuleEntry [legacy_port0] rule_port0
     \<and> inboundRules_loop example_utils [''Mgmt'' \<mapsto> ''MgmtSg'']
          (inboundRules (sg_mgmt [] [''ICMP''] [rule_item [] [''ALL''] ''0.0.0.0/0'']))
        = Inr [rule_icmp]
     \<and> (\<exists>st' securityGroup.
           createSecurityGroups example_env example_utils (\<lambda>s. True) (\<lambda>s. False)
             (groups_vpc (sg_mgmt [] [''ICMP''] [rule_item [] [''ALL''] ''0.0.0.0/0'']))
             (stack_groups [legacy_no_ports]) groups_state = Inr st'
         \<and> aseaResources st' = [(EC2_SECURITY_GROUP, ''Prod/Mgmt'')]
         \<and> template st' ''MgmtSg'' = Some securityGroup
         \<and> attrs securityGroup ''securityGroupIngress''
             = Some (AIngress
                 [(ingressProperty rule_icmp)\<lparr>ingressFromPort := None, ingressToPort := None\<rparr>,
                  (ingressProperty rule_icmp)\<lparr>ingressFromPort := None, ingressToPort := None,
                     cidrIp := Some ''10.0.0.0/16''\<rparr>]))"
proof -
  have flags: "spec_rule_agrees legacy_no_ports rule_icmp
     \<and> \<not> existingIngressRuleEntry [legacy_no_ports] rule_icmp
     \<and> spec_rule_agrees legacy_port0 rule_port0
     \<and> \<not> existingIngressRuleEntry [legacy_port0] rule_port0"
    by (simp add: spec_rule_agrees_def ingressRuleMatches_def getProperty_def eq_number_def
        eq_string_def legacy_no_ports_def legacy_port0_def legacy_rule_def rule_icmp_def
        rule_port0_def)
  have run: "\<exists>st' securityGroup.
           createSecurityGroups example_env example_utils (\<lambda>s. True) (\<lambda>s. False)
             (groups_vpc (sg_mgmt [] [''ICMP''] [rule_item [] [''ALL''] ''0.0.0.0/0'']))
             (stack_groups [legacy_no_ports]) groups_state = Inr st'
         \<and> aseaResources st' = [(EC2_SECURITY_GROUP, ''Prod/Mgmt'')]
         \<and> template st' ''MgmtSg'' = Some securityGroup
         \<and> attrs securityGroup ''securityGroupIngress''
             = Some (AIngress
                 [(ingressProperty rule_icmp)\<lparr>ingressFromPort := None, ingressToPort := None\<rparr>,
                  (ingressProperty rule_icmp)\<lparr>ingressFromPort := None, ingressToPort := None,
                     cidrIp := Some ''10.0.0.0/16''\<rparr>])"
    by (simp add: createSecurityGroups_def groups_vpc_def example_vpc_def sg_mgmt_def rule_item_def
      stack_groups_def vpc_prod_def sg_mgmt_legacy_def legacy_no_ports_def legacy_rule_def
      groups_state_def example_env_def example_utils_def findResourceByName_def getProperty_def
      getResource_def securityGroupRules_def filterResourcesByRef_def filterResourcesByType_def
      processRuleItem_def processTcpSources_def processUdpSources_def processTypeSources_def
      processSecurityGroupSources_def pushAll_def ruleInfo_def TCP_PROTOCOLS_PORT_def
      classifyIngressRules_eq ingressRuleMatches_def eq_number_def eq_string_def
      registerAll_eq addAseaResource_def addSsmParameter_def assign_def rule_icmp_def
      existingEgressRuleEntry_def egressRuleMatches_def newIngressRules_def
      checkCidrFromSource_def ingressProperty_def Let_def)
  show ?thesis using flags scenario_inbound(2) run by blast
qed

text \<open>
  C3, amended. The merger classifies the configured ingress rules of a security group only
  inside its loop over the outbound rule items of that group, and only for a group that
  is matched by name to a legacy security group.

  The mark: for every configured ingress rule with a non-empty protocol and source value
  that is of type ALL or has non-zero from- and to-ports, the classifier sets the mark
  "existing" if and only if some legacy ingress rule agrees on protocol, from-port and
  to-port, and on either the CIDR source or the referenced security-group identifier; a
  marked rule always has such a legacy rule; a rule whose from- or to-port differs from
  that of every legacy rule is never marked, and unless it is of type ALL the rule objects
  made for it include one with its protocol and ports. The mark depends on the legacy
  property bags only, not on the order of their keys.

  The run: where the template holds the objects of the matched legacy groups and the
  configured rule items expand without an exception, the merger returns; for a matched
  group with at least one outbound rule item every marked ingress rule is registered as
  an existing ingress rule, every ingress entry registered in the run is that of a marked
  rule of such a group, and the rule objects of the unmarked rules, when there are any,
  are assigned to the ingress list of the group's object (the last group of the
  configuration that is matched to the object deciding).
\<close>

theorem ingress_rule_classification:
  assumes groups: "groups = (case securityGroups vpcItem of None \<Rightarrow> [] | Some items \<Rightarrow> items)"
    and securityGroupsMap: "securityGroupsMap = (\<lambda>n.
          if n \<in> securityGroupName ` set groups
          then map_option logicalResourceId
                 (findResourceByName (resources vpcStackInfo) ''GroupName'' n)
          else None)"
    and physicalIds: "physicalIds = (\<lambda>n.
          if n \<in> securityGroupName ` set groups
          then map_option physicalResourceId
                 (findResourceByName (resources vpcStackInfo) ''GroupName'' n)
          else None)"
    and legacy: "legacy = (\<lambda>lid. filterResourcesByRef
          (filterResourcesByType (resources vpcStackInfo) RESOURCE_TYPE_SECURITY_GROUP_INGRESS)
          ''GroupId'' lid)"
  shows "(protocol c \<noteq> [] \<and> sourceValue c \<noteq> []
      \<and> (ruleType c \<noteq> Some ''ALL'' \<longrightarrow>
            (\<exists>p q. fromPort c = Some p \<and> toPort c = Some q \<and> p \<noteq> 0 \<and> q \<noteq> 0))
      \<longrightarrow> (existingIngressRuleEntry ingressRules c
             \<longleftrightarrow> (\<exists>r \<in> set ingressRules. spec_rule_agrees r c)))
   \<and> (existingIngressRuleEntry ingressRules c \<longrightarrow> (\<exists>r \<in> set ingressRules. spec_rule_agrees r c))
   \<and> ((\<forall>r \<in> set ingressRules.
          getProperty r ''FromPort'' \<noteq> map_option PNum (fromPort c)
          \<or> getProperty r ''ToPort'' \<noteq> map_option PNum (toPort c))
      \<longrightarrow> \<not> existingIngressRuleEntry ingressRules c)
   \<and> (ruleType c \<noteq> Some ''ALL''
      \<longrightarrow> (ingressProperty c)\<lparr>ingressFromPort := fromPort c, ingressToPort := toPort c\<rparr>
            \<in> set (newIngressRules v4 v6 physicalIds c))
   \<and> (list_all2 same_properties ingressRules ingressRules'
      \<longrightarrow> existingIngressRuleEntry ingressRules c = existingIngressRuleEntry ingressRules' c)
   \<and> ((\<forall>g \<in> set groups. \<forall>r.
          findResourceByName (resources vpcStackInfo) ''GroupName'' (securityGroupName g) = Some r
          \<longrightarrow> template st (logicalResourceId r) \<noteq> None)
       \<and> (\<forall>g \<in> set groups. \<forall>lid.
          securityGroupsMap (securityGroupName g) = Some lid \<and> lid \<noteq> []
          \<longrightarrow> (\<exists>rules. inboundRules_loop utils securityGroupsMap (inboundRules g) = Inr rules)
            \<and> (\<forall>item \<in> set (outboundRules g).
                  \<exists>rules. processRuleItem utils securityGroupsMap item = Inr rules))
      \<longrightarrow> (\<exists>st' entries.
            createSecurityGroups env utils v4 v6 vpcItem vpcStackInfo st = Inr st'
          \<and> aseaResources st' = aseaResources st @ entries
          \<and> (\<forall>g \<in> set groups. \<forall>lid rules.
                securityGroupsMap (securityGroupName g) = Some lid \<and> lid \<noteq> []
                \<and> outboundRules g \<noteq> []
                \<and> inboundRules_loop utils securityGroupsMap (inboundRules g) = Inr rules
                \<longrightarrow> (\<forall>configIngressRule \<in> set rules.
                       existingIngressRuleEntry (legacy lid) configIngressRule
                       \<longrightarrow> (EC2_SECURITY_GROUP_INGRESS,
                             ruleIdentifier (vpcName vpcItem) (securityGroupName g) ''ingress''
                               configIngressRule) \<in> set entries))
          \<and> (\<forall>entry \<in> set entries. fst entry = EC2_SECURITY_GROUP_INGRESS
                \<longrightarrow> (\<exists>g \<in> set groups. \<exists>lid rules.
                       securityGroupsMap (securityGroupName g) = Some lid \<and> lid \<noteq> []
                       \<and> outboundRules g \<noteq> []
                       \<and> inboundRules_loop utils securityGroupsMap (inboundRules g) = Inr rules
                       \<and> (\<exists>configIngressRule \<in> set rules.
                             existingIngressRuleEntry (legacy lid) configIngressRule
                             \<and> entry = (EC2_SECURITY_GROUP_INGRESS,
                                 ruleIdentifier (vpcName vpcItem) (securityGroupName g)
                                   ''ingress'' configIngressRule))))
          \<and> (\<forall>before g after lid rules.
                groups = before @ g # after
                \<and> securityGroupsMap (securityGroupName g) = Some lid \<and> lid \<noteq> []
                \<and> outboundRules g \<noteq> []
                \<and> (\<forall>later \<in> set after. securityGroupsMap (securityGroupName later) \<noteq> Some lid)
                \<and> inboundRules_loop utils securityGroupsMap (inboundRules g) = Inr rules
                \<and> concat (map (newIngressRules v4 v6 physicalIds)
                     (filter (\<lambda>configIngressRule.
                        \<not> existingIngressRuleEntry (legacy lid) configIngressRule) rules)) \<noteq> []
                \<longrightarrow> (\<exists>securityGroup. template st lid = Some securityGroup
                       \<and> template st' lid = Some (securityGroup\<lparr>attrs := (attrs securityGroup)
                           (''securityGroupIngress'' \<mapsto> AIngress
                              (concat (map (newIngressRules v4 v6 physicalIds)
                                 (filter (\<lambda>configIngressRule.
                                    \<not> existingIngressRuleEntry (legacy lid) configIngressRule)
                                    rules))))\<rparr>)))))"
proof -
  have a1: "existingIngressRuleEntry ingressRules c
             \<longleftrightarrow> (\<exists>r \<in> set ingressRules. spec_rule_agrees r c)"
    if side: "protocol c \<noteq> [] \<and> sourceValue c \<noteq> []
      \<and> (ruleType c \<noteq> Some ''ALL'' \<longrightarrow>
            (\<exists>p q. fromPort c = Some p \<and> toPort c = Some q \<and> p \<noteq> 0 \<and> q \<noteq> 0))"
    unfolding existingIngressRuleEntry_iff
    using side ingressRuleMatches_agrees agrees_ingressRuleMatches by blast
  have a2: "\<exists>r \<in> set ingressRules. spec_rule_agrees r c"
    if "existingIngressRuleEntry ingressRules c"
    using that unfolding existingIngressRuleEntry_iff using ingressRuleMatches_agrees by blast
  have a3: "\<not> existingIngressRuleEntry ingressRules c"
    if "\<forall>r \<in> set ingressRules.
          getProperty r ''FromPort'' \<noteq> map_option PNum (fromPort c)
          \<or> getProperty r ''ToPort'' \<noteq> map_option PNum (toPort c)"
    using that unfolding existingIngressRuleEntry_iff using port_differs_no_match by blast
  have a4: "(ingressProperty c)\<lparr>ingressFromPort := fromPort c, ingressToPort := toPort c\<rparr>
            \<in> set (newIngressRules v4 v6 physicalIds c)"
    if "ruleType c \<noteq> Some ''ALL''"
    using that by (simp add: newIngressRules_def Let_def)
  have a5: "existingIngressRuleEntry ingressRules c = existingIngressRuleEntry ingressRules' c"
    if "list_all2 same_properties ingressRules ingressRules'"
    using that by (rule existingIngressRuleEntry_same_properties)
  let ?marked = "\<lambda>g lid.
          map (\<lambda>c. (EC2_SECURITY_GROUP_INGRESS,
                  ruleIdentifier (vpcName vpcItem) (securityGroupName g) ''ingress'' c))
            (filter (existingIngressRuleEntry (legacy lid))
               (case inboundRules_loop utils securityGroupsMap (inboundRules g) of
                  Inr rules \<Rightarrow> rules | Inl e \<Rightarrow> []))"
  let ?new = "\<lambda>g lid.
          concat (map (newIngressRules v4 v6 physicalIds)
            (filter (\<lambda>c. \<not> existingIngressRuleEntry (legacy lid) c)
               (case inboundRules_loop utils securityGroupsMap (inboundRules g) of
                  Inr rules \<Rightarrow> rules | Inl e \<Rightarrow> [])))"
  let ?writes = "\<lambda>l g. securityGroupsMap (securityGroupName g) = Some l \<and> l \<noteq> []
          \<and> outboundRules g \<noteq> [] \<and> ?new g l \<noteq> []"
  let ?contribution = "\<lambda>g. case securityGroupsMap (securityGroupName g) of
                  None \<Rightarrow> []
                | Some lid \<Rightarrow>
                    if lid = [] then []
                    else concat (replicate (length (outboundRules g)) (?marked g lid))"
  have c: "\<exists>st' entries.
            createSecurityGroups env utils v4 v6 vpcItem vpcStackInfo st = Inr st'
          \<and> aseaResources st' = aseaResources st @ entries
          \<and> (\<forall>g \<in> set groups. \<forall>lid rules.
                securityGroupsMap (securityGroupName g) = Some lid \<and> lid \<noteq> []
                \<and> outboundRules g \<noteq> []
                \<and> inboundRules_loop utils securityGroupsMap (inboundRules g) = Inr rules
                \<longrightarrow> (\<forall>configIngressRule \<in> set rules.
                       existingIngressRuleEntry (legacy lid) configIngressRule
                       \<longrightarrow> (EC2_SECURITY_GROUP_INGRESS,
                             ruleIdentifier (vpcName vpcItem) (securityGroupName g) ''ingress''
                               configIngressRule) \<in> set entries))
          \<and> (\<forall>entry \<in> set entries. fst entry = EC2_SECURITY_GROUP_INGRESS
                \<longrightarrow> (\<exists>g \<in> set groups. \<exists>lid rules.
                       securityGroupsMap (securityGroupName g) = Some lid \<and> lid \<noteq> []
                       \<and> outboundRules g \<noteq> []
                       \<and> inboundRules_loop utils securityGroupsMap (inboundRules g) = Inr rules
                       \<and> (\<exists>configIngressRule \<in> set rules.
                             existingIngressRuleEntry (legacy lid) configIngressRule
                             \<and> entry = (EC2_SECURITY_GROUP_INGRESS,
                                 ruleIdentifier (vpcName vpcItem) (securityGroupName g)
                                   ''ingress'' configIngressRule))))
          \<and> (\<forall>before g after lid rules.
                groups = before @ g # after
                \<and> securityGroupsMap (securityGroupName g) = Some lid \<and> lid \<noteq> []
                \<and> outboundRules g \<noteq> []
                \<and> (\<forall>later \<in> set after. securityGroupsMap (securityGroupName later) \<noteq> Some lid)
                \<and> inboundRules_loop utils securityGroupsMap (inboundRules g) = Inr rules
                \<and> concat (map (newIngressRules v4 v6 physicalIds)
                     (filter (\<lambda>configIngressRule.
                        \<not> existingIngressRuleEntry (legacy lid) configIngressRule) rules)) \<noteq> []
                \<longrightarrow> (\<exists>securityGroup. template st lid = Some securityGroup
                       \<and> template st' lid = Some (securityGroup\<lparr>attrs := (attrs securityGroup)
                           (''securityGroupIngress'' \<mapsto> AIngress
                              (concat (map (newIngressRules v4 v6 physicalIds)
                                 (filter (\<lambda>configIngressRule.
                                    \<not> existingIngressRuleEntry (legacy lid) configIngressRule)
                                    rules))))\<rparr>)))"
    if wf: "(\<forall>g \<in> set groups. \<forall>r.
          findResourceByName (resources vpcStackInfo) ''GroupName'' (securityGroupName g) = Some r
          \<longrightarrow> template st (logicalResourceId r) \<noteq> None)
       \<and> (\<forall>g \<in> set groups. \<forall>lid.
          securityGroupsMap (securityGroupName g) = Some lid \<and> lid \<noteq> []
          \<longrightarrow> (\<exists>rules. inboundRules_loop utils securityGroupsMap (inboundRules g) = Inr rules)
            \<and> (\<forall>item \<in> set (outboundRules g).
                  \<exists>rules. processRuleItem utils securityGroupsMap item = Inr rules))"
  proof -
    note w1 = conjunct1[OF wf] and w2 = conjunct2[OF wf]
    have mk: "?marked = (\<lambda>g lid.
          map (\<lambda>c. (EC2_SECURITY_GROUP_INGRESS,
                  ruleIdentifier (vpcName vpcItem) (securityGroupName g) ''ingress'' c))
            (filter (existingIngressRuleEntry (filterResourcesByRef
                 (filterResourcesByType (resources vpcStackInfo)
                    RESOURCE_TYPE_SECURITY_GROUP_INGRESS) ''GroupId'' lid))
               (case inboundRules_loop utils securityGroupsMap (inboundRules g) of
                  Inr rules \<Rightarrow> rules | Inl e \<Rightarrow> [])))"
      unfolding legacy ..
    have nw: "?new = (\<lambda>g lid.
          concat (map (newIngressRules v4 v6 physicalIds)
            (filter (\<lambda>c. \<not> existingIngressRuleEntry (filterResourcesByRef
                 (filterResourcesByType (resources vpcStackInfo)
                    RESOURCE_TYPE_SECURITY_GROUP_INGRESS) ''GroupId'' lid) c)
               (case inboundRules_loop utils securityGroupsMap (inboundRules g) of
                  Inr rules \<Rightarrow> rules | Inl e \<Rightarrow> []))))"
      unfolding legacy ..
    obtain st' entries where r:
        "createSecurityGroups env utils v4 v6 vpcItem vpcStackInfo st = Inr st'"
        "aseaResources st' = aseaResources st @ entries"
        "filter (\<lambda>entry. fst entry = EC2_SECURITY_GROUP_INGRESS) entries
           = concat (map ?contribution groups)"
        "\<forall>l. template st' l
               = (case List.find (?writes l) (rev groups) of
                    None \<Rightarrow> template st l
                  | Some g \<Rightarrow> map_option (\<lambda>obj. obj\<lparr>attrs := (attrs obj)
                        (''securityGroupIngress'' \<mapsto> AIngress (?new g l))\<rparr>) (template st l))"
      using createSecurityGroups_result[OF groups securityGroupsMap physicalIds w1 w2 mk nw refl]
      by blast
    have i: "(EC2_SECURITY_GROUP_INGRESS,
               ruleIdentifier (vpcName vpcItem) (securityGroupName g) ''ingress'' x) \<in> set entries"
      if g: "g \<in> set groups"
        and h: "securityGroupsMap (securityGroupName g) = Some lid \<and> lid \<noteq> []
                \<and> outboundRules g \<noteq> []
                \<and> inboundRules_loop utils securityGroupsMap (inboundRules g) = Inr rules"
        and x: "x \<in> set rules" "existingIngressRuleEntry (legacy lid) x"
      for g lid rules x
    proof -
      have "(EC2_SECURITY_GROUP_INGRESS,
               ruleIdentifier (vpcName vpcItem) (securityGroupName g) ''ingress'' x)
          \<in> set (?marked g lid)"
        using h x by auto
      then have "(EC2_SECURITY_GROUP_INGRESS,
               ruleIdentifier (vpcName vpcItem) (securityGroupName g) ''ingress'' x)
          \<in> set (?contribution g)"
        using h by (simp add: set_concat_replicate)
      then have "(EC2_SECURITY_GROUP_INGRESS,
               ruleIdentifier (vpcName vpcItem) (securityGroupName g) ''ingress'' x)
          \<in> set (concat (map ?contribution groups))"
        by (rule concat_map_member[where f = ?contribution, OF _ g])
      then have "(EC2_SECURITY_GROUP_INGRESS,
               ruleIdentifier (vpcName vpcItem) (securityGroupName g) ''ingress'' x)
          \<in> set (filter (\<lambda>entry. fst entry = EC2_SECURITY_GROUP_INGRESS) entries)"
        unfolding r(3) .
      then show ?thesis by simp
    qed
    have ii: "\<exists>g \<in> set groups. \<exists>lid rules.
                       securityGroupsMap (securityGroupName g) = Some lid \<and> lid \<noteq> []
                       \<and> outboundRules g \<noteq> []
                       \<and> inboundRules_loop utils securityGroupsMap (inboundRules g) = Inr rules
                       \<and> (\<exists>x \<in> set rules.
                             existingIngressRuleEntry (legacy lid) x
                             \<and> entry = (EC2_SECURITY_GROUP_INGRESS,
                                 ruleIdentifier (vpcName vpcItem) (securityGroupName g)
                                   ''ingress'' x))"
      if e: "entry \<in> set entries" "fst entry = EC2_SECURITY_GROUP_INGRESS" for entry
    proof -
      have "entry \<in> set (filter (\<lambda>entry. fst entry = EC2_SECURITY_GROUP_INGRESS) entries)"
        using e by simp
      then have "entry \<in> set (concat (map ?contribution groups))" unfolding r(3) .
      from concat_map_source[where f = ?contribution, OF this]
      obtain g where g: "g \<in> set groups" "entry \<in> set (?contribution g)" by blast
      have "securityGroupsMap (securityGroupName g) \<noteq> None"
        using g(2) by (cases "securityGroupsMap (securityGroupName g)") simp_all
      then obtain lid where l1: "securityGroupsMap (securityGroupName g) = Some lid" by blast
      have l2: "lid \<noteq> []" using g(2) l1 by (cases "lid = []") simp_all
      note lid = l1 l2
      have m: "entry \<in> set (concat (replicate (length (outboundRules g)) (?marked g lid)))"
        using g(2) l1 l2 by simp
      have o1: "outboundRules g \<noteq> []" using m by (cases "outboundRules g") simp_all
      have o2: "entry \<in> set (?marked g lid)"
        using m o1 unfolding set_concat_replicate by simp
      note o = o1 o2
      obtain rules where rules:
          "inboundRules_loop utils securityGroupsMap (inboundRules g) = Inr rules"
        using bspec[OF w2 g(1)] lid by blast
      have "\<exists>x \<in> set rules. existingIngressRuleEntry (legacy lid) x
                             \<and> entry = (EC2_SECURITY_GROUP_INGRESS,
                                 ruleIdentifier (vpcName vpcItem) (securityGroupName g)
                                   ''ingress'' x)"
        using o(2) rules by auto
      then show ?thesis using g(1) lid(1,2) o(1) rules by blast
    qed
    have iii: "\<exists>securityGroup. template st lid = Some securityGroup
                       \<and> template st' lid = Some (securityGroup\<lparr>attrs := (attrs securityGroup)
                           (''securityGroupIngress'' \<mapsto> AIngress
                              (concat (map (newIngressRules v4 v6 physicalIds)
                                 (filter (\<lambda>x. \<not> existingIngressRuleEntry (legacy lid) x)
                                    rules))))\<rparr>)"
      if h: "groups = before @ g # after
                \<and> securityGroupsMap (securityGroupName g) = Some lid \<and> lid \<noteq> []
                \<and> outboundRules g \<noteq> []
                \<and> (\<forall>later \<in> set after. securityGroupsMap (securityGroupName later) \<noteq> Some lid)
                \<and> inboundRules_loop utils securityGroupsMap (inboundRules g) = Inr rules
                \<and> concat (map (newIngressRules v4 v6 physicalIds)
                     (filter (\<lambda>x. \<not> existingIngressRuleEntry (legacy lid) x) rules)) \<noteq> []"
      for before g after lid rules
    proof -
      have g: "g \<in> set groups" using h by simp
      have n: "?new g lid = concat (map (newIngressRules v4 v6 physicalIds)
                     (filter (\<lambda>x. \<not> existingIngressRuleEntry (legacy lid) x) rules))"
        using h by simp
      have wg: "?writes lid g" using h n by simp
      have wa: "\<forall>later \<in> set after. \<not> ?writes lid later" using h by simp
      have f: "List.find (?writes lid) (rev groups) = Some g"
        using find_last[OF wa wg, of before] h by simp
      obtain r where "findResourceByName (resources vpcStackInfo) ''GroupName''
            (securityGroupName g) = Some r" "lid = logicalResourceId r"
        using h g unfolding securityGroupsMap by (auto split: if_splits)
      then have "template st lid \<noteq> None" using w1 g by auto
      then obtain securityGroup where o: "template st lid = Some securityGroup" by auto
      have "template st' lid = map_option (\<lambda>obj. obj\<lparr>attrs := (attrs obj)
                        (''securityGroupIngress'' \<mapsto> AIngress (?new g lid))\<rparr>) (template st lid)"
        using r(4) f by simp
      then show ?thesis using o n by simp
    qed
    show ?thesis
      apply (rule exI[of _ st'], rule exI[of _ entries])
      apply (intro conjI)
      subgoal by (rule r(1))
      subgoal by (rule r(2))
      subgoal using i by blast
      subgoal using ii by blast
      subgoal using iii by blast
      done
  qed
  show ?thesis
    apply (intro conjI)
    subgoal using a1 by blast
    subgoal using a2 by blast
    subgoal using a3 by blast
    subgoal using a4 by blast
    subgoal using a5 by blast
    subgoal using c by blast
    done
qed

theorem ingress_rule_classification_witness:
  "existingIngressRuleEntry [legacy_ssh, legacy_https] rule_https
     \<and> \<not> existingIngressRuleEntry [legacy_ssh] rule_https
     \<and> existingIngressRuleEntry [legacy_ssh, legacy_https_reordered] rule_https
     \<and> (\<exists>st' entries.
           createSecurityGroups example_env example_utils (\<lambda>s. True) (\<lambda>s. False)
             (groups_vpc (sg_mgmt [443] [] [rule_item [] [''ALL''] ''0.0.0.0/0'']))
             (stack_groups [legacy_ssh, legacy_https]) groups_state = Inr st'
         \<and> aseaResources st' = aseaResources groups_state @ entries
         \<and> (EC2_SECURITY_GROUP_INGRESS, ruleIdentifier ''Prod'' ''Mgmt'' ''ingress'' rule_https)
             \<in> set entries)
     \<and> (\<exists>st' securityGroup.
           createSecurityGroups example_env example_utils (\<lambda>s. True) (\<lambda>s. False)
             (groups_vpc (sg_mgmt [443] [] [rule_item [] [''ALL''] ''0.0.0.0/0'']))
             (stack_groups [legacy_ssh]) groups_state = Inr st'
         \<and> template st' ''MgmtSg'' = Some securityGroup
         \<and> attrs securityGroup ''securityGroupIngress''
             = Some (AIngress
                 [(ingressProperty rule_https)\<lparr>ingressFromPort := Some 443,
                     ingressToPort := Some 443\<rparr>,
                  (ingressProperty rule_https)\<lparr>ingressFromPort := Some 443,
                     ingressToPort := Some 443, cidrIp := Some ''10.0.0.0/16''\<rparr>]))"
proof -
  let ?sg = "sg_mgmt [443] [] [rule_item [] [''ALL''] ''0.0.0.0/0'']"
  let ?vpc = "groups_vpc ?sg"
  have g: "[?sg] = (case securityGroups ?vpc of None \<Rightarrow> [] | Some items \<Rightarrow> items)"
    by (simp add: groups_vpc_def)
  note main = ingress_rule_classification
    [where vpcItem = ?vpc and env = example_env and utils = example_utils
       and ?v4.0 = "\<lambda>s. True" and ?v6.0 = "\<lambda>s. False" and st = groups_state
       and c = rule_https, OF g refl refl refl]
  have side: "protocol rule_https \<noteq> [] \<and> sourceValue rule_https \<noteq> []
      \<and> (ruleType rule_https \<noteq> Some ''ALL'' \<longrightarrow>
            (\<exists>p q. fromPort rule_https = Some p \<and> toPort rule_https = Some q \<and> p \<noteq> 0 \<and> q \<noteq> 0))"
    by (simp add: rule_https_def)
  have agrees: "spec_rule_agrees legacy_https rule_https"
    by (simp add: spec_rule_agrees_def getProperty_def legacy_https_def legacy_rule_def
        rule_https_def)
  have "existingIngressRuleEntry [legacy_ssh, legacy_https] rule_https
          \<longleftrightarrow> (\<exists>r \<in> set [legacy_ssh, legacy_https]. spec_rule_agrees r rule_https)"
    by (rule mp [OF conjunct1 [OF main] side])
  then have 1: "existingIngressRuleEntry [legacy_ssh, legacy_https] rule_https"
    using agrees by simp
  have differs: "\<forall>r \<in> set [legacy_ssh].
          getProperty r ''FromPort'' \<noteq> map_option PNum (fromPort rule_https)
          \<or> getProperty r ''ToPort'' \<noteq> map_option PNum (toPort rule_https)"
    by (simp add: getProperty_def legacy_ssh_def legacy_rule_def rule_https_def)
  have 2: "\<not> existingIngressRuleEntry [legacy_ssh] rule_https"
    by (rule mp [OF conjunct1 [OF conjunct2 [OF conjunct2 [OF main]]] differs])
  have same: "list_all2 same_properties [legacy_ssh, legacy_https]
      [legacy_ssh, legacy_https_reordered]"
    by (simp add: same_properties_def legacy_ssh_def legacy_https_def legacy_https_reordered_def
        legacy_rule_def) auto
  have "existingIngressRuleEntry [legacy_ssh, legacy_https] rule_https
          = existingIngressRuleEntry [legacy_ssh, legacy_https_reordered] rule_https"
    by (rule mp [OF conjunct1 [OF conjunct2 [OF conjunct2 [OF conjunct2 [OF conjunct2
        [OF main]]]]] same])
  then have 3: "existingIngressRuleEntry [legacy_ssh, legacy_https_reordered] rule_https"
    using 1 by simp
  have t: "ruleType rule_https \<noteq> Some ''ALL''" by (simp add: rule_https_def)
  have nm: "securityGroupName ?sg = ''Mgmt''" "outboundRules ?sg \<noteq> []"
      "outboundRules ?sg = [rule_item [] [''ALL''] ''0.0.0.0/0'']"
    by (simp_all add: sg_mgmt_def)
  have vn: "vpcName ?vpc = ''Prod''" by (simp add: groups_vpc_def example_vpc_def)
  have lid: "logicalResourceId sg_mgmt_legacy = ''MgmtSg''" by (simp add: sg_mgmt_legacy_def)
  have run: "\<exists>st' entries.
            createSecurityGroups example_env example_utils (\<lambda>s. True) (\<lambda>s. False) ?vpc
              (stack_groups legacyRules) groups_state = Inr st'
          \<and> aseaResources st' = aseaResources groups_state @ entries
          \<and> (existingIngressRuleEntry (filterResourcesByRef
                 (filterResourcesByType (resources (stack_groups legacyRules))
                    RESOURCE_TYPE_SECURITY_GROUP_INGRESS) ''GroupId'' ''MgmtSg'') rule_https
             \<longrightarrow> (EC2_SECURITY_GROUP_INGRESS,
                   ruleIdentifier ''Prod'' ''Mgmt'' ''ingress'' rule_https) \<in> set entries)
          \<and> (\<not> existingIngressRuleEntry (filterResourcesByRef
                 (filterResourcesByType (resources (stack_groups legacyRules))
                    RESOURCE_TYPE_SECURITY_GROUP_INGRESS) ''GroupId'' ''MgmtSg'') rule_https
             \<longrightarrow> (\<exists>securityGroup. template groups_state ''MgmtSg'' = Some securityGroup
                   \<and> template st' ''MgmtSg'' = Some (securityGroup\<lparr>attrs := (attrs securityGroup)
                       (''securityGroupIngress'' \<mapsto> AIngress
                          [(ingressProperty rule_https)\<lparr>ingressFromPort := Some 443,
                              ingressToPort := Some 443\<rparr>,
                           (ingressProperty rule_https)\<lparr>ingressFromPort := Some 443,
                              ingressToPort := Some 443,
                              cidrIp := Some ''10.0.0.0/16''\<rparr>])\<rparr>)))"
    for legacyRules
  proof -
    let ?stack = "stack_groups legacyRules"
    let ?m = "\<lambda>n. if n \<in> securityGroupName ` set [?sg]
          then map_option logicalResourceId (findResourceByName (resources ?stack) ''GroupName'' n)
          else None"
    let ?p = "\<lambda>n. if n \<in> securityGroupName ` set [?sg]
          then map_option physicalResourceId (findResourceByName (resources ?stack) ''GroupName'' n)
          else None"
    let ?legacy = "filterResourcesByRef
          (filterResourcesByType (resources ?stack) RESOURCE_TYPE_SECURITY_GROUP_INGRESS)
          ''GroupId'' ''MgmtSg''"
    have m: "?m (securityGroupName ?sg) = Some ''MgmtSg''"
      by (simp add: nm scenario_match lid)
    have w1: "\<forall>g \<in> set [?sg]. \<forall>r.
          findResourceByName (resources ?stack) ''GroupName'' (securityGroupName g) = Some r
          \<longrightarrow> template groups_state (logicalResourceId r) \<noteq> None"
      by (simp add: nm scenario_match lid groups_state_def)
    have w2: "\<forall>g \<in> set [?sg]. \<forall>lid.
          ?m (securityGroupName g) = Some lid \<and> lid \<noteq> []
          \<longrightarrow> (\<exists>rules. inboundRules_loop example_utils ?m (inboundRules g) = Inr rules)
            \<and> (\<forall>item \<in> set (outboundRules g).
                  \<exists>rules. processRuleItem example_utils ?m item = Inr rules)"
      using scenario_outbound[of ?m] by (simp add: scenario_inbound nm(3))
    note merger = mp [OF conjunct2 [OF conjunct2 [OF conjunct2 [OF conjunct2 [OF conjunct2
        [OF main [where vpcStackInfo = ?stack]]]]]] conjI [OF w1 w2]]
    from merger obtain st' entries where r:
        "createSecurityGroups example_env example_utils (\<lambda>s. True) (\<lambda>s. False) ?vpc ?stack
           groups_state = Inr st'"
        "aseaResources st' = aseaResources groups_state @ entries"
        "\<forall>g \<in> set [?sg]. \<forall>lid rules.
                ?m (securityGroupName g) = Some lid \<and> lid \<noteq> []
                \<and> outboundRules g \<noteq> []
                \<and> inboundRules_loop example_utils ?m (inboundRules g) = Inr rules
                \<longrightarrow> (\<forall>configIngressRule \<in> set rules.
                       existingIngressRuleEntry (filterResourcesByRef
                         (filterResourcesByType (resources ?stack)
                            RESOURCE_TYPE_SECURITY_GROUP_INGRESS) ''GroupId'' lid)
                         configIngressRule
                       \<longrightarrow> (EC2_SECURITY_GROUP_INGRESS,
                             ruleIdentifier (vpcName ?vpc) (securityGroupName g) ''ingress''
                               configIngressRule) \<in> set entries)"
        "\<forall>before g after lid rules.
                [?sg] = before @ g # after
                \<and> ?m (securityGroupName g) = Some lid \<and> lid \<noteq> []
                \<and> outboundRules g \<noteq> []
                \<and> (\<forall>later \<in> set after. ?m (securityGroupName later) \<noteq> Some lid)
                \<and> inboundRules_loop example_utils ?m (inboundRules g) = Inr rules
                \<and> concat (map (newIngressRules (\<lambda>s. True) (\<lambda>s. False) ?p)
                     (filter (\<lambda>configIngressRule.
                        \<not> existingIngressRuleEntry (filterResourcesByRef
                         (filterResourcesByType (resources ?stack)
                            RESOURCE_TYPE_SECURITY_GROUP_INGRESS) ''GroupId'' lid)
                          configIngressRule) rules)) \<noteq> []
                \<longrightarrow> (\<exists>securityGroup. template groups_state lid = Some securityGroup
                       \<and> template st' lid = Some (securityGroup\<lparr>attrs := (attrs securityGroup)
                           (''securityGroupIngress'' \<mapsto> AIngress
                              (concat (map (newIngressRules (\<lambda>s. True) (\<lambda>s. False) ?p)
                                 (filter (\<lambda>configIngressRule.
                                    \<not> existingIngressRuleEntry (filterResourcesByRef
                                       (filterResourcesByType (resources ?stack)
                                          RESOURCE_TYPE_SECURITY_GROUP_INGRESS) ''GroupId'' lid)
                                      configIngressRule)
                                    rules))))\<rparr>))"
      by (elim exE conjE)
    have new: "newIngressRules (\<lambda>s. True) (\<lambda>s. False) physicalIds rule_https
        = [(ingressProperty rule_https)\<lparr>ingressFromPort := Some 443, ingressToPort := Some 443\<rparr>,
           (ingressProperty rule_https)\<lparr>ingressFromPort := Some 443, ingressToPort := Some 443,
              cidrIp := Some ''10.0.0.0/16''\<rparr>]" for physicalIds
      by (simp add: newIngressRules_def checkCidrFromSource_def rule_https_def Let_def)
    have reg: "(EC2_SECURITY_GROUP_INGRESS,
                   ruleIdentifier ''Prod'' ''Mgmt'' ''ingress'' rule_https) \<in> set entries"
      if e: "existingIngressRuleEntry ?legacy rule_https"
    proof -
      have pre: "?m (securityGroupName ?sg) = Some ''MgmtSg'' \<and> ''MgmtSg'' \<noteq> []
                \<and> outboundRules ?sg \<noteq> []
                \<and> inboundRules_loop example_utils ?m (inboundRules ?sg) = Inr [rule_https]"
        using m nm(2) by (simp add: scenario_inbound)
      have "?sg \<in> set [?sg]" by simp
      note a = mp [OF spec [OF spec [OF bspec [OF r(3) this], of "''MgmtSg''"], of "[rule_https]"]
          pre]
      have "rule_https \<in> set [rule_https]" by simp
      from mp [OF bspec [OF a this] e] show ?thesis unfolding vn nm(1) .
    qed
    have push: "\<exists>securityGroup. template groups_state ''MgmtSg'' = Some securityGroup
                   \<and> template st' ''MgmtSg'' = Some (securityGroup\<lparr>attrs := (attrs securityGroup)
                       (''securityGroupIngress'' \<mapsto> AIngress
                          [(ingressProperty rule_https)\<lparr>ingressFromPort := Some 443,
                              ingressToPort := Some 443\<rparr>,
                           (ingressProperty rule_https)\<lparr>ingressFromPort := Some 443,
                              ingressToPort := Some 443,
                              cidrIp := Some ''10.0.0.0/16''\<rparr>])\<rparr>)"
      if e: "\<not> existingIngressRuleEntry ?legacy rule_https"
    proof -
      have c: "concat (map (newIngressRules (\<lambda>s. True) (\<lambda>s. False) ?p)
                     (filter (\<lambda>configIngressRule.
                        \<not> existingIngressRuleEntry ?legacy configIngressRule) [rule_https]))
          = [(ingressProperty rule_https)\<lparr>ingressFromPort := Some 443, ingressToPort := Some 443\<rparr>,
             (ingressProperty rule_https)\<lparr>ingressFromPort := Some 443, ingressToPort := Some 443,
                cidrIp := Some ''10.0.0.0/16''\<rparr>]"
        using e by (simp add: new)
      have pre: "[?sg] = [] @ ?sg # []
                \<and> ?m (securityGroupName ?sg) = Some ''MgmtSg'' \<and> ''MgmtSg'' \<noteq> []
                \<and> outboundRules ?sg \<noteq> []
                \<and> (\<forall>later \<in> set []. ?m (securityGroupName later) \<noteq> Some ''MgmtSg'')
                \<and> inboundRules_loop example_utils ?m (inboundRules ?sg) = Inr [rule_https]
                \<and> concat (map (newIngressRules (\<lambda>s. True) (\<lambda>s. False) ?p)
                     (filter (\<lambda>configIngressRule.
                        \<not> existingIngressRuleEntry ?legacy configIngressRule) [rule_https]))
                     \<noteq> []"
        unfolding c using m nm(2) by (simp add: scenario_inbound)
      note a = mp [OF spec [OF spec [OF spec [OF spec [OF spec [OF r(4), of "[]"], of ?sg],
          of "[]"], of "''MgmtSg''"], of "[rule_https]"] pre]
      show ?thesis using a unfolding c .
    qed
    show ?thesis using r(1,2) reg push by blast
  qed
  have 4: "\<exists>st' entries.
           createSecurityGroups example_env example_utils (\<lambda>s. True) (\<lambda>s. False) ?vpc
             (stack_groups [legacy_ssh, legacy_https]) groups_state = Inr st'
         \<and> aseaResources st' = aseaResources groups_state @ entries
         \<and> (EC2_SECURITY_GROUP_INGRESS, ruleIdentifier ''Prod'' ''Mgmt'' ''ingress'' rule_https)
             \<in> set entries"
    using run[of "[legacy_ssh, legacy_https]"] 1 unfolding scenario_legacy by blast
  obtain st' securityGroup where p:
      "createSecurityGroups example_env example_utils (\<lambda>s. True) (\<lambda>s. False) ?vpc
             (stack_groups [legacy_ssh]) groups_state = Inr st'"
      "template groups_state ''MgmtSg'' = Some securityGroup"
      "template st' ''MgmtSg'' = Some (securityGroup\<lparr>attrs := (attrs securityGroup)
                       (''securityGroupIngress'' \<mapsto> AIngress
                          [(ingressProperty rule_https)\<lparr>ingressFromPort := Some 443,
                              ingressToPort := Some 443\<rparr>,
                           (ingressProperty rule_https)\<lparr>ingressFromPort := Some 443,
                              ingressToPort := Some 443,
                              cidrIp := Some ''10.0.0.0/16''\<rparr>])\<rparr>)"
    using run[of "[legacy_ssh]"] 2 unfolding scenario_legacy by blast
  have 5: "\<exists>st' securityGroup.
           createSecurityGroups example_env example_utils (\<lambda>s. True) (\<lambda>s. False) ?vpc
             (stack_groups [legacy_ssh]) groups_state = Inr st'
         \<and> template st' ''MgmtSg'' = Some securityGroup
         \<and> attrs securityGroup ''securityGroupIngress''
             = Some (AIngress
                 [(ingressProperty rule_https)\<lparr>ingressFromPort := Some 443,
                     ingressToPort := Some 443\<rparr>,
                  (ingressProperty rule_https)\<lparr>ingressFromPort := Some 443,
                     ingressToPort := Some 443, cidrIp := Some ''10.0.0.0/16''\<rparr>])"
    using p(1,3) by simp
  show ?thesis using 1 2 3 4 5 by (intro conjI)
qed

section \<open>Properties of the endpoint merger\<close>

lemma find_eq: "List.find (\<lambda>item. item = x) xs = (if x \<in> set xs then Some x else None)"
  by (induction xs) auto

lemma pushIfNotFound_eq:
  "routeTableId \<noteq> [] \<Longrightarrow>
     pushIfNotFound routeTableId tables
       = (if routeTableId \<in> set tables then tables else tables @ [routeTableId])"
  by (simp add: pushIfNotFound_def find_eq truthy_string_def)

lemma pushIfNotFound_distinct:
  "routeTableId \<noteq> [] \<Longrightarrow> distinct tables \<Longrightarrow> distinct (pushIfNotFound routeTableId tables)"
  by (simp add: pushIfNotFound_eq)

lemma pushIfNotFound_set:
  "routeTableId \<noteq> [] \<Longrightarrow> set (pushIfNotFound routeTableId tables) = insert routeTableId (set tables)"
  by (auto simp: pushIfNotFound_eq)

lemma getS3DynamoDbRouteTableIds_loop_distinct:
  assumes "routeTableId \<noteq> []" and "distinct (fst tables)" and "distinct (snd tables)"
  shows "distinct (fst (getS3DynamoDbRouteTableIds_loop entries routeTableId tables))
       \<and> distinct (snd (getS3DynamoDbRouteTableIds_loop entries routeTableId tables))"
  using assms
proof (induction entries arbitrary: tables)
  case Nil
  then show ?case by simp
next
  case (Cons entry entries)
  obtain s3 dyn where t: "tables = (s3, dyn)" by (cases tables)
  show ?case
    unfolding t getS3DynamoDbRouteTableIds_loop.simps Let_def
    using Cons.prems t by (intro Cons.IH) (simp_all add: pushIfNotFound_distinct)
qed

lemma getS3DynamoDbRouteTableIds_loop_set:
  assumes "routeTableId \<noteq> []"
  shows "set (fst (getS3DynamoDbRouteTableIds_loop entries routeTableId tables))
           = set (fst tables)
             \<union> (if \<exists>entry \<in> set entries. routeTarget entry = Some ''s3'' then {routeTableId} else {})
       \<and> set (snd (getS3DynamoDbRouteTableIds_loop entries routeTableId tables))
           = set (snd tables)
             \<union> (if \<exists>entry \<in> set entries. routeTarget entry = Some ''dynamodb'' then {routeTableId} else {})"
proof (induction entries arbitrary: tables)
  case Nil
  then show ?case by simp
next
  case (Cons entry entries)
  obtain s3 dyn where t: "tables = (s3, dyn)" by (cases tables)
  let ?s3 = "if routeTarget entry = Some ''s3'' then pushIfNotFound routeTableId s3 else s3"
  let ?dyn = "if routeTarget entry = Some ''dynamodb'' then pushIfNotFound routeTableId dyn else dyn"
  have step: "getS3DynamoDbRouteTableIds_loop (entry # entries) routeTableId tables
      = getS3DynamoDbRouteTableIds_loop entries routeTableId (?s3, ?dyn)"
    unfolding t by (simp add: Let_def)
  have s3: "set ?s3 = set s3 \<union> (if routeTarget entry = Some ''s3'' then {routeTableId} else {})"
    and dyn: "set ?dyn = set dyn
        \<union> (if routeTarget entry = Some ''dynamodb'' then {routeTableId} else {})"
    using assms by (simp_all add: pushIfNotFound_set)
  note ih = Cons.IH[of "(?s3, ?dyn)"]
  have 1: "set (fst (getS3DynamoDbRouteTableIds_loop (entry # entries) routeTableId tables))
      = set s3 \<union> (if routeTarget entry = Some ''s3'' then {routeTableId} else {})
        \<union> (if \<exists>e \<in> set entries. routeTarget e = Some ''s3'' then {routeTableId} else {})"
    unfolding step using ih s3 by simp
  have 2: "set (snd (getS3DynamoDbRouteTableIds_loop (entry # entries) routeTableId tables))
      = set dyn \<union> (if routeTarget entry = Some ''dynamodb'' then {routeTableId} else {})
        \<union> (if \<exists>e \<in> set entries. routeTarget e = Some ''dynamodb'' then {routeTableId} else {})"
    unfolding step using ih dyn by simp
  show ?case unfolding 1 2 by (auto simp: t)
qed

lemma collectRouteTableIds_distinct:
  assumes "distinct (fst tables)" and "distinct (snd tables)"
  shows "distinct (fst (collectRouteTableIds env vpcItem items tables))
       \<and> distinct (snd (collectRouteTableIds env vpcItem items tables))"
  using assms
proof (induction items arbitrary: tables)
  case Nil
  then show ?case by simp
next
  case (Cons item items)
  show ?case
  proof (cases "getExternalResourceParameter env
            (getSsmPath env SSM_ROUTE_TABLE [vpcName vpcItem, routeTableName item])")
    case None
    then show ?thesis using Cons by simp
  next
    case (Some rid)
    show ?thesis
    proof (cases "rid = []")
      case True
      then show ?thesis using Some Cons by (simp add: truthy_string_def)
    next
      case False
      have d: "distinct (fst (getS3DynamoDbRouteTableIds item rid tables))
             \<and> distinct (snd (getS3DynamoDbRouteTableIds item rid tables))"
        unfolding getS3DynamoDbRouteTableIds_def
        using False Cons.prems by (rule getS3DynamoDbRouteTableIds_loop_distinct)
      have "collectRouteTableIds env vpcItem (item # items) tables
          = collectRouteTableIds env vpcItem items (getS3DynamoDbRouteTableIds item rid tables)"
        using Some False by (simp add: truthy_string_def)
      then show ?thesis using Cons.IH d by simp
    qed
  qed
qed

lemma collectRouteTableIds_set:
  "set (fst (collectRouteTableIds env vpcItem items tables))
     = set (fst tables)
       \<union> {rid. \<exists>rt \<in> set items. resolvedRouteTableId env vpcItem rt = Some rid \<and> routesTo ''s3'' rt}
   \<and> set (snd (collectRouteTableIds env vpcItem items tables))
     = set (snd tables)
       \<union> {rid. \<exists>rt \<in> set items. resolvedRouteTableId env vpcItem rt = Some rid
                 \<and> routesTo ''dynamodb'' rt}"
proof (induction items arbitrary: tables)
  case Nil
  then show ?case by simp
next
  case (Cons item items)
  show ?case
  proof (cases "resolvedRouteTableId env vpcItem item")
    case None
    then have "collectRouteTableIds env vpcItem (item # items) tables
        = collectRouteTableIds env vpcItem items tables"
      by (auto simp: resolvedRouteTableId_def truthy_string_def split: option.splits if_splits)
    then show ?thesis using Cons.IH None by auto
  next
    case (Some rid)
    then have r: "getExternalResourceParameter env
            (getSsmPath env SSM_ROUTE_TABLE [vpcName vpcItem, routeTableName item]) = Some rid"
        and ne: "rid \<noteq> []"
      by (auto simp: resolvedRouteTableId_def split: option.splits if_splits)
    have c: "collectRouteTableIds env vpcItem (item # items) tables
        = collectRouteTableIds env vpcItem items (getS3DynamoDbRouteTableIds item rid tables)"
      using r ne by (simp add: truthy_string_def)
    note s = getS3DynamoDbRouteTableIds_loop_set[OF ne,
        of "case routes item of None \<Rightarrow> [] | Some entries \<Rightarrow> entries" tables,
        folded getS3DynamoDbRouteTableIds_def routesTo_def]
    note ih = Cons.IH[of "getS3DynamoDbRouteTableIds item rid tables"]
    have 1: "set (fst (collectRouteTableIds env vpcItem (item # items) tables))
       = set (fst tables) \<union> (if routesTo ''s3'' item then {rid} else {})
         \<union> {rid. \<exists>rt \<in> set items. resolvedRouteTableId env vpcItem rt = Some rid
                   \<and> routesTo ''s3'' rt}"
      unfolding c using ih s by simp
    have 2: "set (snd (collectRouteTableIds env vpcItem (item # items) tables))
       = set (snd tables) \<union> (if routesTo ''dynamodb'' item then {rid} else {})
         \<union> {rid. \<exists>rt \<in> set items. resolvedRouteTableId env vpcItem rt = Some rid
                   \<and> routesTo ''dynamodb'' rt}"
      unfolding c using ih s by simp
    show ?thesis
      unfolding 1 2 using Some by auto
  qed
qed

lemma pushMissing_append:
  "\<exists>added. pushMissing accumulated routeTableIds = routeTableIds @ added
      \<and> set added \<inter> set routeTableIds = {} \<and> distinct added \<and> set added \<subseteq> set accumulated
      \<and> set accumulated \<subseteq> set routeTableIds \<union> set added"
proof (induction accumulated arbitrary: routeTableIds)
  case Nil
  then show ?case by simp
next
  case (Cons x accumulated)
  show ?case
  proof (cases "x \<in> set routeTableIds")
    case True
    then show ?thesis using Cons.IH[of routeTableIds] by auto
  next
    case False
    obtain added where a: "pushMissing accumulated (routeTableIds @ [x]) = (routeTableIds @ [x]) @ added"
      "set added \<inter> set (routeTableIds @ [x]) = {}" "distinct added" "set added \<subseteq> set accumulated"
      "set accumulated \<subseteq> set (routeTableIds @ [x]) \<union> set added"
      using Cons.IH[of "routeTableIds @ [x]"] by blast
    have "pushMissing (x # accumulated) routeTableIds = routeTableIds @ (x # added)"
      using False a(1) by simp
    moreover have "set (x # added) \<inter> set routeTableIds = {}" using False a(2) by auto
    moreover have "distinct (x # added)" using a(2,3) by auto
    moreover have "set (x # added) \<subseteq> set (x # accumulated)" using a(4) by auto
    moreover have "set (x # accumulated) \<subseteq> set routeTableIds \<union> set (x # added)"
      using a(5) by auto
    ultimately show ?thesis by blast
  qed
qed

lemma pushMissing_distinct:
  assumes "distinct routeTableIds"
  shows "distinct (pushMissing accumulated routeTableIds)"
proof -
  obtain added where "pushMissing accumulated routeTableIds = routeTableIds @ added"
    "set added \<inter> set routeTableIds = {}" "distinct added"
    using pushMissing_append by blast
  then show ?thesis using assms by auto
qed

lemma pushMissing_filter:
  assumes "distinct accumulated"
  shows "pushMissing accumulated routeTableIds
           = routeTableIds @ filter (\<lambda>i. i \<notin> set routeTableIds) accumulated"
  using assms
proof (induction accumulated arbitrary: routeTableIds)
  case Nil
  then show ?case by simp
next
  case (Cons x accumulated)
  have "filter (\<lambda>i. i \<noteq> x \<and> i \<notin> set routeTableIds) accumulated
      = filter (\<lambda>i. i \<notin> set routeTableIds) accumulated"
    using Cons.prems by (intro filter_cong) auto
  then show ?case using Cons by simp
qed

lemma pushMissing_subset:
  assumes "set accumulated \<subseteq> set routeTableIds"
  shows "pushMissing accumulated routeTableIds = routeTableIds"
  using assms by (induction accumulated arbitrary: routeTableIds) auto

lemma pushMissing_idem:
  "pushMissing accumulated (pushMissing accumulated routeTableIds)
     = pushMissing accumulated routeTableIds"
proof -
  obtain added where "pushMissing accumulated routeTableIds = routeTableIds @ added"
    "set accumulated \<subseteq> set routeTableIds \<union> set added"
    using pushMissing_append by blast
  then show ?thesis by (intro pushMissing_subset) auto
qed

text \<open>
  C10: the accumulated s3 and dynamodb lists hold no identifier twice after any number of
  route tables, and each step of the accumulation keeps them so: an identifier is appended
  only if the list does not hold it. The merge into the list an endpoint already has pushes
  an identifier only if that list does not include it, so it appends identifiers that are
  new, each once, and a list without duplicates stays without duplicates.
\<close>

theorem route_table_lists_have_no_duplicates:
  "distinct (fst (collectRouteTableIds env vpcItem (take n routeTableItems) ([], [])))
   \<and> distinct (snd (collectRouteTableIds env vpcItem (take n routeTableItems) ([], [])))
   \<and> (routeTableId \<noteq> [] \<and> distinct s3EndpointRouteTables \<and> distinct dynamodbEndpointRouteTables
        \<longrightarrow> distinct (fst (getS3DynamoDbRouteTableIds routeTableItem routeTableId
                               (s3EndpointRouteTables, dynamodbEndpointRouteTables)))
          \<and> distinct (snd (getS3DynamoDbRouteTableIds routeTableItem routeTableId
                               (s3EndpointRouteTables, dynamodbEndpointRouteTables))))
   \<and> (routeTableId \<noteq> []
        \<longrightarrow> pushIfNotFound routeTableId tables
              = (if routeTableId \<in> set tables then tables else tables @ [routeTableId]))
   \<and> (distinct routeTableIds \<longrightarrow> distinct (pushMissing accumulated routeTableIds))
   \<and> (\<exists>added. pushMissing accumulated routeTableIds = routeTableIds @ added
         \<and> set added \<inter> set routeTableIds = {} \<and> distinct added
         \<and> set added \<subseteq> set accumulated)"
proof (intro conjI impI)
  show "distinct (fst (collectRouteTableIds env vpcItem (take n routeTableItems) ([], [])))"
    "distinct (snd (collectRouteTableIds env vpcItem (take n routeTableItems) ([], [])))"
    using collectRouteTableIds_distinct[of "([], [])" env vpcItem "take n routeTableItems"]
    by simp_all
next
  assume a: "routeTableId \<noteq> [] \<and> distinct s3EndpointRouteTables \<and> distinct dynamodbEndpointRouteTables"
  then show "distinct (fst (getS3DynamoDbRouteTableIds routeTableItem routeTableId
                               (s3EndpointRouteTables, dynamodbEndpointRouteTables)))"
    "distinct (snd (getS3DynamoDbRouteTableIds routeTableItem routeTableId
                               (s3EndpointRouteTables, dynamodbEndpointRouteTables)))"
    unfolding getS3DynamoDbRouteTableIds_def
    using getS3DynamoDbRouteTableIds_loop_distinct[of routeTableId
        "(s3EndpointRouteTables, dynamodbEndpointRouteTables)"]
    by simp_all
next
  assume "routeTableId \<noteq> []"
  then show "pushIfNotFound routeTableId tables
              = (if routeTableId \<in> set tables then tables else tables @ [routeTableId])"
    by (rule pushIfNotFound_eq)
next
  assume "distinct routeTableIds"
  then show "distinct (pushMissing accumulated routeTableIds)" by (rule pushMissing_distinct)
next
  show "\<exists>added. pushMissing accumulated routeTableIds = routeTableIds @ added
         \<and> set added \<inter> set routeTableIds = {} \<and> distinct added
         \<and> set added \<subseteq> set accumulated"
    using pushMissing_append[of accumulated routeTableIds] by blast
qed

theorem route_table_lists_have_no_duplicates_witness:
  "distinct (fst (getS3DynamoDbRouteTableIds
        \<lparr>routeTableName = ''Rt-B'',
         routes = Some [\<lparr>routeEntryName = ''S3'', routeTarget = Some ''s3''\<rparr>]\<rparr>
        ''rtb-2'' ([''rtb-1''], [])))
   \<and> pushIfNotFound ''rtb-1'' [''rtb-1''] = [''rtb-1'']
   \<and> distinct (pushMissing [''rtb-1'', ''rtb-2''] [''rtb-legacy'', ''rtb-1''])"
proof -
  note main = route_table_lists_have_no_duplicates
  have h1: "''rtb-2'' \<noteq> [] \<and> distinct [''rtb-1''] \<and> distinct ([] :: string list)" by simp
  have 1: "distinct (fst (getS3DynamoDbRouteTableIds
        \<lparr>routeTableName = ''Rt-B'',
         routes = Some [\<lparr>routeEntryName = ''S3'', routeTarget = Some ''s3''\<rparr>]\<rparr>
        ''rtb-2'' ([''rtb-1''], [])))"
    using mp [OF conjunct1 [OF conjunct2 [OF conjunct2 [OF main]]] h1] by (rule conjunct1)
  have h2: "''rtb-1'' \<noteq> []" by simp
  have "pushIfNotFound ''rtb-1'' [''rtb-1'']
      = (if ''rtb-1'' \<in> set [''rtb-1''] then [''rtb-1''] else [''rtb-1''] @ [''rtb-1''])"
    by (rule mp [OF conjunct1 [OF conjunct2 [OF conjunct2 [OF conjunct2 [OF main]]]] h2])
  then have 2: "pushIfNotFound ''rtb-1'' [''rtb-1''] = [''rtb-1'']" by simp
  have h3: "distinct [''rtb-legacy'', ''rtb-1'']" by simp
  have 3: "distinct (pushMissing [''rtb-1'', ''rtb-2''] [''rtb-legacy'', ''rtb-1''])"
    by (rule mp [OF conjunct1 [OF conjunct2 [OF conjunct2 [OF conjunct2 [OF conjunct2 [OF main]]]]] h3])
  show ?thesis using 1 2 3 by simp
qed

lemma findGatewayEndpoint_Some:
  "findGatewayEndpoint rs svc = Inr (Some r) \<Longrightarrow> r \<in> set rs \<and> serviceNameEndsWith r svc = Inr True"
  by (induction rs) (auto split: sum.splits if_splits)

lemma serviceNameEndsWith_inj:
  "serviceNameEndsWith r s1 = Inr True \<Longrightarrow> serviceNameEndsWith r s2 = Inr True \<Longrightarrow> s1 = s2"
  by (auto simp: serviceNameEndsWith_def split: option.splits prop_value.splits)

lemma gatewayEndpoints_loop_target:
  assumes "gatewayEndpoints_loop env vpcItem rs tables items st = Inr st'"
    and "\<And>item r. item \<in> set items \<Longrightarrow> findGatewayEndpoint rs (service item) = Inr (Some r)
            \<Longrightarrow> logicalResourceId r = L
            \<Longrightarrow> (if service item = ''s3'' then fst tables else snd tables) = T"
    and "template st L = Some e" and "attrs e ''routeTableIds'' = Some (AStrList cur)"
    and "cur = old \<or> cur = pushMissing T old"
  shows "\<exists>e'. template st' L = Some e' \<and> ref e' = ref e
           \<and> attrs e' ''routeTableIds''
               = Some (AStrList
                   (if \<exists>item \<in> set items. \<exists>r. findGatewayEndpoint rs (service item) = Inr (Some r)
                          \<and> logicalResourceId r = L
                    then pushMissing T old else cur))"
  using assms
proof (induction items arbitrary: st e cur)
  case Nil
  then show ?case by simp
next
  case (Cons item items)
  let ?M = "\<lambda>xs. \<exists>item \<in> set xs. \<exists>r. findGatewayEndpoint rs (service item) = Inr (Some r)
                          \<and> logicalResourceId r = L"
  have same: "\<And>i r. i \<in> set items \<Longrightarrow> findGatewayEndpoint rs (service i) = Inr (Some r)
            \<Longrightarrow> logicalResourceId r = L
            \<Longrightarrow> (if service i = ''s3'' then fst tables else snd tables) = T"
    using Cons.prems(2) by simp
  show ?case
  proof (cases "findGatewayEndpoint rs (service item)")
    case (Inl err)
    then show ?thesis using Cons.prems(1) by simp
  next
    case (Inr found)
    show ?thesis
    proof (cases found)
      case None
      then have run: "gatewayEndpoints_loop env vpcItem rs tables items st = Inr st'"
        using Cons.prems(1) Inr by simp
      have m: "?M (item # items) = ?M items" using Inr None by simp
      show ?thesis
        unfolding m by (rule Cons.IH[OF run _ Cons.prems(3,4,5)]) (rule same; assumption)
    next
      case (Some r)
      note f = Inr[unfolded Some]
      obtain ep where g: "getResource st (logicalResourceId r) = Inr ep"
        using Cons.prems(1) f by (cases "getResource st (logicalResourceId r)") auto
      then have tep: "template st (logicalResourceId r) = Some ep"
        by (auto simp: getResource_def split: option.splits)
      let ?acc = "if service item = ''s3'' then fst tables else snd tables"
      let ?reg = "\<lambda>s. addAseaResource VPC_ENDPOINT (vpcName vpcItem @ ''/'' @ service item)
              (addSsmParameter
                \<lparr>logicalId = pascalCase env (''SsmParam'' @ pascalCase env (vpcName vpcItem)
                     @ pascalCase env (service item) @ ''EndpointId''),
                 parameterName = getSsmPath env SSM_VPC_ENDPOINT [vpcName vpcItem, service item],
                 stringValue = ref ep\<rparr> s)"
      show ?thesis
      proof (cases "attrs ep ''routeTableIds''")
        case None
        let ?st1 = "?reg (assign (logicalResourceId r) ''routeTableIds'' None
                       (assign (logicalResourceId r) ''routeTableIds'' (Some (AStrList ?acc)) st))"
        have run: "gatewayEndpoints_loop env vpcItem rs tables items ?st1 = Inr st'"
          using Cons.prems(1) f g None by (simp add: Let_def)
        have ne: "logicalResourceId r \<noteq> L"
          using tep Cons.prems(3,4) None by auto
        have t1: "template ?st1 L = Some e"
          using ne Cons.prems(3) by (simp add: template_assign)
        have m: "?M (item # items) = ?M items" using f ne by simp
        show ?thesis
          unfolding m by (rule Cons.IH[OF run _ t1 Cons.prems(4,5)]) (rule same; assumption)
      next
        case (Some v)
        then obtain ids where v: "v = AStrList ids"
          using Cons.prems(1) f g by (cases v) (simp_all add: Let_def)
        note a = Some[unfolded v]
        let ?st1 = "?reg (assign (logicalResourceId r) ''routeTableIds''
                       (Some (AStrList (pushMissing ?acc ids))) st)"
        have run: "gatewayEndpoints_loop env vpcItem rs tables items ?st1 = Inr st'"
          using Cons.prems(1) f g a by (simp add: Let_def)
        show ?thesis
        proof (cases "logicalResourceId r = L")
          case False
          have t1: "template ?st1 L = Some e"
            using False Cons.prems(3) by (simp add: template_assign)
          have m: "?M (item # items) = ?M items" using f False by simp
          show ?thesis
            unfolding m by (rule Cons.IH[OF run _ t1 Cons.prems(4,5)]) (rule same; assumption)
        next
          case True
          have ep: "ep = e" using tep Cons.prems(3) True by simp
          have ids: "ids = cur" using a Cons.prems(4) ep by simp
          have acc: "?acc = T" using Cons.prems(2)[of item r] f True by simp
          have pm: "pushMissing T cur = pushMissing T old"
            using Cons.prems(5) by (auto simp: pushMissing_idem)
          let ?e1 = "e\<lparr>attrs := (attrs e)(''routeTableIds'' \<mapsto> AStrList (pushMissing T old))\<rparr>"
          have t1: "template ?st1 L = Some ?e1"
            using True Cons.prems(3) by (simp add: template_assign acc ids pm)
          have a1: "attrs ?e1 ''routeTableIds'' = Some (AStrList (pushMissing T old))" by simp
          have c1: "pushMissing T old = old \<or> pushMissing T old = pushMissing T old" by simp
          have "\<exists>e'. template st' L = Some e' \<and> ref e' = ref ?e1
              \<and> attrs e' ''routeTableIds''
               = Some (AStrList (if ?M items then pushMissing T old else pushMissing T old))"
            by (rule Cons.IH[OF run _ t1 a1 c1]) (rule same; assumption)
          then obtain e' where e': "template st' L = Some e'" "ref e' = ref ?e1"
            "attrs e' ''routeTableIds''
               = Some (AStrList (if ?M items then pushMissing T old else pushMissing T old))"
            by blast
          have m: "?M (item # items)" using f True by auto
          show ?thesis using e' m by simp
        qed
      qed
    qed
  qed
qed

lemma endpoint_scenario_tables:
  "collectRouteTableIds endpoint_env endpoint_vpc
     (case routeTables endpoint_vpc of None \<Rightarrow> [] | Some items \<Rightarrow> items) ([], [])
     = ([''rtb-1'', ''rtb-2''], [])"
  by (simp add: endpoint_vpc_def endpoint_env_def example_env_def example_vpc_def
      getS3DynamoDbRouteTableIds_def pushIfNotFound_def truthy_string_def Let_def)

lemma endpoint_scenario_resources:
  "filterResourcesByType (resources stack_endpoint) RESOURCE_TYPE_VPC_ENDPOINT = [endpoint_s3]"
  by (simp add: filterResourcesByType_def stack_endpoint_def vpc_prod_def endpoint_s3_def)

lemma endpoint_scenario_find:
  "findGatewayEndpoint [endpoint_s3] ''s3'' = Inr (Some endpoint_s3)"
  by (simp add: serviceNameEndsWith_def getProperty_def endpoint_s3_def)

lemma endpoint_scenario_lid: "logicalResourceId endpoint_s3 = ''S3Endpoint''"
  by (simp add: endpoint_s3_def)

lemma endpoint_scenario_run:
  "gatewayEndpoints endpoint_env endpoint_vpc stack_endpoint (endpoint_state v)
     = gatewayEndpoints_loop endpoint_env endpoint_vpc [endpoint_s3] ([''rtb-1'', ''rtb-2''], [])
         [\<lparr>service = ''s3''\<rparr>] (endpoint_state v)"
  unfolding gatewayEndpoints_def endpoint_scenario_tables endpoint_scenario_resources Let_def
  by (simp add: endpoint_vpc_def)

text \<open>
  An endpoint object without a route-table list: the accumulated list is assigned and then
  overwritten by the unconditional assignment of the still undefined local, so the
  property is undefined after the merge.
\<close>

lemma gatewayEndpoints_undefined_list_stays_undefined:
  "map_sum id (\<lambda>s. map_option (\<lambda>obj. attrs obj ''routeTableIds'') (template s ''S3Endpoint''))
     (gatewayEndpoints endpoint_env endpoint_vpc stack_endpoint (endpoint_state None))
     = Inr (Some None)"
  unfolding endpoint_scenario_run
  by (simp add: endpoint_scenario_find endpoint_scenario_lid getResource_def endpoint_state_def
      template_assign Let_def del: findGatewayEndpoint.simps)

text \<open>
  C5, as stated, fails: two target route tables route to s3 and resolve to rtb-1 and rtb-2,
  so the accumulation for s3 is rtb-1, rtb-2. The legacy s3 endpoint already lists
  rtb-legacy, and after the merger its property is rtb-legacy, rtb-1, rtb-2: the existing
  list extended, not the accumulation.
\<close>

theorem gatewayEndpoints_existing_list_counterexample:
  "collectRouteTableIds endpoint_env endpoint_vpc
     (case routeTables endpoint_vpc of None \<Rightarrow> [] | Some items \<Rightarrow> items) ([], [])
     = ([''rtb-1'', ''rtb-2''], [])
   \<and> map_sum id (\<lambda>s. map_option (\<lambda>obj. attrs obj ''routeTableIds'') (template s ''S3Endpoint''))
       (gatewayEndpoints endpoint_env endpoint_vpc stack_endpoint
          (endpoint_state (Some (AStrList [''rtb-legacy'']))))
     = Inr (Some (Some (AStrList [''rtb-legacy'', ''rtb-1'', ''rtb-2''])))"
  unfolding endpoint_scenario_run endpoint_scenario_tables
  by (simp add: endpoint_scenario_find endpoint_scenario_lid getResource_def endpoint_state_def
      template_assign Let_def del: findGatewayEndpoint.simps)

text \<open>
  C5, amended: for every gateway endpoint matched to an endpoint item of the target whose
  object already carries a route-table list, after the endpoint merger runs the
  route-table-ids property is that list followed by the accumulated identifiers it did not
  include. The accumulation holds, each once, the resolved identifiers of all target route
  tables that route to the service (an item for any service other than s3 takes the
  dynamodb accumulation); it is gathered across all route tables before any property is
  written, and the property is written per endpoint item, not per route table.
\<close>

theorem gatewayEndpoints_extends_existing_list:
  assumes "gatewayEndpoints env vpcItem vpcStackInfo st = Inr st'"
    and "gatewayEndpointsConfig vpcItem = Some endpoints"
    and "endpointItem \<in> set endpoints"
    and "findGatewayEndpoint
           (filterResourcesByType (resources vpcStackInfo) RESOURCE_TYPE_VPC_ENDPOINT)
           (service endpointItem) = Inr (Some gatewayEndpointResource)"
    and "distinct (map logicalResourceId
           (filterResourcesByType (resources vpcStackInfo) RESOURCE_TYPE_VPC_ENDPOINT))"
    and "template st (logicalResourceId gatewayEndpointResource) = Some endpoint"
    and "attrs endpoint ''routeTableIds'' = Some (AStrList routeTableIds)"
  shows "\<exists>endpoint' accumulated.
           accumulated
             = (if service endpointItem = ''s3'' then fst else snd)
                 (collectRouteTableIds env vpcItem
                    (case routeTables vpcItem of None \<Rightarrow> [] | Some items \<Rightarrow> items) ([], []))
         \<and> template st' (logicalResourceId gatewayEndpointResource) = Some endpoint'
         \<and> ref endpoint' = ref endpoint
         \<and> attrs endpoint' ''routeTableIds''
             = Some (AStrList (routeTableIds @ filter (\<lambda>i. i \<notin> set routeTableIds) accumulated))
         \<and> distinct accumulated
         \<and> set accumulated
             = {rid. \<exists>rt \<in> set (case routeTables vpcItem of None \<Rightarrow> [] | Some items \<Rightarrow> items).
                   resolvedRouteTableId env vpcItem rt = Some rid
                   \<and> routesTo (if service endpointItem = ''s3'' then ''s3'' else ''dynamodb'') rt}"
proof -
  let ?rs = "filterResourcesByType (resources vpcStackInfo) RESOURCE_TYPE_VPC_ENDPOINT"
  let ?rts = "case routeTables vpcItem of None \<Rightarrow> [] | Some items \<Rightarrow> items"
  let ?tables = "collectRouteTableIds env vpcItem ?rts ([], [])"
  let ?T = "if service endpointItem = ''s3'' then fst ?tables else snd ?tables"
  let ?L = "logicalResourceId gatewayEndpointResource"
  note res = findGatewayEndpoint_Some[OF assms(4)]
  have ne: "length ?rs \<noteq> 0" using res by auto
  have run: "gatewayEndpoints_loop env vpcItem ?rs ?tables endpoints st = Inr st'"
    using assms(1,2) ne by (simp add: gatewayEndpoints_def Let_def)
  have same: "(if service item = ''s3'' then fst ?tables else snd ?tables) = ?T"
    if "item \<in> set endpoints" "findGatewayEndpoint ?rs (service item) = Inr (Some r)"
      "logicalResourceId r = ?L" for item r
  proof -
    note r = findGatewayEndpoint_Some[OF that(2)]
    have "r = gatewayEndpointResource"
      using assms(5) r res that(3) by (auto simp: distinct_map dest: inj_onD)
    then have "service item = service endpointItem"
      using r res by (auto dest: serviceNameEndsWith_inj)
    then show ?thesis by simp
  qed
  have m: "\<exists>item \<in> set endpoints. \<exists>r. findGatewayEndpoint ?rs (service item) = Inr (Some r)
              \<and> logicalResourceId r = ?L"
    using assms(3,4) by blast
  have "\<exists>e'. template st' ?L = Some e' \<and> ref e' = ref endpoint
           \<and> attrs e' ''routeTableIds''
               = Some (AStrList
                   (if \<exists>item \<in> set endpoints. \<exists>r. findGatewayEndpoint ?rs (service item) = Inr (Some r)
                          \<and> logicalResourceId r = ?L
                    then pushMissing ?T routeTableIds else routeTableIds))"
  proof (rule gatewayEndpoints_loop_target[OF run _ assms(6,7)])
    show "routeTableIds = routeTableIds \<or> routeTableIds = pushMissing ?T routeTableIds"
      by simp
  next
    fix item r
    assume "item \<in> set endpoints" "findGatewayEndpoint ?rs (service item) = Inr (Some r)"
      "logicalResourceId r = ?L"
    then show "(if service item = ''s3'' then fst ?tables else snd ?tables) = ?T"
      by (rule same)
  qed
  then obtain e' where e': "template st' ?L = Some e'" "ref e' = ref endpoint"
      "attrs e' ''routeTableIds'' = Some (AStrList (pushMissing ?T routeTableIds))"
    using m by auto
  have d: "distinct ?T"
    using collectRouteTableIds_distinct[of "([], [])" env vpcItem ?rts] by simp
  have s: "set ?T = {rid. \<exists>rt \<in> set ?rts. resolvedRouteTableId env vpcItem rt = Some rid
                   \<and> routesTo (if service endpointItem = ''s3'' then ''s3'' else ''dynamodb'') rt}"
    using collectRouteTableIds_set[of env vpcItem ?rts "([], [])"] by simp
  have "attrs e' ''routeTableIds''
      = Some (AStrList (routeTableIds @ filter (\<lambda>i. i \<notin> set routeTableIds) ?T))"
    using e'(3) pushMissing_filter[OF d] by simp
  moreover have "?T = (if service endpointItem = ''s3'' then fst else snd) ?tables" by simp
  ultimately show ?thesis using e'(1,2) d s by blast
qed

theorem gatewayEndpoints_extends_existing_list_witness:
  "\<exists>st' endpoint'.
      gatewayEndpoints endpoint_env endpoint_vpc stack_endpoint
        (endpoint_state (Some (AStrList [''rtb-legacy'', ''rtb-1'']))) = Inr st'
    \<and> template st' ''S3Endpoint'' = Some endpoint'
    \<and> ref endpoint' = ''vpce-01''
    \<and> attrs endpoint' ''routeTableIds'' = Some (AStrList [''rtb-legacy'', ''rtb-1'', ''rtb-2''])"
proof -
  let ?st = "endpoint_state (Some (AStrList [''rtb-legacy'', ''rtb-1'']))"
  let ?e = "\<lparr>ref = ''vpce-01'',
             attrs = (\<lambda>a. if a = ''routeTableIds'' then Some (AStrList [''rtb-legacy'', ''rtb-1''])
                          else None)\<rparr>"
  obtain st' where run: "gatewayEndpoints endpoint_env endpoint_vpc stack_endpoint ?st = Inr st'"
    unfolding endpoint_scenario_run
    by (simp add: endpoint_scenario_find endpoint_scenario_lid getResource_def endpoint_state_def
        template_assign Let_def del: findGatewayEndpoint.simps)
  have cfg: "gatewayEndpointsConfig endpoint_vpc = Some [\<lparr>service = ''s3''\<rparr>]"
    by (simp add: endpoint_vpc_def)
  have item: "\<lparr>service = ''s3''\<rparr> \<in> set [\<lparr>service = ''s3''\<rparr>]" by simp
  have found: "findGatewayEndpoint
           (filterResourcesByType (resources stack_endpoint) RESOURCE_TYPE_VPC_ENDPOINT)
           (service \<lparr>service = ''s3''\<rparr>) = Inr (Some endpoint_s3)"
    unfolding endpoint_scenario_resources using endpoint_scenario_find by simp
  have dist: "distinct (map logicalResourceId
           (filterResourcesByType (resources stack_endpoint) RESOURCE_TYPE_VPC_ENDPOINT))"
    unfolding endpoint_scenario_resources by simp
  have t: "template ?st (logicalResourceId endpoint_s3) = Some ?e"
    by (simp add: endpoint_state_def endpoint_scenario_lid)
  have a: "attrs ?e ''routeTableIds'' = Some (AStrList [''rtb-legacy'', ''rtb-1''])" by simp
  obtain endpoint' accumulated where r:
      "accumulated = (if service \<lparr>service = ''s3''\<rparr> = ''s3'' then fst else snd)
                 (collectRouteTableIds endpoint_env endpoint_vpc
                    (case routeTables endpoint_vpc of None \<Rightarrow> [] | Some items \<Rightarrow> items) ([], []))"
      "template st' (logicalResourceId endpoint_s3) = Some endpoint'"
      "ref endpoint' = ref ?e"
      "attrs endpoint' ''routeTableIds''
         = Some (AStrList ([''rtb-legacy'', ''rtb-1'']
                   @ filter (\<lambda>i. i \<notin> set [''rtb-legacy'', ''rtb-1'']) accumulated))"
    using gatewayEndpoints_extends_existing_list [OF run cfg item found dist t a] by blast
  have acc: "accumulated = [''rtb-1'', ''rtb-2'']"
    unfolding r(1) endpoint_scenario_tables by simp
  have "attrs endpoint' ''routeTableIds'' = Some (AStrList [''rtb-legacy'', ''rtb-1'', ''rtb-2''])"
    using r(4) unfolding acc by simp
  then show ?thesis using run r(2,3) by (simp add: endpoint_scenario_lid)
qed

section \<open>Properties of the network-firewall merger\<close>

lemma resolvePolicyArn_truthy:
  "truthy_string (resolvePolicyArn env policy firewallItem)
     \<longleftrightarrow> resolvesInRun policy firewallItem \<or> resolvesFromExports env firewallItem"
  by (auto simp: resolvePolicyArn_def resolvesInRun_def resolvesFromExports_def truthy_string_def
      Let_def split: option.splits)

lemma resolvePolicyArn_value:
  "resolvePolicyArn env policy firewallItem
     = (if resolvesInRun policy firewallItem then map_option policyArn policy
        else getExternalResourceParameter env
               (getSsmPath env SSM_NFW_POLICY [firewallPolicy firewallItem]))"
  by (auto simp: resolvePolicyArn_def resolvesInRun_def truthy_string_def Let_def
      split: option.splits)

lemma firewallSubnetIds_total:
  assumes "\<forall>subnet \<in> set names. subnetRefs subnet \<noteq> None"
  shows "\<exists>subnetIds. firewallSubnetIds env vpcItem subnetRefs names = Inr subnetIds"
  using assms
proof (induction names)
  case Nil
  then show ?case by simp
next
  case (Cons name names)
  then obtain r ids where "subnetRefs name = Some r"
    "firewallSubnetIds env vpcItem subnetRefs names = Inr ids"
    by auto
  then show ?case by (simp add: Let_def)
qed

lemma firewallSubnetIds_no_Error:
  "firewallSubnetIds env vpcItem subnetRefs names \<noteq> Inl (Error message)"
  by (induction names) (auto simp: Let_def split: option.splits sum.splits)

lemma includedCfnResource_no_Error:
  "includedCfnResource lid arn firewallItem subnetIds vpcId st \<noteq> Inl (Error message)"
  by (auto simp: includedCfnResource_def getResource_def split: option.splits)

lemma addFirewallLoggingConfiguration_no_Error:
  "addFirewallLoggingConfiguration env vpcStackInfo firewallItem st \<noteq> Inl (Error message)"
  by (auto simp: addFirewallLoggingConfiguration_def getResource_def
      split: option.splits list.splits prod.splits)

lemma includedCfnResource_template:
  assumes "template st lid = Some firewall"
  shows "\<exists>st1. includedCfnResource lid arn firewallItem subnetIds vpcId st = Inr st1
           \<and> (\<forall>l. template st1 l = None \<longleftrightarrow> template st l = None)
           \<and> (\<forall>l obj. template st l = Some obj \<longrightarrow>
                 (\<exists>obj1. template st1 l = Some obj1 \<and> ref obj1 = ref obj
                    \<and> attrs obj1 ''firewallPolicyArn''
                        = (if lid = l then Some (AStr arn) else attrs obj ''firewallPolicyArn'')))"
  using assms
  by (auto simp add: includedCfnResource_def getResource_def template_assign)

lemma addFirewallLoggingConfiguration_template:
  assumes "filterResourcesByType (resources vpcStackInfo) RESOURCE_TYPE_NETWORK_FIREWALL_LOGGING
             = loggingResource # others"
    and "template st1 (logicalResourceId loggingResource) \<noteq> None"
  shows "\<exists>st2. addFirewallLoggingConfiguration env vpcStackInfo firewallItem st1 = Inr st2
           \<and> (\<forall>l. template st2 l = None \<longleftrightarrow> template st1 l = None)
           \<and> (\<forall>l obj. template st1 l = Some obj \<longrightarrow>
                 (\<exists>obj2. template st2 l = Some obj2 \<and> ref obj2 = ref obj
                    \<and> attrs obj2 ''firewallPolicyArn'' = attrs obj ''firewallPolicyArn''))"
proof -
  obtain lo where lo: "template st1 (logicalResourceId loggingResource) = Some lo"
    using assms(2) by auto
  obtain groups configs where d: "logDestinationConfigs env firewallItem
      (case loggingConfiguration firewallItem of None \<Rightarrow> [] | Some items \<Rightarrow> items)
      = (groups, configs)"
    by (cases "logDestinationConfigs env firewallItem
      (case loggingConfiguration firewallItem of None \<Rightarrow> [] | Some items \<Rightarrow> items)")
  let ?st2 = "assign (logicalResourceId loggingResource) ''loggingConfiguration''
                (Some (ALogDestinations configs)) (st1\<lparr>logGroups := logGroups st1 @ groups\<rparr>)"
  have run: "addFirewallLoggingConfiguration env vpcStackInfo firewallItem st1 = Inr ?st2"
    using assms(1) lo d by (simp add: addFirewallLoggingConfiguration_def getResource_def)
  have 1: "\<forall>l. template ?st2 l = None \<longleftrightarrow> template st1 l = None"
    using lo by (simp add: template_assign)
  have 2: "\<forall>l obj. template st1 l = Some obj \<longrightarrow>
                 (\<exists>obj2. template ?st2 l = Some obj2 \<and> ref obj2 = ref obj
                    \<and> attrs obj2 ''firewallPolicyArn'' = attrs obj ''firewallPolicyArn'')"
    by (simp add: template_assign)
  show ?thesis using run 1 2 by blast
qed

lemma createNetworkFirewall_item_unmatched:
  assumes "findResourceByName firewallResources ''FirewallName'' (firewallName firewallItem) = None"
  shows "createNetworkFirewall_item env vpcItem vpcStackInfo firewallResources vpcId subnetRefs
           policy firewallItem st = Inr st"
  using assms by (simp add: createNetworkFirewall_item_def)

lemma createNetworkFirewall_item_unresolved:
  assumes "findResourceByName firewallResources ''FirewallName'' (firewallName firewallItem)
             = Some firewallResource"
    and "\<forall>subnet \<in> set (firewallSubnets firewallItem). subnetRefs subnet \<noteq> None"
    and "\<not> resolvesInRun policy firewallItem" and "\<not> resolvesFromExports env firewallItem"
  shows "createNetworkFirewall_item env vpcItem vpcStackInfo firewallResources vpcId subnetRefs
           policy firewallItem st = Inl (policyNotFound (firewallPolicy firewallItem))"
proof -
  obtain subnetIds where ids:
      "firewallSubnetIds env vpcItem subnetRefs (firewallSubnets firewallItem) = Inr subnetIds"
    using firewallSubnetIds_total[OF assms(2)] by blast
  have "\<not> truthy_string (resolvePolicyArn env policy firewallItem)"
    using assms(3,4) by (simp add: resolvePolicyArn_truthy)
  then show ?thesis using assms(1) ids by (simp add: createNetworkFirewall_item_def Let_def)
qed

lemma createNetworkFirewall_item_merged:
  assumes m: "findResourceByName firewallResources ''FirewallName'' (firewallName firewallItem)
             = Some firewallResource"
    and p: "\<forall>subnet \<in> set (firewallSubnets firewallItem). subnetRefs subnet \<noteq> None"
    and r: "resolvesInRun policy firewallItem \<or> resolvesFromExports env firewallItem"
    and fl: "filterResourcesByType (resources vpcStackInfo) RESOURCE_TYPE_NETWORK_FIREWALL_LOGGING
             = loggingResource # others"
    and tl: "template st (logicalResourceId loggingResource) \<noteq> None"
    and tf: "template st (logicalResourceId firewallResource) \<noteq> None"
  shows "\<exists>st'. createNetworkFirewall_item env vpcItem vpcStackInfo firewallResources vpcId
                  subnetRefs policy firewallItem st = Inr st'
           \<and> (\<forall>l. template st' l = None \<longleftrightarrow> template st l = None)
           \<and> (\<forall>l obj. template st l = Some obj \<longrightarrow>
                 (\<exists>obj'. template st' l = Some obj' \<and> ref obj' = ref obj
                    \<and> attrs obj' ''firewallPolicyArn''
                        = (if logicalResourceId firewallResource = l
                           then map_option AStr (resolvedPolicy env policy firewallItem)
                           else attrs obj ''firewallPolicyArn'')))"
proof -
  obtain subnetIds where ids:
      "firewallSubnetIds env vpcItem subnetRefs (firewallSubnets firewallItem) = Inr subnetIds"
    using firewallSubnetIds_total[OF p] by blast
  have tr: "truthy_string (resolvePolicyArn env policy firewallItem)"
    using r by (simp add: resolvePolicyArn_truthy)
  then obtain arn where arn: "resolvePolicyArn env policy firewallItem = Some arn"
    by (auto simp: truthy_string_def split: option.splits)
  have rp: "resolvedPolicy env policy firewallItem = Some arn"
    using arn by (simp add: resolvedPolicy_def resolvePolicyArn_value)
  obtain firewall where obj: "template st (logicalResourceId firewallResource) = Some firewall"
    using tf by auto
  obtain st1 where st1:
      "includedCfnResource (logicalResourceId firewallResource) arn firewallItem subnetIds vpcId st
         = Inr st1"
      "\<forall>l. template st1 l = None \<longleftrightarrow> template st l = None"
      "\<forall>l obj. template st l = Some obj \<longrightarrow>
                 (\<exists>obj1. template st1 l = Some obj1 \<and> ref obj1 = ref obj
                    \<and> attrs obj1 ''firewallPolicyArn''
                        = (if logicalResourceId firewallResource = l then Some (AStr arn)
                           else attrs obj ''firewallPolicyArn''))"
    using includedCfnResource_template[OF obj] by blast
  have lg: "template st1 (logicalResourceId loggingResource) \<noteq> None"
    using st1(2) tl by simp
  obtain st2 where st2:
      "addFirewallLoggingConfiguration env vpcStackInfo firewallItem st1 = Inr st2"
      "\<forall>l. template st2 l = None \<longleftrightarrow> template st1 l = None"
      "\<forall>l obj. template st1 l = Some obj \<longrightarrow>
                 (\<exists>obj2. template st2 l = Some obj2 \<and> ref obj2 = ref obj
                    \<and> attrs obj2 ''firewallPolicyArn'' = attrs obj ''firewallPolicyArn'')"
    using addFirewallLoggingConfiguration_template[OF fl lg] by blast
  obtain firewall2 where f2: "template st2 (logicalResourceId firewallResource) = Some firewall2"
    using st2(2) st1(2) tf by (cases "template st2 (logicalResourceId firewallResource)") auto
  let ?st' = "addAseaResource NFW (firewallName firewallItem)
                (addSsmParameter
                   \<lparr>logicalId = pascalCase env (''SsmParam''
                        @ pascalCase env (firewallVpc firewallItem)
                        @ pascalCase env (firewallName firewallItem) @ ''FirewallArn''),
                    parameterName = getSsmPath env SSM_NFW
                        [firewallVpc firewallItem, firewallName firewallItem],
                    stringValue = firewallArn firewall2\<rparr> st2)"
  have run: "createNetworkFirewall_item env vpcItem vpcStackInfo firewallResources vpcId
                  subnetRefs policy firewallItem st = Inr ?st'"
    using m ids tr arn st1(1) st2(1) f2
    by (simp add: createNetworkFirewall_item_def Let_def getResource_def)
  have t: "template ?st' = template st2" by simp
  have d: "\<forall>l. template ?st' l = None \<longleftrightarrow> template st l = None"
    unfolding t using st1(2) st2(2) by simp
  have a: "\<exists>obj'. template ?st' l = Some obj' \<and> ref obj' = ref obj
                    \<and> attrs obj' ''firewallPolicyArn''
                        = (if logicalResourceId firewallResource = l
                           then map_option AStr (resolvedPolicy env policy firewallItem)
                           else attrs obj ''firewallPolicyArn'')"
    if h: "template st l = Some obj" for l obj
  proof -
    obtain obj1 where o1: "template st1 l = Some obj1" "ref obj1 = ref obj"
        "attrs obj1 ''firewallPolicyArn''
           = (if logicalResourceId firewallResource = l then Some (AStr arn)
              else attrs obj ''firewallPolicyArn'')"
      using st1(3) h by blast
    obtain obj2 where o2: "template st2 l = Some obj2" "ref obj2 = ref obj1"
        "attrs obj2 ''firewallPolicyArn'' = attrs obj1 ''firewallPolicyArn''"
      using st2(3) o1(1) by blast
    show ?thesis unfolding t using o1 o2 rp by simp
  qed
  show ?thesis using run d a by blast
qed

lemma createNetworkFirewall_loop_result:
  assumes p: "\<forall>item \<in> set items.
        findResourceByName firewallResources ''FirewallName'' (firewallName item) \<noteq> None
        \<longrightarrow> (\<forall>subnet \<in> set (firewallSubnets item). subnetRefs subnet \<noteq> None)"
    and fl: "filterResourcesByType (resources vpcStackInfo) RESOURCE_TYPE_NETWORK_FIREWALL_LOGGING
             = loggingResource # others"
    and tl: "template st (logicalResourceId loggingResource) \<noteq> None"
    and tf: "\<forall>r \<in> set firewallResources. template st (logicalResourceId r) \<noteq> None"
  shows "case List.find (\<lambda>item.
             findResourceByName firewallResources ''FirewallName'' (firewallName item) \<noteq> None
             \<and> \<not> resolvesInRun policy item \<and> \<not> resolvesFromExports env item) items of
           Some item \<Rightarrow>
             createNetworkFirewall_loop env vpcItem vpcStackInfo firewallResources vpcId
               subnetRefs policy items st = Inl (policyNotFound (firewallPolicy item))
         | None \<Rightarrow>
             (\<exists>st'. createNetworkFirewall_loop env vpcItem vpcStackInfo firewallResources vpcId
                      subnetRefs policy items st = Inr st'
                \<and> (\<forall>l obj. template st l = Some obj \<longrightarrow>
                      (\<exists>obj'. template st' l = Some obj' \<and> ref obj' = ref obj
                         \<and> attrs obj' ''firewallPolicyArn''
                             = (case List.find (\<lambda>item. map_option logicalResourceId
                                     (findResourceByName firewallResources ''FirewallName''
                                        (firewallName item)) = Some l) (rev items) of
                                  None \<Rightarrow> attrs obj ''firewallPolicyArn''
                                | Some item \<Rightarrow>
                                    map_option AStr (resolvedPolicy env policy item)))))"
  using p tl tf
proof (induction items arbitrary: st)
  case Nil
  then show ?case by simp
next
  case (Cons item items)
  let ?m = "\<lambda>item. findResourceByName firewallResources ''FirewallName'' (firewallName item)"
  let ?bad = "\<lambda>item. ?m item \<noteq> None
             \<and> \<not> resolvesInRun policy item \<and> \<not> resolvesFromExports env item"
  let ?at = "\<lambda>l item. map_option logicalResourceId (?m item) = Some l"
  let ?run = "\<lambda>items st. createNetworkFirewall_loop env vpcItem vpcStackInfo firewallResources
                vpcId subnetRefs policy items st"
  have prest: "\<forall>item \<in> set items. ?m item \<noteq> None
        \<longrightarrow> (\<forall>subnet \<in> set (firewallSubnets item). subnetRefs subnet \<noteq> None)"
    using Cons.prems(1) by simp
  show ?case
  proof (cases "?bad item")
    case True
    then obtain r where r: "?m item = Some r" by auto
    have "\<forall>subnet \<in> set (firewallSubnets item). subnetRefs subnet \<noteq> None"
      using Cons.prems(1) r by simp
    from createNetworkFirewall_item_unresolved[OF r this] True
    have "createNetworkFirewall_item env vpcItem vpcStackInfo firewallResources vpcId subnetRefs
           policy item st = Inl (policyNotFound (firewallPolicy item))"
      by simp
    then show ?thesis using True by simp
  next
    case False
    have step: "\<exists>st1. createNetworkFirewall_item env vpcItem vpcStackInfo firewallResources vpcId
                  subnetRefs policy item st = Inr st1
           \<and> (\<forall>l. template st1 l = None \<longleftrightarrow> template st l = None)
           \<and> (\<forall>l obj. template st l = Some obj \<longrightarrow>
                 (\<exists>obj'. template st1 l = Some obj' \<and> ref obj' = ref obj
                    \<and> attrs obj' ''firewallPolicyArn''
                        = (if ?at l item then map_option AStr (resolvedPolicy env policy item)
                           else attrs obj ''firewallPolicyArn'')))"
    proof (cases "?m item")
      case None
      then show ?thesis using createNetworkFirewall_item_unmatched[OF None] by simp
    next
      case (Some r)
      have pr: "\<forall>subnet \<in> set (firewallSubnets item). subnetRefs subnet \<noteq> None"
        using Cons.prems(1) Some by simp
      have re: "resolvesInRun policy item \<or> resolvesFromExports env item"
        using False Some by auto
      have "r \<in> set firewallResources"
        using Some by (auto simp: findResourceByName_def find_Some_iff)
      then have tr: "template st (logicalResourceId r) \<noteq> None"
        using Cons.prems(3) by blast
      from createNetworkFirewall_item_merged[OF Some pr re fl Cons.prems(2) tr]
      show ?thesis using Some by simp
    qed
    then obtain st1 where st1:
        "createNetworkFirewall_item env vpcItem vpcStackInfo firewallResources vpcId
                  subnetRefs policy item st = Inr st1"
        "\<forall>l. template st1 l = None \<longleftrightarrow> template st l = None"
        "\<forall>l obj. template st l = Some obj \<longrightarrow>
                 (\<exists>obj'. template st1 l = Some obj' \<and> ref obj' = ref obj
                    \<and> attrs obj' ''firewallPolicyArn''
                        = (if ?at l item then map_option AStr (resolvedPolicy env policy item)
                           else attrs obj ''firewallPolicyArn''))"
      by blast
    have run: "?run (item # items) st = ?run items st1" using st1(1) by simp
    have tl1: "template st1 (logicalResourceId loggingResource) \<noteq> None"
      using st1(2) Cons.prems(2) by simp
    have tf1: "\<forall>r \<in> set firewallResources. template st1 (logicalResourceId r) \<noteq> None"
      using st1(2) Cons.prems(3) by simp
    note ih = Cons.IH[OF prest tl1 tf1]
    have fb: "List.find ?bad (item # items) = List.find ?bad items"
      unfolding List.find.simps by (rule if_not_P) (rule False)
    show ?thesis
    proof (cases "List.find ?bad items")
      case (Some b)
      then show ?thesis using ih unfolding fb run by simp
    next
      case None
      then obtain st' where st': "?run items st1 = Inr st'"
          "\<forall>l obj. template st1 l = Some obj \<longrightarrow>
                      (\<exists>obj'. template st' l = Some obj' \<and> ref obj' = ref obj
                         \<and> attrs obj' ''firewallPolicyArn''
                             = (case List.find (?at l) (rev items) of
                                  None \<Rightarrow> attrs obj ''firewallPolicyArn''
                                | Some item \<Rightarrow> map_option AStr (resolvedPolicy env policy item)))"
        using ih by auto
      have "\<exists>obj'. template st' l = Some obj' \<and> ref obj' = ref obj
                         \<and> attrs obj' ''firewallPolicyArn''
                             = (case List.find (?at l) (rev (item # items)) of
                                  None \<Rightarrow> attrs obj ''firewallPolicyArn''
                                | Some item \<Rightarrow> map_option AStr (resolvedPolicy env policy item))"
        if h: "template st l = Some obj" for l obj
      proof -
        obtain obj1 where o1: "template st1 l = Some obj1" "ref obj1 = ref obj"
            "attrs obj1 ''firewallPolicyArn''
               = (if ?at l item then map_option AStr (resolvedPolicy env policy item)
                  else attrs obj ''firewallPolicyArn'')"
          using st1(3) h by blast
        obtain obj' where o': "template st' l = Some obj'" "ref obj' = ref obj1"
            "attrs obj' ''firewallPolicyArn''
               = (case List.find (?at l) (rev items) of
                    None \<Rightarrow> attrs obj1 ''firewallPolicyArn''
                  | Some item \<Rightarrow> map_option AStr (resolvedPolicy env policy item))"
          using st'(2) o1(1) by blast
        show ?thesis
          using o1 o' by (auto simp add: find_snoc split: option.splits)
      qed
      then show ?thesis unfolding fb run using None st'(1) by simp
    qed
  qed
qed

lemma createNetworkFirewall_item_Error:
  assumes "createNetworkFirewall_item env vpcItem vpcStackInfo firewallResources vpcId subnetRefs
             policy firewallItem st = Inl (Error message)"
  shows "Error message = policyNotFound (firewallPolicy firewallItem)
       \<and> findResourceByName firewallResources ''FirewallName'' (firewallName firewallItem) \<noteq> None
       \<and> \<not> resolvesInRun policy firewallItem \<and> \<not> resolvesFromExports env firewallItem"
proof (cases "findResourceByName firewallResources ''FirewallName'' (firewallName firewallItem)")
  case None
  then show ?thesis using assms by (simp add: createNetworkFirewall_item_def)
next
  case (Some firewallResource)
  note m = Some
  show ?thesis
  proof (cases "firewallSubnetIds env vpcItem subnetRefs (firewallSubnets firewallItem)")
    case (Inl e)
    then have "e = Error message" using assms m by (simp add: createNetworkFirewall_item_def)
    then show ?thesis using Inl firewallSubnetIds_no_Error by blast
  next
    case (Inr subnetIds)
    note s = Inr
    show ?thesis
    proof (cases "truthy_string (resolvePolicyArn env policy firewallItem)")
      case False
      then have "Inl (policyNotFound (firewallPolicy firewallItem)) = (Inl (Error message) :: error + merger_state)"
        using assms m s by (simp add: createNetworkFirewall_item_def Let_def)
      then show ?thesis using False m by (simp add: resolvePolicyArn_truthy)
    next
      case True
      let ?arn = "case resolvePolicyArn env policy firewallItem of Some arn \<Rightarrow> arn | None \<Rightarrow> []"
      show ?thesis
      proof (cases "includedCfnResource (logicalResourceId firewallResource) ?arn firewallItem
                      subnetIds vpcId st")
        case (Inl e)
        then have "e = Error message"
          using assms m s True by (simp add: createNetworkFirewall_item_def Let_def)
        then show ?thesis using Inl includedCfnResource_no_Error by blast
      next
        case (Inr st1)
        note i = Inr
        show ?thesis
        proof (cases "addFirewallLoggingConfiguration env vpcStackInfo firewallItem st1")
          case (Inl e)
          then have "e = Error message"
            using assms m s True i by (simp add: createNetworkFirewall_item_def Let_def)
          then show ?thesis using Inl addFirewallLoggingConfiguration_no_Error by blast
        next
          case (Inr st2)
          then show ?thesis
            using assms m s True i
            by (auto simp: createNetworkFirewall_item_def Let_def getResource_def
                split: option.splits)
        qed
      qed
    qed
  qed
qed

lemma createNetworkFirewall_loop_Error:
  assumes "createNetworkFirewall_loop env vpcItem vpcStackInfo firewallResources vpcId subnetRefs
             policy items st = Inl (Error message)"
  shows "\<exists>firewallItem \<in> set items. Error message = policyNotFound (firewallPolicy firewallItem)
       \<and> findResourceByName firewallResources ''FirewallName'' (firewallName firewallItem) \<noteq> None
       \<and> \<not> resolvesInRun policy firewallItem \<and> \<not> resolvesFromExports env firewallItem"
  using assms
proof (induction items arbitrary: st)
  case Nil
  then show ?case by simp
next
  case (Cons item items)
  show ?case
  proof (cases "createNetworkFirewall_item env vpcItem vpcStackInfo firewallResources vpcId
                  subnetRefs policy item st")
    case (Inl e)
    then have "e = Error message" using Cons.prems by simp
    then show ?thesis using createNetworkFirewall_item_Error[of env vpcItem vpcStackInfo
        firewallResources vpcId subnetRefs policy item st message] Inl by simp
  next
    case (Inr st1)
    then have "createNetworkFirewall_loop env vpcItem vpcStackInfo firewallResources vpcId
        subnetRefs policy items st1 = Inl (Error message)"
      using Cons.prems by simp
    from Cons.IH[OF this] show ?thesis by auto
  qed
qed

lemma createNetworkFirewall_loop_unmatched:
  assumes "\<forall>item \<in> set items.
        findResourceByName firewallResources ''FirewallName'' (firewallName item) = None"
  shows "createNetworkFirewall_loop env vpcItem vpcStackInfo firewallResources vpcId subnetRefs
           policy items st = Inr st"
  using assms by (induction items) (simp_all add: createNetworkFirewall_item_unmatched)

lemma createNetworkFirewall_shape:
  "createNetworkFirewall env firewalls vpcItem vpcStackInfo vpcId subnetRefs policy st
     = createNetworkFirewall_loop env vpcItem vpcStackInfo
         (filterResourcesByType (resources vpcStackInfo) RESOURCE_TYPE_NETWORK_FIREWALL) vpcId
         subnetRefs policy
         (case firewalls of None \<Rightarrow> []
          | Some configured \<Rightarrow>
              filter (\<lambda>firewallConfig. firewallVpc firewallConfig = vpcName vpcItem) configured) st
   \<or> (\<exists>st1. createNetworkFirewall env firewalls vpcItem vpcStackInfo vpcId subnetRefs policy st
              = Inr st1
        \<and> template st1 = template st \<and> ssmParameters st1 = ssmParameters st
        \<and> aseaResources st1 = aseaResources st
        \<and> createNetworkFirewall_loop env vpcItem vpcStackInfo
            (filterResourcesByType (resources vpcStackInfo) RESOURCE_TYPE_NETWORK_FIREWALL) vpcId
            subnetRefs policy
            (case firewalls of None \<Rightarrow> []
             | Some configured \<Rightarrow>
                 filter (\<lambda>firewallConfig. firewallVpc firewallConfig = vpcName vpcItem) configured)
            st = Inr st)"
proof -
  let ?R = "filterResourcesByType (resources vpcStackInfo) RESOURCE_TYPE_NETWORK_FIREWALL"
  let ?items = "case firewalls of None \<Rightarrow> []
          | Some configured \<Rightarrow>
              filter (\<lambda>firewallConfig. firewallVpc firewallConfig = vpcName vpcItem) configured"
  consider (none) "?R = []" | (empty) "?R \<noteq> []" "?items = []" | (run) "?R \<noteq> []" "?items \<noteq> []"
    by blast
  then show ?thesis
  proof cases
    case none
    have "\<forall>item \<in> set ?items. findResourceByName ?R ''FirewallName'' (firewallName item) = None"
      unfolding none by (simp add: findResourceByName_def)
    from createNetworkFirewall_loop_unmatched[OF this]
    show ?thesis using none by (simp add: createNetworkFirewall_def)
  next
    case empty
    then show ?thesis
      by (auto simp: createNetworkFirewall_def Let_def addLogs_def split: option.splits)
  next
    case run
    then show ?thesis
      by (auto simp: createNetworkFirewall_def Let_def split: option.splits)
  qed
qed

text \<open>
  C8, as stated, fails in the direction "unresolved, hence fatal". The merger handles only
  the configured firewalls that it matches by name to a legacy firewall record: one
  without such a record is passed over before its policy is looked at, and a container
  without any legacy firewall record ends the merger at once. Here the policy of the
  configured firewall resolves from neither source, and both runs return the state they
  were given.
\<close>

theorem createNetworkFirewall_unmatched_counterexample:
  "\<not> resolvesInRun None firewall_unmatched
     \<and> \<not> resolvesFromExports example_env firewall_unmatched
     \<and> firewallVpc firewall_unmatched = vpcName example_vpc
     \<and> createNetworkFirewall example_env (Some [firewall_unmatched]) example_vpc stack_firewall
          ''vpc-01'' [''Web'' \<mapsto> ''subnet-0a''] None firewall_state = Inr firewall_state
     \<and> \<not> resolvesInRun None firewall_config
     \<and> \<not> resolvesFromExports example_env firewall_config
     \<and> firewallVpc firewall_config = vpcName example_vpc
     \<and> createNetworkFirewall example_env (Some [firewall_config]) example_vpc stack_prod
          ''vpc-01'' [''Web'' \<mapsto> ''subnet-0a''] None firewall_state = Inr firewall_state"
  by (simp add: resolvesInRun_def resolvesFromExports_def example_env_def firewall_unmatched_def
      firewall_config_def example_vpc_def createNetworkFirewall_def createNetworkFirewall_item_def
      filterResourcesByType_def findResourceByName_def getProperty_def stack_firewall_def
      stack_prod_def vpc_prod_def subnet_web_1_def subnet_web_2_def firewall_legacy_def
      firewall_logging_legacy_def)

text \<open>
  C8, amended. Of the firewalls configured for the network, the merger looks only at those
  matched by name to a legacy firewall record; write \<open>unresolved\<close> for such a firewall
  whose policy reference resolves neither from the policy merged in the current run nor
  from the previously exported parameter.

  For every input, a run that ends in the fatal error has an unresolved firewall, which
  the error names, and a run none of whose configured firewalls is matched returns with
  the template, the exports and the registry as they were.

  Where every subnet of a matched firewall has a subnet object of this run, the
  container holds a legacy logging-configuration record, and the template holds the
  objects of the legacy records, the run ends in the fatal error if and only if some
  configured firewall is unresolved, and the error names the first one. When there is
  none, the run returns and every matched firewall has a non-empty resolved policy
  identifier; the object of each legacy firewall record then carries the resolved policy
  identifier of the last configured firewall that is matched to it, the policy of the
  current run taking precedence over the exported one, and every other object keeps the
  policy reference it had.
\<close>

theorem createNetworkFirewall_fatal_iff_matched_policy_unresolved:
  assumes items: "items = (case firewalls of None \<Rightarrow> []
          | Some configured \<Rightarrow>
              filter (\<lambda>firewallConfig. firewallVpc firewallConfig = vpcName vpcItem) configured)"
    and matched: "matched = (\<lambda>item. findResourceByName
          (filterResourcesByType (resources vpcStackInfo) RESOURCE_TYPE_NETWORK_FIREWALL)
          ''FirewallName'' (firewallName item))"
    and unresolved: "unresolved = (\<lambda>item. matched item \<noteq> None
          \<and> \<not> resolvesInRun policy item \<and> \<not> resolvesFromExports env item)"
  shows "(\<forall>message.
            createNetworkFirewall env firewalls vpcItem vpcStackInfo vpcId subnetRefs policy st
              = Inl (Error message)
            \<longrightarrow> (\<exists>item \<in> set items. unresolved item
                    \<and> Error message = policyNotFound (firewallPolicy item)))
     \<and> ((\<forall>item \<in> set items. matched item = None)
         \<longrightarrow> (\<exists>st'. createNetworkFirewall env firewalls vpcItem vpcStackInfo vpcId subnetRefs
                       policy st = Inr st'
                \<and> template st' = template st \<and> ssmParameters st' = ssmParameters st
                \<and> aseaResources st' = aseaResources st))
     \<and> ((\<forall>item \<in> set items. matched item \<noteq> None
             \<longrightarrow> (\<forall>subnet \<in> set (firewallSubnets item). subnetRefs subnet \<noteq> None))
          \<and> filterResourcesByType (resources vpcStackInfo) RESOURCE_TYPE_NETWORK_FIREWALL_LOGGING
               = loggingResource # others
          \<and> template st (logicalResourceId loggingResource) \<noteq> None
          \<and> (\<forall>r \<in> set (filterResourcesByType (resources vpcStackInfo)
                           RESOURCE_TYPE_NETWORK_FIREWALL).
                 template st (logicalResourceId r) \<noteq> None)
         \<longrightarrow> ((\<exists>message.
                  createNetworkFirewall env firewalls vpcItem vpcStackInfo vpcId subnetRefs policy
                    st = Inl (Error message))
               \<longleftrightarrow> (\<exists>item \<in> set items. unresolved item))
           \<and> (\<forall>item. List.find unresolved items = Some item
                 \<longrightarrow> createNetworkFirewall env firewalls vpcItem vpcStackInfo vpcId subnetRefs
                       policy st = Inl (policyNotFound (firewallPolicy item)))
           \<and> (List.find unresolved items = None
               \<longrightarrow> (\<forall>item \<in> set items. matched item \<noteq> None
                       \<longrightarrow> (\<exists>arn. resolvedPolicy env policy item = Some arn \<and> arn \<noteq> []))
                 \<and> (\<exists>st'. createNetworkFirewall env firewalls vpcItem vpcStackInfo vpcId
                            subnetRefs policy st = Inr st'
                      \<and> (\<forall>l obj. template st l = Some obj \<longrightarrow>
                            (\<exists>obj'. template st' l = Some obj' \<and> ref obj' = ref obj
                               \<and> attrs obj' ''firewallPolicyArn''
                                   = (case List.find (\<lambda>item. map_option logicalResourceId
                                           (matched item) = Some l) (rev items) of
                                        None \<Rightarrow> attrs obj ''firewallPolicyArn''
                                      | Some item \<Rightarrow>
                                          map_option AStr (resolvedPolicy env policy item)))))))"
proof -
  let ?R = "filterResourcesByType (resources vpcStackInfo) RESOURCE_TYPE_NETWORK_FIREWALL"
  let ?run = "createNetworkFirewall env firewalls vpcItem vpcStackInfo vpcId subnetRefs policy st"
  let ?loop = "createNetworkFirewall_loop env vpcItem vpcStackInfo ?R vpcId subnetRefs policy
                 items st"
  let ?merged = "\<lambda>st'. \<forall>l obj. template st l = Some obj \<longrightarrow>
                            (\<exists>obj'. template st' l = Some obj' \<and> ref obj' = ref obj
                               \<and> attrs obj' ''firewallPolicyArn''
                                   = (case List.find (\<lambda>item. map_option logicalResourceId
                                           (matched item) = Some l) (rev items) of
                                        None \<Rightarrow> attrs obj ''firewallPolicyArn''
                                      | Some item \<Rightarrow>
                                          map_option AStr (resolvedPolicy env policy item)))"
  have shape: "?run = ?loop
     \<or> (\<exists>st1. ?run = Inr st1 \<and> template st1 = template st
            \<and> ssmParameters st1 = ssmParameters st \<and> aseaResources st1 = aseaResources st
            \<and> ?loop = Inr st)"
    unfolding items by (rule createNetworkFirewall_shape)
  have c1: "\<exists>item \<in> set items. unresolved item
              \<and> Error message = policyNotFound (firewallPolicy item)"
    if e: "?run = Inl (Error message)" for message
  proof -
    have "?loop = Inl (Error message)" using shape e by auto
    from createNetworkFirewall_loop_Error[OF this] show ?thesis
      unfolding unresolved matched by blast
  qed
  have c2: "\<exists>st'. ?run = Inr st' \<and> template st' = template st
              \<and> ssmParameters st' = ssmParameters st \<and> aseaResources st' = aseaResources st"
    if u: "\<forall>item \<in> set items. matched item = None"
  proof -
    have "?loop = Inr st"
      using u unfolding matched by (rule createNetworkFirewall_loop_unmatched)
    then show ?thesis using shape by auto
  qed
  have c3: "((\<exists>message. ?run = Inl (Error message)) \<longleftrightarrow> (\<exists>item \<in> set items. unresolved item))
           \<and> (\<forall>item. List.find unresolved items = Some item
                 \<longrightarrow> ?run = Inl (policyNotFound (firewallPolicy item)))
           \<and> (List.find unresolved items = None
               \<longrightarrow> (\<forall>item \<in> set items. matched item \<noteq> None
                       \<longrightarrow> (\<exists>arn. resolvedPolicy env policy item = Some arn \<and> arn \<noteq> []))
                 \<and> (\<exists>st'. ?run = Inr st' \<and> ?merged st'))"
    if wf: "(\<forall>item \<in> set items. matched item \<noteq> None
             \<longrightarrow> (\<forall>subnet \<in> set (firewallSubnets item). subnetRefs subnet \<noteq> None))
          \<and> filterResourcesByType (resources vpcStackInfo) RESOURCE_TYPE_NETWORK_FIREWALL_LOGGING
               = loggingResource # others
          \<and> template st (logicalResourceId loggingResource) \<noteq> None
          \<and> (\<forall>r \<in> set ?R. template st (logicalResourceId r) \<noteq> None)"
  proof -
    have p: "\<forall>item \<in> set items.
        findResourceByName ?R ''FirewallName'' (firewallName item) \<noteq> None
        \<longrightarrow> (\<forall>subnet \<in> set (firewallSubnets item). subnetRefs subnet \<noteq> None)"
      using wf unfolding matched by blast
    have fl: "filterResourcesByType (resources vpcStackInfo) RESOURCE_TYPE_NETWORK_FIREWALL_LOGGING
               = loggingResource # others"
      using wf by blast
    have tl: "template st (logicalResourceId loggingResource) \<noteq> None" using wf by blast
    have tf: "\<forall>r \<in> set ?R. template st (logicalResourceId r) \<noteq> None" using wf by blast
    have res: "case List.find unresolved items of
           Some item \<Rightarrow> ?loop = Inl (policyNotFound (firewallPolicy item))
         | None \<Rightarrow> (\<exists>st'. ?loop = Inr st' \<and> ?merged st')"
      unfolding unresolved matched
      by (rule createNetworkFirewall_loop_result[OF p fl tl tf])
    have bad: "?run = Inl (policyNotFound (firewallPolicy item))"
      if f: "List.find unresolved items = Some item" for item
    proof -
      have "?loop = Inl (policyNotFound (firewallPolicy item))" using res f by simp
      then show ?thesis using shape by auto
    qed
    have good: "\<exists>st'. ?run = Inr st' \<and> ?merged st'"
      if f: "List.find unresolved items = None"
    proof -
      obtain st' where st': "?loop = Inr st'" "?merged st'" using res f by auto
      from shape show ?thesis
      proof
        assume "?run = ?loop"
        then show ?thesis using st' by auto
      next
        assume "\<exists>st1. ?run = Inr st1 \<and> template st1 = template st
            \<and> ssmParameters st1 = ssmParameters st \<and> aseaResources st1 = aseaResources st
            \<and> ?loop = Inr st"
        then obtain st1 where s1: "?run = Inr st1" "template st1 = template st" "?loop = Inr st"
          by blast
        have "st' = st" using st'(1) s1(3) by simp
        then have "?merged st1" using st'(2) s1(2) by simp
        then show ?thesis using s1(1) by blast
      qed
    qed
    have arn: "\<exists>arn. resolvedPolicy env policy item = Some arn \<and> arn \<noteq> []"
      if f: "List.find unresolved items = None" and i: "item \<in> set items"
        and m: "matched item \<noteq> None" for item
    proof -
      have "\<not> unresolved item" using f i by (auto simp: find_None_iff)
      then have "truthy_string (resolvePolicyArn env policy item)"
        using m unfolding unresolved by (auto simp: resolvePolicyArn_truthy)
      then show ?thesis
        by (auto simp: resolvedPolicy_def resolvePolicyArn_value truthy_string_def
            split: option.splits)
    qed
    have iff: "(\<exists>message. ?run = Inl (Error message)) \<longleftrightarrow> (\<exists>item \<in> set items. unresolved item)"
    proof
      assume "\<exists>message. ?run = Inl (Error message)"
      then show "\<exists>item \<in> set items. unresolved item" using c1 by blast
    next
      assume "\<exists>item \<in> set items. unresolved item"
      then obtain item where "List.find unresolved items = Some item"
        by (cases "List.find unresolved items") (auto simp: find_None_iff)
      from bad[OF this] show "\<exists>message. ?run = Inl (Error message)"
        by (simp add: policyNotFound_def)
    qed
    show ?thesis using iff bad good arn by blast
  qed
  show ?thesis
    apply (intro conjI)
    subgoal using c1 by blast
    subgoal using c2 by blast
    subgoal using c3 by blast
    done
qed

theorem createNetworkFirewall_fatal_iff_matched_policy_unresolved_witness:
  "createNetworkFirewall example_env (Some [firewall_config]) example_vpc stack_firewall
       ''vpc-01'' [''Web'' \<mapsto> ''subnet-0a''] None firewall_state
     = Inl (policyNotFound ''Strict'')
   \<and> (\<exists>st' firewall.
         createNetworkFirewall exported_policy_env (Some [firewall_config]) example_vpc
           stack_firewall ''vpc-01'' [''Web'' \<mapsto> ''subnet-0a''] None firewall_state = Inr st'
       \<and> template st' ''NfwA'' = Some firewall
       \<and> attrs firewall ''firewallPolicyArn'' = Some (AStr ''arn:policy/Strict''))"
proof -
  let ?R = "filterResourcesByType (resources stack_firewall) RESOURCE_TYPE_NETWORK_FIREWALL"
  let ?m = "\<lambda>item. findResourceByName ?R ''FirewallName'' (firewallName item)"
  let ?u = "\<lambda>env item. ?m item \<noteq> None
          \<and> \<not> resolvesInRun (None :: firewall_policy option) item
          \<and> \<not> resolvesFromExports env item"
  have i: "[firewall_config] = (case Some [firewall_config] of None \<Rightarrow> []
          | Some configured \<Rightarrow>
              filter (\<lambda>firewallConfig. firewallVpc firewallConfig = vpcName example_vpc)
                configured)"
    by (simp add: firewall_config_def example_vpc_def)
  have R: "?R = [firewall_legacy]"
    by (simp add: filterResourcesByType_def stack_firewall_def vpc_prod_def firewall_legacy_def
        firewall_logging_legacy_def)
  have L: "filterResourcesByType (resources stack_firewall) RESOURCE_TYPE_NETWORK_FIREWALL_LOGGING
      = firewall_logging_legacy # []"
    by (simp add: filterResourcesByType_def stack_firewall_def vpc_prod_def firewall_legacy_def
        firewall_logging_legacy_def)
  have m: "?m firewall_config = Some firewall_legacy"
    unfolding R
    by (simp add: findResourceByName_def getProperty_def firewall_legacy_def firewall_config_def)
  have lid: "logicalResourceId firewall_legacy = ''NfwA''"
      "logicalResourceId firewall_logging_legacy = ''NfwALogging''"
    by (simp_all add: firewall_legacy_def firewall_logging_legacy_def)
  have present: "\<forall>subnet \<in> set (firewallSubnets firewall_config).
      [''Web'' \<mapsto> ''subnet-0a''] subnet \<noteq> None"
    by (simp add: firewall_config_def)
  have objects: "template firewall_state (logicalResourceId firewall_logging_legacy) \<noteq> None"
      "\<forall>r \<in> set ?R. template firewall_state (logicalResourceId r) \<noteq> None"
    unfolding R by (simp_all add: lid firewall_state_def)
  have wf: "(\<forall>item \<in> set [firewall_config]. ?m item \<noteq> None
             \<longrightarrow> (\<forall>subnet \<in> set (firewallSubnets item).
                    [''Web'' \<mapsto> ''subnet-0a''] subnet \<noteq> None))
          \<and> filterResourcesByType (resources stack_firewall) RESOURCE_TYPE_NETWORK_FIREWALL_LOGGING
               = firewall_logging_legacy # []
          \<and> template firewall_state (logicalResourceId firewall_logging_legacy) \<noteq> None
          \<and> (\<forall>r \<in> set ?R. template firewall_state (logicalResourceId r) \<noteq> None)"
    using present L objects by simp
  note main = createNetworkFirewall_fatal_iff_matched_policy_unresolved
    [where policy = "None :: firewall_policy option" and st = firewall_state
       and subnetRefs = "[''Web'' \<mapsto> ''subnet-0a'']" and vpcId = "''vpc-01''"
       and loggingResource = firewall_logging_legacy and others = "[]", OF i refl refl]
  have fp: "firewallPolicy firewall_config = ''Strict''" by (simp add: firewall_config_def)
  have u: "List.find (?u example_env) [firewall_config] = Some firewall_config"
    using m by (simp add: resolvesInRun_def resolvesFromExports_def example_env_def)
  have 1: "createNetworkFirewall example_env (Some [firewall_config]) example_vpc stack_firewall
       ''vpc-01'' [''Web'' \<mapsto> ''subnet-0a''] None firewall_state
     = Inl (policyNotFound ''Strict'')"
    using mp [OF spec [OF conjunct1 [OF conjunct2
        [OF mp [OF conjunct2 [OF conjunct2 [OF main [where env = example_env]]] wf]]],
        of firewall_config] u]
    unfolding fp .
  have ex: "getExternalResourceParameter exported_policy_env
      (getSsmPath exported_policy_env SSM_NFW_POLICY [firewallPolicy firewall_config])
      = Some ''arn:policy/Strict''"
    by (simp add: exported_policy_env_def example_env_def fp)
  have r: "List.find (?u exported_policy_env) [firewall_config] = None"
    by (simp add: resolvesFromExports_def ex)
  have rp: "resolvedPolicy exported_policy_env None firewall_config = Some ''arn:policy/Strict''"
    by (simp add: resolvedPolicy_def resolvesInRun_def ex)
  have at: "List.find (\<lambda>item. map_option logicalResourceId (?m item) = Some ''NfwA'')
      (rev [firewall_config]) = Some firewall_config"
    using m by (simp add: lid)
  have o: "template firewall_state ''NfwA'' = Some (example_object ''fw-01'')"
    by (simp add: firewall_state_def)
  obtain st' where st':
      "createNetworkFirewall exported_policy_env (Some [firewall_config]) example_vpc
           stack_firewall ''vpc-01'' [''Web'' \<mapsto> ''subnet-0a''] None firewall_state = Inr st'"
      "\<forall>l obj. template firewall_state l = Some obj \<longrightarrow>
          (\<exists>obj'. template st' l = Some obj' \<and> ref obj' = ref obj
             \<and> attrs obj' ''firewallPolicyArn''
                 = (case List.find (\<lambda>item. map_option logicalResourceId (?m item) = Some l)
                      (rev [firewall_config]) of
                      None \<Rightarrow> attrs obj ''firewallPolicyArn''
                    | Some item \<Rightarrow>
                        map_option AStr (resolvedPolicy exported_policy_env None item)))"
    using conjunct2 [OF mp [OF conjunct2 [OF conjunct2
        [OF mp [OF conjunct2 [OF conjunct2 [OF main [where env = exported_policy_env]]] wf]]] r]]
    by (elim exE conjE)
  obtain firewall where f: "template st' ''NfwA'' = Some firewall"
      "attrs firewall ''firewallPolicyArn''
         = (case List.find (\<lambda>item. map_option logicalResourceId (?m item) = Some ''NfwA'')
              (rev [firewall_config]) of
              None \<Rightarrow> attrs (example_object ''fw-01'') ''firewallPolicyArn''
            | Some item \<Rightarrow> map_option AStr (resolvedPolicy exported_policy_env None item))"
    using st'(2) o by blast
  have "attrs firewall ''firewallPolicyArn'' = Some (AStr ''arn:policy/Strict'')"
    using f(2) unfolding at by (simp add: rp)
  then have "\<exists>st' firewall.
         createNetworkFirewall exported_policy_env (Some [firewall_config]) example_vpc
           stack_firewall ''vpc-01'' [''Web'' \<mapsto> ''subnet-0a''] None firewall_state = Inr st'
       \<and> template st' ''NfwA'' = Some firewall
       \<and> attrs firewall ''firewallPolicyArn'' = Some (AStr ''arn:policy/Strict'')"
    using st'(1) f(1) by blast
  with 1 show ?thesis by (rule conjI)
qed

end
